(* ===== verification/RCM_Prelude.thy ===== *)
theory RCM_Prelude
  imports Main
    "HOL-Library.AList"
    "HOL-Library.Sublist"
    "HOL-Library.Char_ord"
    "HOL-Library.List_Lexorder"
begin

text \<open>
  The prelude of the development: the collections of simplification rules that the
  component theories fill, the types that stand for Go values (byte strings, errors, calls
  that may panic, maps that may be nil) and the generic lemmas on lists and association
  lists that several components use.

  A Go \<open>string\<close> and a \<open>[]byte\<close> are both lists of bytes, so both are
  \<open>string\<close> here: an element of type \<open>char\<close> is a byte.
\<close>

section \<open>Collections\<close>

named_theorems go_simps \<open>equations of the Go library functions the source calls\<close>
named_theorems fs_simps \<open>equations of the reference file system\<close>
named_theorems kube_simps \<open>equations of the reference API server\<close>

section \<open>Types of the model\<close>

type_synonym bytes = string
type_synonym path = string

text \<open>
  Go errors. The first constructors are the leaf errors the source tells apart, through
  \<open>errors.Is(err, os.ErrNotExist)\<close> and \<open>IsNotFound\<close>; \<open>Wrap\<close> is
  \<open>fmt.Errorf\<close> with a \<open>%w\<close> verb (the message is the format string) and
  \<open>Joined\<close> is the result of \<open>errors.Join\<close>.
\<close>

datatype error =
    ErrNotExist
  | FsError string
  | JsonError string
  | HexError
  | ApiNotFound
  | ApiError string
  | ExecError string
  | Msg string
  | Wrap string error
  | Joined "error list"

text \<open>\<open>errors.Is(err, os.ErrNotExist)\<close> unwraps wrapped and joined errors.\<close>

fun is_ErrNotExist :: "error \<Rightarrow> bool" where
  "is_ErrNotExist ErrNotExist = True"
| "is_ErrNotExist (Wrap _ e) = is_ErrNotExist e"
| "is_ErrNotExist (Joined es) = (\<exists>e \<in> set es. is_ErrNotExist e)"
| "is_ErrNotExist _ = False"

text \<open>
  \<open>errors.Join\<close> discards nil errors and returns nil when no error is left.
\<close>

definition errors_Join :: "error option list \<Rightarrow> error option" where
  "errors_Join es = (let fs = List.map_filter id es in if fs = [] then None else Some (Joined fs))"

text \<open>
  A call either returns or panics. The source never recovers from a panic itself.
\<close>

datatype 'a outcome = Ret 'a | Panic string

text \<open>
  A Go map with string keys. \<open>None\<close> is the nil map: reading it and deleting from it are
  no-ops, writing to it panics. The keys of the list are distinct (\<open>map_wf\<close>); its order is
  an iteration order and carries no meaning.
\<close>

type_synonym 'a gomap = "(string \<times> 'a) list option"

definition entries :: "'a gomap \<Rightarrow> (string \<times> 'a) list" where
  "entries m = (case m of None \<Rightarrow> [] | Some kvs \<Rightarrow> kvs)"

definition map_get :: "'a gomap \<Rightarrow> string \<Rightarrow> 'a option" where
  "map_get m k = map_of (entries m) k"

definition map_set :: "'a gomap \<Rightarrow> string \<Rightarrow> 'a \<Rightarrow> 'a gomap outcome" where
  "map_set m k v =
     (case m of
        None \<Rightarrow> Panic ''assignment to entry in nil map''
      | Some kvs \<Rightarrow> Ret (Some (AList.update k v kvs)))"

definition map_delete :: "'a gomap \<Rightarrow> string \<Rightarrow> 'a gomap" where
  "map_delete m k = map_option (AList.delete k) m"

definition map_wf :: "'a gomap \<Rightarrow> bool" where
  "map_wf m = distinct (map fst (entries m))"

section \<open>Lemmas on the types\<close>

lemma errors_Join_None_iff: "errors_Join es = None \<longleftrightarrow> (\<forall>e \<in> set es. e = None)"
  by (induction es) (auto simp: errors_Join_def Let_def List.map_filter_def)

lemma errors_Join_Some_iff: "(\<exists>e. errors_Join es = Some e) \<longleftrightarrow> (\<exists>e. Some e \<in> set es)"
proof -
  have "(\<exists>e. errors_Join es = Some e) \<longleftrightarrow> errors_Join es \<noteq> None" by auto
  also have "\<dots> \<longleftrightarrow> (\<exists>e \<in> set es. e \<noteq> None)" by (simp add: errors_Join_None_iff)
  also have "\<dots> \<longleftrightarrow> (\<exists>e. Some e \<in> set es)" by auto
  finally show ?thesis .
qed

lemma entries_simps [simp]:
  "entries None = []" "entries (Some kvs) = kvs"
  by (simp_all add: entries_def)

lemma map_get_nil [simp]: "map_get None k = None"
  by (simp add: map_get_def)

lemma map_get_Some: "map_get (Some kvs) k = map_of kvs k"
  by (simp add: map_get_def)

lemma map_set_Ret:
  "map_set m k v = Ret m' \<Longrightarrow> map_get m' x = (if x = k then Some v else map_get m x)"
  by (auto simp: map_set_def map_get_def update_conv' split: option.splits)

lemma map_get_delete:
  "map_get (map_delete m k) x = (if x = k then None else map_get m x)"
  by (cases m) (auto simp: map_delete_def map_get_def delete_conv')

lemma map_wf_set: "map_wf m \<Longrightarrow> map_set m k v = Ret m' \<Longrightarrow> map_wf m'"
  by (auto simp: map_set_def map_wf_def distinct_update split: option.splits)

lemma map_wf_delete: "map_wf m \<Longrightarrow> map_wf (map_delete m k)"
  by (cases m) (auto simp: map_delete_def map_wf_def distinct_delete)

section \<open>Lemmas on lists\<close>

lemma prefix_drop_decomp: "prefix p s \<Longrightarrow> s = p @ drop (length p) s"
  by (auto elim: prefixE)

lemma map_of_same_set:
  "distinct (map fst xs) \<Longrightarrow> distinct (map fst ys) \<Longrightarrow> set xs = set ys \<Longrightarrow> map_of xs = map_of ys"
  by (simp add: map_of_inject_set)

lemma find_Some_split:
  "find P xs = Some x \<longleftrightarrow> (\<exists>pre post. xs = pre @ x # post \<and> P x \<and> (\<forall>q \<in> set pre. \<not> P q))"
proof
  show "find P xs = Some x \<Longrightarrow> \<exists>pre post. xs = pre @ x # post \<and> P x \<and> (\<forall>q \<in> set pre. \<not> P q)"
  proof (induction xs)
    case (Cons y ys)
    show ?case
    proof (cases "P y")
      case True
      then have "y # ys = [] @ x # ys" "P x" using Cons.prems by auto
      then show ?thesis by fastforce
    next
      case False
      then obtain pre post where "ys = pre @ x # post" "P x" "\<forall>q \<in> set pre. \<not> P q" using Cons by auto
      with False have "y # ys = (y # pre) @ x # post" "\<forall>q \<in> set (y # pre). \<not> P q" by simp_all
      with \<open>P x\<close> show ?thesis by blast
    qed
  qed simp
next
  assume "\<exists>pre post. xs = pre @ x # post \<and> P x \<and> (\<forall>q \<in> set pre. \<not> P q)"
  then obtain pre post where "xs = pre @ x # post" "P x" "\<forall>q \<in> set pre. \<not> P q" by blast
  then show "find P xs = Some x" by (induction pre arbitrary: xs) auto
qed

end
