(* ===== verification/Shim_Types.thy ===== *)
theory Shim_Types
  imports RCM_Prelude
begin

text \<open>
  The data of the controllers: the types of \<open>api/v1alpha1/shim_types.go\<close>, and of the Kubernetes
  API objects the parts that the controllers read or write. Optional pointers are options, Go maps
  are \<open>gomap\<close>s (nil or a list of entries), a Go \<open>int\<close> is an \<open>int\<close>.
\<close>

section \<open>Object metadata\<close>

record NamespacedName =
  nn_Name :: string
  nn_Namespace :: string

record ObjectMeta =
  om_Name :: string
  om_Namespace :: string
  om_Labels :: "string gomap"
  om_Annotations :: "string gomap"
  om_Finalizers :: "string list"
  om_OwnerReferences :: "string list"
  om_DeletionTimestamp :: "nat option"
  om_ResourceVersion :: nat

definition new_meta :: ObjectMeta where
  "new_meta = \<lparr>om_Name = [], om_Namespace = [], om_Labels = None, om_Annotations = None, om_Finalizers = [],
     om_OwnerReferences = [], om_DeletionTimestamp = None, om_ResourceVersion = 0\<rparr>"

section \<open>Shims\<close>

record AnonHTTPSpec =
  http_Location :: string

record PlatformArtifact =
  pa_OS :: string
  pa_Arch :: string
  pa_Location :: string
  pa_SHA256 :: string

record FetchStrategy =
  fs_Type :: string
  AnonHTTP :: "AnonHTTPSpec option"
  Platforms :: "PlatformArtifact list"

record RuntimeClassSpec =
  rc_Name :: string
  rc_Handler :: string

record RollingSpec =
  MaxUpdate :: int

record RolloutStrategy =
  rs_Type :: string
  Rolling :: RollingSpec

definition RolloutStrategyTypeRolling :: string where
  "RolloutStrategyTypeRolling = ''rolling''"

definition RolloutStrategyTypeRecreate :: string where
  "RolloutStrategyTypeRecreate = ''recreate''"

record ShimSpec =
  NodeSelector :: "string gomap"
  FetchStrategy_of :: FetchStrategy
  RuntimeClass_of :: RuntimeClassSpec
  RolloutStrategy_of :: RolloutStrategy
  ContainerdRuntimeOptions :: "string gomap"

record ShimStatus =
  NodeCount :: int
  NodeReadyCount :: int

record Shim =
  shim_meta :: ObjectMeta
  Spec :: ShimSpec
  Status :: ShimStatus

section \<open>Nodes\<close>

record Node =
  node_meta :: ObjectMeta
  OperatingSystem :: string
  Architecture :: string

definition new_Node :: Node where
  "new_Node = \<lparr>node_meta = new_meta, OperatingSystem = [], Architecture = []\<rparr>"

section \<open>Jobs\<close>

record EnvVar =
  ev_Name :: string
  ev_Value :: string

record VolumeMount =
  vm_Name :: string
  vm_MountPath :: string

record Volume =
  vol_Name :: string
  vol_HostPath :: "string option"

text \<open>\<open>ctr_EnvFrom\<close> lists the names of the config maps of \<open>envFrom\<close>.\<close>

record Container =
  ctr_Image :: string
  ctr_Name :: string
  ctr_Args :: "string list"
  ctr_Privileged :: bool
  ctr_Env :: "EnvVar list"
  ctr_EnvFrom :: "string list"
  ctr_VolumeMounts :: "VolumeMount list"

record PodSpec =
  pod_NodeName :: string
  pod_HostPID :: bool
  pod_Volumes :: "Volume list"
  pod_InitContainers :: "Container list"
  pod_Containers :: "Container list"
  pod_RestartPolicy :: string

record JobCondition =
  jc_Type :: string
  jc_Status :: string

record Job =
  job_APIVersion :: string
  job_Kind :: string
  job_meta :: ObjectMeta
  job_Pod :: PodSpec
  job_TTL :: "int option"
  job_Conditions :: "JobCondition list"

section \<open>Runtime classes\<close>

record RuntimeClass =
  rcl_APIVersion :: string
  rcl_Kind :: string
  rcl_meta :: ObjectMeta
  rcl_Handler :: string
  rcl_NodeSelector :: "string gomap"

section \<open>Constants of the controllers\<close>

definition RCMOperatorFinalizer :: string where
  "RCMOperatorFinalizer = ''rcm.spinkube.dev/finalizer''"

definition INSTALL :: string where "INSTALL = ''install''"
definition UNINSTALL :: string where "UNINSTALL = ''uninstall''"
definition ProvisioningStatusProvisioned :: string where "ProvisioningStatusProvisioned = ''provisioned''"
definition ProvisioningStatusPending :: string where "ProvisioningStatusPending = ''pending''"
definition K8sNameMaxLength :: nat where "K8sNameMaxLength = 63"

lemmas status_defs = INSTALL_def UNINSTALL_def ProvisioningStatusProvisioned_def ProvisioningStatusPending_def

text \<open>Names and labels of objects.\<close>

abbreviation shim_Name :: "Shim \<Rightarrow> string" where "shim_Name s \<equiv> om_Name (shim_meta s)"
abbreviation node_Name :: "Node \<Rightarrow> string" where "node_Name n \<equiv> om_Name (node_meta n)"

text \<open>\<open>node.Labels[key]\<close> yields the empty string for a missing key.\<close>

definition label_of :: "Node \<Rightarrow> string \<Rightarrow> string" where
  "label_of n k = (case map_get (om_Labels (node_meta n)) k of None \<Rightarrow> [] | Some v \<Rightarrow> v)"

definition has_label :: "Node \<Rightarrow> string \<Rightarrow> bool" where
  "has_label n k \<longleftrightarrow> map_get (om_Labels (node_meta n)) k \<noteq> None"

definition with_labels :: "Node \<Rightarrow> string gomap \<Rightarrow> Node" where
  "with_labels n m = n\<lparr>node_meta := (node_meta n)\<lparr>om_Labels := m\<rparr>\<rparr>"

lemma with_labels_simps [simp]:
  "om_Labels (node_meta (with_labels n m)) = m" "node_Name (with_labels n m) = node_Name n"
  "OperatingSystem (with_labels n m) = OperatingSystem n" "Architecture (with_labels n m) = Architecture n"
  by (simp_all add: with_labels_def)

end
