(* ===== verification/Kube_Client.thy ===== *)
theory Kube_Client
  imports Shim_Types
begin

text \<open>
  The Kubernetes client the controllers use. The API machinery is not part of the repository: a
  client is a record of functions over a cluster state \<open>'c\<close>. A read may change the state too, so
  that whatever other actors do between two calls is covered, and every call may fail. The laws the
  source relies on are the locale \<open>kube_helpers\<close> (errors and finalizers). \<open>logging\<close> adds to a client
  the log of its calls; the theorems on what the controllers send, and in which order, are about
  this log and hold for every client. \<open>mem_kube\<close> is an API server in memory, for the
  interpretation and the witnesses.
\<close>

section \<open>The client\<close>

record 'c kube =
  k_GetShim :: "NamespacedName \<Rightarrow> 'c \<Rightarrow> (error + Shim) \<times> 'c"
  k_GetNode :: "NamespacedName \<Rightarrow> 'c \<Rightarrow> (error + Node) \<times> 'c"
  k_GetJob :: "NamespacedName \<Rightarrow> 'c \<Rightarrow> (error + Job) \<times> 'c"
  k_GetRuntimeClass :: "NamespacedName \<Rightarrow> 'c \<Rightarrow> (error + RuntimeClass) \<times> 'c"
  k_ListNodes :: "(string \<times> string) list \<Rightarrow> 'c \<Rightarrow> (error + Node list) \<times> 'c"
  k_ListShims :: "'c \<Rightarrow> (error + Shim list) \<times> 'c"
  k_UpdateShim :: "Shim \<Rightarrow> 'c \<Rightarrow> (error + Shim) \<times> 'c"
  k_UpdateNode :: "Node \<Rightarrow> 'c \<Rightarrow> (error + Node) \<times> 'c"
  k_PatchJob :: "Job \<Rightarrow> bytes \<Rightarrow> 'c \<Rightarrow> error option \<times> 'c"
  k_PatchRuntimeClass :: "RuntimeClass \<Rightarrow> bytes \<Rightarrow> 'c \<Rightarrow> error option \<times> 'c"
  k_MarshalJob :: "Job \<Rightarrow> error + bytes"
  k_MarshalRuntimeClass :: "RuntimeClass \<Rightarrow> error + bytes"
  k_OwnJob :: "Shim \<Rightarrow> Job \<Rightarrow> error + Job"
  k_OwnRuntimeClass :: "Shim \<Rightarrow> RuntimeClass \<Rightarrow> error + RuntimeClass"
  k_IsNotFound :: "error \<Rightarrow> bool"
  k_IgnoreNotFound :: "error option \<Rightarrow> error option"
  k_ContainsFinalizer :: "Shim \<Rightarrow> string \<Rightarrow> bool"
  k_AddFinalizer :: "Shim \<Rightarrow> string \<Rightarrow> Shim"
  k_RemoveFinalizer :: "Shim \<Rightarrow> string \<Rightarrow> Shim"

text \<open>
  The documented behaviour of \<open>apierrors.IsNotFound\<close>, \<open>client.IgnoreNotFound\<close>, the finalizer functions
  of \<open>controllerutil\<close>, which change nothing but the finalizers, and \<open>ctrl.SetControllerReference\<close>,
  which changes nothing but the owner references; an object that is fetched has the name asked
  for, and an update returns the node with the name and the labels, or the shim with the name and the
  finalizers, that it was given.
\<close>

definition finalizers :: "(string list \<Rightarrow> string list) \<Rightarrow> Shim \<Rightarrow> Shim" where
  "finalizers f s = s\<lparr>shim_meta := (shim_meta s)\<lparr>om_Finalizers := f (om_Finalizers (shim_meta s))\<rparr>\<rparr>"

locale kube_helpers =
  fixes K :: "'c kube"
  assumes IsNotFound_NotFound: "k_IsNotFound K ApiNotFound"
    and IsNotFound_Wrap: "k_IsNotFound K (Wrap m e) = k_IsNotFound K e"
    and IsNotFound_Msg: "\<not> k_IsNotFound K (Msg m)"
    and IgnoreNotFound_None: "k_IgnoreNotFound K None = None"
    and IgnoreNotFound_Some: "k_IgnoreNotFound K (Some e) = (if k_IsNotFound K e then None else Some e)"
    and ContainsFinalizer_iff: "k_ContainsFinalizer K s f \<longleftrightarrow> f \<in> set (om_Finalizers (shim_meta s))"
    and AddFinalizer_contains: "f \<in> set (om_Finalizers (shim_meta (k_AddFinalizer K s f)))"
    and AddFinalizer_only: "finalizers (\<lambda>_. om_Finalizers (shim_meta s)) (k_AddFinalizer K s f) = s"
    and RemoveFinalizer_gone: "f \<notin> set (om_Finalizers (shim_meta (k_RemoveFinalizer K s f)))"
    and RemoveFinalizer_only: "finalizers (\<lambda>_. om_Finalizers (shim_meta s)) (k_RemoveFinalizer K s f) = s"
    and GetNode_name: "k_GetNode K n c = (Inr nd, c') \<Longrightarrow> node_Name nd = nn_Name n"
    and GetShim_name: "k_GetShim K n c = (Inr s, c') \<Longrightarrow> shim_Name s = nn_Name n"
    and UpdateNode_same: "k_UpdateNode K nd c = (Inr nd', c')
      \<Longrightarrow> node_Name nd' = node_Name nd \<and> om_Labels (node_meta nd') = om_Labels (node_meta nd)"
    and UpdateShim_same: "k_UpdateShim K s c = (Inr s', c')
      \<Longrightarrow> shim_Name s' = shim_Name s \<and> om_Finalizers (shim_meta s') = om_Finalizers (shim_meta s)"
    and OwnJob_only: "k_OwnJob K s j = Inr j' \<Longrightarrow> \<exists>os. j' = j\<lparr>job_meta := (job_meta j)\<lparr>om_OwnerReferences := os\<rparr>\<rparr>"
    and OwnRuntimeClass_only:
      "k_OwnRuntimeClass K s r = Inr r' \<Longrightarrow> \<exists>os. r' = r\<lparr>rcl_meta := (rcl_meta r)\<lparr>om_OwnerReferences := os\<rparr>\<rparr>"

section \<open>Logging\<close>

text \<open>The calls, with their arguments and whether they succeeded; a listing of nodes and a read of a shim with its result.\<close>

datatype call =
    GotShim NamespacedName "Shim option"
  | GotNode NamespacedName bool
  | GotJob NamespacedName bool
  | GotRuntimeClass NamespacedName bool
  | ListedNodes "(string \<times> string) list" "Node list option"
  | ListedShims bool
  | UpdatedShim Shim bool
  | UpdatedNode Node bool
  | PatchedJob Job bool
  | PatchedRuntimeClass RuntimeClass bool

definition ok_sum :: "error + 'a \<Rightarrow> bool" where
  "ok_sum r = (case r of Inl _ \<Rightarrow> False | Inr _ \<Rightarrow> True)"

lemma ok_sum_simps [simp]: "ok_sum (Inl e) = False" "ok_sum (Inr x) = True"
  by (simp_all add: ok_sum_def)

definition log_sum :: "('c \<Rightarrow> (error + 'a) \<times> 'c) \<Rightarrow> (bool \<Rightarrow> call) \<Rightarrow> 'c \<times> call list \<Rightarrow> (error + 'a) \<times> 'c \<times> call list" where
  "log_sum f ev cl = (case cl of (c, l) \<Rightarrow> case f c of (r, c') \<Rightarrow> (r, (c', l @ [ev (ok_sum r)])))"

definition log_res :: "('c \<Rightarrow> (error + 'a) \<times> 'c) \<Rightarrow> ('a option \<Rightarrow> call) \<Rightarrow> 'c \<times> call list \<Rightarrow> (error + 'a) \<times> 'c \<times> call list" where
  "log_res f ev cl = (case cl of (c, l) \<Rightarrow> case f c of (r, c') \<Rightarrow>
     (r, (c', l @ [ev (case r of Inl _ \<Rightarrow> None | Inr x \<Rightarrow> Some x)])))"

definition log_opt :: "('c \<Rightarrow> error option \<times> 'c) \<Rightarrow> (bool \<Rightarrow> call) \<Rightarrow> 'c \<times> call list \<Rightarrow> error option \<times> 'c \<times> call list" where
  "log_opt f ev cl = (case cl of (c, l) \<Rightarrow> case f c of (r, c') \<Rightarrow> (r, (c', l @ [ev (r = None)])))"

definition logging :: "'c kube \<Rightarrow> ('c \<times> call list) kube" where
  "logging K =
     \<lparr>k_GetShim = (\<lambda>n. log_res (k_GetShim K n) (GotShim n)),
      k_GetNode = (\<lambda>n. log_sum (k_GetNode K n) (GotNode n)),
      k_GetJob = (\<lambda>n. log_sum (k_GetJob K n) (GotJob n)),
      k_GetRuntimeClass = (\<lambda>n. log_sum (k_GetRuntimeClass K n) (GotRuntimeClass n)),
      k_ListNodes = (\<lambda>sel. log_res (k_ListNodes K sel) (ListedNodes sel)),
      k_ListShims = log_sum (k_ListShims K) ListedShims,
      k_UpdateShim = (\<lambda>s. log_sum (k_UpdateShim K s) (UpdatedShim s)),
      k_UpdateNode = (\<lambda>n. log_sum (k_UpdateNode K n) (UpdatedNode n)),
      k_PatchJob = (\<lambda>j b. log_opt (k_PatchJob K j b) (PatchedJob j)),
      k_PatchRuntimeClass = (\<lambda>r b. log_opt (k_PatchRuntimeClass K r b) (PatchedRuntimeClass r)),
      k_MarshalJob = k_MarshalJob K, k_MarshalRuntimeClass = k_MarshalRuntimeClass K,
      k_OwnJob = k_OwnJob K, k_OwnRuntimeClass = k_OwnRuntimeClass K,
      k_IsNotFound = k_IsNotFound K, k_IgnoreNotFound = k_IgnoreNotFound K,
      k_ContainsFinalizer = k_ContainsFinalizer K, k_AddFinalizer = k_AddFinalizer K,
      k_RemoveFinalizer = k_RemoveFinalizer K\<rparr>"

lemma logging_sel [kube_simps]:
  "k_GetShim (logging K) n = log_res (k_GetShim K n) (GotShim n)"
  "k_GetNode (logging K) n = log_sum (k_GetNode K n) (GotNode n)"
  "k_GetJob (logging K) n = log_sum (k_GetJob K n) (GotJob n)"
  "k_GetRuntimeClass (logging K) n = log_sum (k_GetRuntimeClass K n) (GotRuntimeClass n)"
  "k_ListNodes (logging K) sel = log_res (k_ListNodes K sel) (ListedNodes sel)"
  "k_ListShims (logging K) = log_sum (k_ListShims K) ListedShims"
  "k_UpdateShim (logging K) s = log_sum (k_UpdateShim K s) (UpdatedShim s)"
  "k_UpdateNode (logging K) nd = log_sum (k_UpdateNode K nd) (UpdatedNode nd)"
  "k_PatchJob (logging K) j b = log_opt (k_PatchJob K j b) (PatchedJob j)"
  "k_PatchRuntimeClass (logging K) rc b = log_opt (k_PatchRuntimeClass K rc b) (PatchedRuntimeClass rc)"
  "k_MarshalJob (logging K) = k_MarshalJob K" "k_MarshalRuntimeClass (logging K) = k_MarshalRuntimeClass K"
  "k_OwnJob (logging K) = k_OwnJob K" "k_OwnRuntimeClass (logging K) = k_OwnRuntimeClass K"
  "k_IsNotFound (logging K) = k_IsNotFound K" "k_IgnoreNotFound (logging K) = k_IgnoreNotFound K"
  "k_ContainsFinalizer (logging K) = k_ContainsFinalizer K" "k_AddFinalizer (logging K) = k_AddFinalizer K"
  "k_RemoveFinalizer (logging K) = k_RemoveFinalizer K"
  by (simp_all add: logging_def)

lemma log_sum_eq [kube_simps]: "log_sum f ev (c, l) = (case f c of (r, c') \<Rightarrow> (r, (c', l @ [ev (ok_sum r)])))"
  by (simp add: log_sum_def)

lemma log_res_eq [kube_simps]:
  "log_res f ev (c, l) = (case f c of (r, c') \<Rightarrow> (r, (c', l @ [ev (case r of Inl _ \<Rightarrow> None | Inr x \<Rightarrow> Some x)])))"
  by (simp add: log_res_def)

lemma log_opt_eq [kube_simps]: "log_opt f ev (c, l) = (case f c of (r, c') \<Rightarrow> (r, (c', l @ [ev (r = None)])))"
  by (simp add: log_opt_def)

lemma kube_helpers_logging:
  assumes "kube_helpers K"
  shows "kube_helpers (logging K)"
proof -
  note K = kube_helpers.IsNotFound_NotFound [OF assms] kube_helpers.IsNotFound_Wrap [OF assms]
    kube_helpers.IsNotFound_Msg [OF assms] kube_helpers.IgnoreNotFound_None [OF assms]
    kube_helpers.IgnoreNotFound_Some [OF assms] kube_helpers.ContainsFinalizer_iff [OF assms]
    kube_helpers.AddFinalizer_contains [OF assms] kube_helpers.AddFinalizer_only [OF assms]
    kube_helpers.RemoveFinalizer_gone [OF assms] kube_helpers.RemoveFinalizer_only [OF assms]
  show ?thesis
  proof (unfold_locales, unfold kube_simps)
    fix n c nd c' assume "log_sum (k_GetNode K n) (GotNode n) c = (Inr nd, c')"
    then show "node_Name nd = nn_Name n"
      using kube_helpers.GetNode_name [OF assms] by (cases c) (auto simp: log_sum_def split: prod.splits)
  next
    fix nd c nd' c' assume "log_sum (k_UpdateNode K nd) (UpdatedNode nd) c = (Inr nd', c')"
    then show "node_Name nd' = node_Name nd \<and> om_Labels (node_meta nd') = om_Labels (node_meta nd)"
      using kube_helpers.UpdateNode_same [OF assms] by (cases c) (auto simp: log_sum_def split: prod.splits)
  next
    fix n c s c' assume "log_res (k_GetShim K n) (GotShim n) c = (Inr s, c')"
    then show "shim_Name s = nn_Name n"
      using kube_helpers.GetShim_name [OF assms] by (cases c) (auto simp: log_res_def split: prod.splits)
  next
    fix s c s' c' assume "log_sum (k_UpdateShim K s) (UpdatedShim s) c = (Inr s', c')"
    then show "shim_Name s' = shim_Name s \<and> om_Finalizers (shim_meta s') = om_Finalizers (shim_meta s)"
      using kube_helpers.UpdateShim_same [OF assms] by (cases c) (auto simp: log_sum_def split: prod.splits)
  qed (simp_all add: K kube_helpers.OwnJob_only [OF assms] kube_helpers.OwnRuntimeClass_only [OF assms])
qed

section \<open>An API server in memory\<close>

text \<open>
  Objects are kept by name. An update of an object that does not exist is a NotFound error, and a
  stale resource version is a conflict. A patch creates an object or replaces what it specifies: an
  existing job keeps its status, and a patch that changes its pod template is refused, since the
  template is immutable. \<open>srv_refused\<close> lists the names of the jobs whose creation is refused.
\<close>

record server =
  srv_shims :: "Shim list"
  srv_nodes :: "Node list"
  srv_jobs :: "Job list"
  srv_classes :: "RuntimeClass list"
  srv_refused :: "string list"

definition find_by :: "('a \<Rightarrow> string) \<Rightarrow> string \<Rightarrow> 'a list \<Rightarrow> error + 'a" where
  "find_by name n xs = (case find (\<lambda>x. name x = n) xs of None \<Rightarrow> Inl ApiNotFound | Some x \<Rightarrow> Inr x)"

definition put_by :: "('a \<Rightarrow> string) \<Rightarrow> 'a \<Rightarrow> 'a list \<Rightarrow> 'a list" where
  "put_by name x xs = map (\<lambda>y. if name y = name x then x else y) xs"

definition selects :: "(string \<times> string) list \<Rightarrow> Node \<Rightarrow> bool" where
  "selects sel n = list_all (\<lambda>(k, v). map_get (om_Labels (node_meta n)) k = Some v) sel"

definition bump :: "ObjectMeta \<Rightarrow> ObjectMeta" where
  "bump m = m\<lparr>om_ResourceVersion := Suc (om_ResourceVersion m)\<rparr>"

definition mem_UpdateShim :: "Shim \<Rightarrow> server \<Rightarrow> (error + Shim) \<times> server" where
  "mem_UpdateShim s c =
     (case find_by shim_Name (shim_Name s) (srv_shims c) of
        Inl e \<Rightarrow> (Inl e, c)
      | Inr old \<Rightarrow>
          if om_ResourceVersion (shim_meta old) \<noteq> om_ResourceVersion (shim_meta s) then (Inl (ApiError ''conflict''), c)
          else let s' = s\<lparr>shim_meta := bump (shim_meta s)\<rparr> in
            (Inr s', c\<lparr>srv_shims :=
              (if om_DeletionTimestamp (shim_meta s') \<noteq> None \<and> om_Finalizers (shim_meta s') = []
               then filter (\<lambda>x. shim_Name x \<noteq> shim_Name s) (srv_shims c)
               else put_by shim_Name s' (srv_shims c))\<rparr>))"

definition mem_UpdateNode :: "Node \<Rightarrow> server \<Rightarrow> (error + Node) \<times> server" where
  "mem_UpdateNode n c =
     (case find_by node_Name (node_Name n) (srv_nodes c) of
        Inl e \<Rightarrow> (Inl e, c)
      | Inr old \<Rightarrow>
          if om_ResourceVersion (node_meta old) \<noteq> om_ResourceVersion (node_meta n) then (Inl (ApiError ''conflict''), c)
          else let n' = n\<lparr>node_meta := bump (node_meta n)\<rparr> in
            (Inr n', c\<lparr>srv_nodes := put_by node_Name n' (srv_nodes c)\<rparr>))"

definition mem_PatchJob :: "Job \<Rightarrow> bytes \<Rightarrow> server \<Rightarrow> error option \<times> server" where
  "mem_PatchJob j b c =
     (if om_Name (job_meta j) \<in> set (srv_refused c) then (Some (ApiError ''refused''), c)
      else (case find_by (\<lambda>x. om_Name (job_meta x)) (om_Name (job_meta j)) (srv_jobs c) of
              Inl e \<Rightarrow> (None, c\<lparr>srv_jobs := j # srv_jobs c\<rparr>)
            | Inr old \<Rightarrow>
                if job_Pod old \<noteq> job_Pod j then (Some (ApiError ''field is immutable''), c)
                else (None, c\<lparr>srv_jobs := put_by (\<lambda>x. om_Name (job_meta x)) (j\<lparr>job_Conditions := job_Conditions old\<rparr>) (srv_jobs c)\<rparr>)))"

definition mem_PatchRuntimeClass :: "RuntimeClass \<Rightarrow> bytes \<Rightarrow> server \<Rightarrow> error option \<times> server" where
  "mem_PatchRuntimeClass r b c =
     (None, c\<lparr>srv_classes := r # filter (\<lambda>x. om_Name (rcl_meta x) \<noteq> om_Name (rcl_meta r)) (srv_classes c)\<rparr>)"

fun not_found :: "error \<Rightarrow> bool" where
  "not_found ApiNotFound = True"
| "not_found (Wrap _ e) = not_found e"
| "not_found (Joined es) = list_ex not_found es"
| "not_found _ = False"

definition mem_kube :: "server kube" where
  "mem_kube =
     \<lparr>k_GetShim = (\<lambda>n c. (find_by shim_Name (nn_Name n) (srv_shims c), c)),
      k_GetNode = (\<lambda>n c. (find_by node_Name (nn_Name n) (srv_nodes c), c)),
      k_GetJob = (\<lambda>n c. (find_by (\<lambda>j. om_Name (job_meta j)) (nn_Name n) (srv_jobs c), c)),
      k_GetRuntimeClass = (\<lambda>n c. (find_by (\<lambda>r. om_Name (rcl_meta r)) (nn_Name n) (srv_classes c), c)),
      k_ListNodes = (\<lambda>sel c. (Inr (filter (selects sel) (srv_nodes c)), c)),
      k_ListShims = (\<lambda>c. (Inr (srv_shims c), c)),
      k_UpdateShim = mem_UpdateShim, k_UpdateNode = mem_UpdateNode,
      k_PatchJob = mem_PatchJob, k_PatchRuntimeClass = mem_PatchRuntimeClass,
      k_MarshalJob = (\<lambda>j. Inr (om_Name (job_meta j))), k_MarshalRuntimeClass = (\<lambda>r. Inr (om_Name (rcl_meta r))),
      k_OwnJob = (\<lambda>s j. Inr (j\<lparr>job_meta := (job_meta j)\<lparr>om_OwnerReferences := [shim_Name s]\<rparr>\<rparr>)),
      k_OwnRuntimeClass = (\<lambda>s r. Inr (r\<lparr>rcl_meta := (rcl_meta r)\<lparr>om_OwnerReferences := [shim_Name s]\<rparr>\<rparr>)),
      k_IsNotFound = not_found,
      k_IgnoreNotFound = (\<lambda>e. case e of None \<Rightarrow> None | Some x \<Rightarrow> if not_found x then None else Some x),
      k_ContainsFinalizer = (\<lambda>s f. f \<in> set (om_Finalizers (shim_meta s))),
      k_AddFinalizer = (\<lambda>s f. finalizers (\<lambda>fs. if f \<in> set fs then fs else fs @ [f]) s),
      k_RemoveFinalizer = (\<lambda>s f. finalizers (removeAll f) s)\<rparr>"

interpretation mem_kube: kube_helpers mem_kube
  by unfold_locales
     (auto simp: mem_kube_def finalizers_def find_by_def find_Some_split mem_UpdateNode_def mem_UpdateShim_def bump_def Let_def
       split: option.splits sum.splits if_splits)

interpretation mem_kube_log: kube_helpers "logging mem_kube"
  by (rule kube_helpers_logging) (rule mem_kube.kube_helpers_axioms)

end
