(* ===== verification/Go_Strings.thy ===== *)
theory Go_Strings
  imports RCM_Prelude
begin

text \<open>
  The functions of Go's \<open>strings\<close> and \<open>unicode/utf8\<close> packages that the source
  calls, on byte strings, and their laws. \<open>EqualFold\<close> folds exactly when one of the two
  strings is ASCII; the source only compares with ASCII names (the operating systems and
  architectures of the CRD's enums, the field names of the lock file).
\<close>

section \<open>UTF-8\<close>

definition byte_in :: "nat \<Rightarrow> nat \<Rightarrow> char \<Rightarrow> bool" where
  "byte_in lo hi c = (lo \<le> (of_char c :: nat) \<and> (of_char c :: nat) \<le> hi)"

text \<open>
  The number of continuation bytes a leading byte announces, and the range its first
  continuation byte must lie in (the accept ranges of \<open>unicode/utf8\<close>).
\<close>

definition rune_tail :: "char \<Rightarrow> nat" where
  "rune_tail a =
     (if byte_in 194 223 a then 1 else if byte_in 224 239 a then 2
      else if byte_in 240 244 a then 3 else 0)"

definition rune_lo :: "char \<Rightarrow> nat" where
  "rune_lo a = (if a = CHR 0xE0 then 160 else if a = CHR 0xF0 then 144 else 128)"

definition rune_hi :: "char \<Rightarrow> nat" where
  "rune_hi a = (if a = CHR 0xED then 159 else if a = CHR 0xF4 then 143 else 191)"

text \<open>
  \<open>rune_len s\<close> is the length of the well-formed UTF-8 sequence at the start of \<open>s\<close>,
  and 0 where \<open>utf8.DecodeRune\<close> reports an error (or \<open>s\<close> is empty).
\<close>

fun rune_len :: "string \<Rightarrow> nat" where
  "rune_len [] = 0"
| "rune_len (a # s) =
     (if byte_in 0 127 a then 1
      else let n = rune_tail a; t = take n s in
        if n = 0 \<or> length t < n \<or> \<not> byte_in (rune_lo a) (rune_hi a) (hd t)
           \<or> \<not> list_all (byte_in 128 191) t
        then 0 else Suc n)"

lemma rune_len_le: "rune_len s \<le> length s"
  by (cases s) (auto simp: Let_def)

lemma rune_len_ascii: "byte_in 0 127 a \<Longrightarrow> rune_len (a # s) = 1"
  by simp

lemma rune_len_append: "rune_len s \<noteq> 0 \<Longrightarrow> rune_len (s @ t) = rune_len s"
  by (cases s) (auto simp: Let_def split: if_splits)

lemma rune_len_take: "rune_len (take (rune_len s) s) = rune_len s"
  by (cases s) (auto simp: Let_def min_def)

text \<open>
  The sequence of runes: an ill-formed byte is a rune of its own, as in a \<open>range\<close> loop.
\<close>

function runes :: "string \<Rightarrow> string list" where
  "runes s =
     (if s = [] then []
      else let n = max 1 (rune_len s) in take n s # runes (drop n s))"
  by pat_completeness auto
termination
  by (relation "measure length") auto

declare runes.simps [simp del]

text \<open>Well-formed UTF-8.\<close>

function valid_utf8 :: "string \<Rightarrow> bool" where
  "valid_utf8 s =
     (if s = [] then True
      else 0 < rune_len s \<and> valid_utf8 (drop (max 1 (rune_len s)) s))"
  by pat_completeness auto
termination
  by (relation "measure length") auto

declare valid_utf8.simps [simp del]

definition ascii :: "string \<Rightarrow> bool" where
  "ascii s = list_all (byte_in 0 127) s"

lemma ascii_simps [simp]:
  "ascii []" "ascii (c # s) \<longleftrightarrow> byte_in 0 127 c \<and> ascii s"
  "ascii (s @ t) \<longleftrightarrow> ascii s \<and> ascii t"
  by (simp_all add: ascii_def)

lemma ascii_valid_utf8: "ascii s \<Longrightarrow> valid_utf8 s"
proof (induction s)
  case Nil
  show ?case by (simp add: valid_utf8.simps)
next
  case (Cons c s)
  then have "rune_len (c # s) = 1" by simp
  with Cons show ?case by (subst valid_utf8.simps) simp
qed

section \<open>Searching and replacing\<close>

text \<open>\<open>strings.Contains\<close>\<close>

fun Contains :: "string \<Rightarrow> string \<Rightarrow> bool" where
  "Contains [] sub = (sub = [])"
| "Contains (c # s) sub = (prefix sub (c # s) \<or> Contains s sub)"

text \<open>
  \<open>strings.ReplaceAll\<close>: non-overlapping occurrences from the left; an empty pattern
  matches before every rune and at the end.
\<close>

function replace_from :: "string \<Rightarrow> string \<Rightarrow> string \<Rightarrow> string" where
  "replace_from s old new =
     (if s = [] then []
      else if old \<noteq> [] \<and> prefix old s then new @ replace_from (drop (length old) s) old new
      else hd s # replace_from (tl s) old new)"
  by pat_completeness auto
termination
  by (relation "measure (\<lambda>(s, old, new). length s)") auto

declare replace_from.simps [simp del]

definition ReplaceAll :: "string \<Rightarrow> string \<Rightarrow> string \<Rightarrow> string" where
  "ReplaceAll s old new =
     (if old = [] then new @ concat (map (\<lambda>r. r @ new) (runes s)) else replace_from s old new)"

text \<open>\<open>strings.TrimPrefix\<close> and \<open>strings.CutSuffix\<close>\<close>

definition TrimPrefix :: "string \<Rightarrow> string \<Rightarrow> string" where
  "TrimPrefix s p = (if prefix p s then drop (length p) s else s)"

definition CutSuffix :: "string \<Rightarrow> string \<Rightarrow> string \<times> bool" where
  "CutSuffix s p =
     (if suffix p s then (take (length s - length p) s, True) else (s, False))"

section \<open>Numerals\<close>

text \<open>Decimal digits, as the verb \<open>%d\<close> prints a number that is not negative.\<close>

definition digit :: "nat \<Rightarrow> char" where
  "digit n = char_of (48 + n)"

fun Itoa :: "nat \<Rightarrow> string" where
  "Itoa n = (if n < 10 then [digit n] else Itoa (n div 10) @ [digit (n mod 10)])"

declare Itoa.simps [simp del]

section \<open>Case folding\<close>

text \<open>
  Upper-casing of ASCII letters. Two runes outside ASCII fold to ASCII letters: U+017F (long
  s) and U+212A (the Kelvin sign).
\<close>

definition upper :: "char \<Rightarrow> char" where
  "upper c = (if byte_in 97 122 c then char_of ((of_char c :: nat) - 32) else c)"

fun fold_name :: "string \<Rightarrow> string" where
  "fold_name [] = []"
| "fold_name (a # s) =
     (if a = CHR 0xC5 \<and> prefix [CHR 0xBF] s then CHR ''S'' # fold_name (drop 1 s)
      else if a = CHR 0xE2 \<and> prefix [CHR 0x84, CHR 0xAA] s then CHR ''K'' # fold_name (drop 2 s)
      else upper a # fold_name s)"

definition EqualFold :: "string \<Rightarrow> string \<Rightarrow> bool" where
  "EqualFold s t = (fold_name s = fold_name t)"

section \<open>Laws\<close>

lemma Contains_iff: "Contains s sub \<longleftrightarrow> (\<exists>a b. s = a @ sub @ b)"
proof (induction s)
  case Nil
  show ?case by auto
next
  case (Cons c s)
  have "(\<exists>a b. c # s = a @ sub @ b) \<longleftrightarrow> (\<exists>b. c # s = sub @ b) \<or> (\<exists>a b. s = a @ sub @ b)"
    by (metis append_Cons append_Nil list.exhaust_sel list.inject)
  then show ?case using Cons by (simp add: prefix_def)
qed

lemma ContainsI: "Contains (a @ sub @ b) sub"
  by (auto simp: Contains_iff)

lemma Contains_append1: "Contains s sub \<Longrightarrow> Contains (s @ t) sub"
  by (metis Contains_iff append.assoc)

lemma Contains_append2: "Contains t sub \<Longrightarrow> Contains (s @ t) sub"
  by (metis Contains_iff append.assoc)

lemma Contains_trans: "Contains s t \<Longrightarrow> Contains t u \<Longrightarrow> Contains s u"
  by (metis Contains_iff append.assoc)

text \<open>
  A pattern that contains a character \<open>c\<close> only if it is entirely on one side: a pattern
  without \<open>c\<close> does not straddle a border marked by \<open>c\<close>.
\<close>

lemma Contains_border:
  assumes "c \<notin> set sub"
  shows "Contains (s @ c # t) sub \<longleftrightarrow> Contains s sub \<or> Contains t sub"
proof (induction s)
  case Nil
  have "prefix sub (c # t) \<longleftrightarrow> sub = []"
    using assms by (cases sub) auto
  then show ?case by (cases t) auto
next
  case (Cons d s)
  have "prefix sub (d # s @ c # t) \<longleftrightarrow> prefix sub (d # s)"
  proof
    assume "prefix sub (d # s @ c # t)"
    then obtain u where u: "(d # s) @ c # t = sub @ u" by (auto elim: prefixE)
    then consider v where "d # s = sub @ v" | v where "sub = (d # s) @ v" "c # t = v @ u"
      by (metis append_eq_append_conv2)
    then show "prefix sub (d # s)"
    proof cases
      case 1
      then show ?thesis by (auto simp: prefix_def)
    next
      case 2
      then have "v = []" using assms by (cases v) auto
      with 2 show ?thesis by simp
    qed
  next
    assume "prefix sub (d # s)"
    then show "prefix sub (d # s @ c # t)" by (metis append_Cons prefix_prefix)
  qed
  then show ?case using Cons by auto
qed

lemma replace_from_Nil [simp]: "replace_from [] old new = []"
  by (simp add: replace_from.simps)

lemma replace_from_hit:
  "old \<noteq> [] \<Longrightarrow> replace_from (old @ t) old new = new @ replace_from t old new"
  by (subst replace_from.simps) auto

lemma replace_from_miss:
  "\<not> prefix old (c # s) \<Longrightarrow> replace_from (c # s) old new = c # replace_from s old new"
  by (subst replace_from.simps) auto

text \<open>
  Where the pattern starts at no position of \<open>s\<close>, the scan copies \<open>s\<close>.
\<close>

lemma replace_from_skip:
  assumes "\<And>a b. s = a @ b \<Longrightarrow> b \<noteq> [] \<Longrightarrow> \<not> prefix old (b @ t)"
  shows "replace_from (s @ t) old new = s @ replace_from t old new"
  using assms
proof (induction s)
  case Nil
  show ?case by simp
next
  case (Cons c s)
  have "\<not> prefix old (c # s @ t)" using Cons.prems [of "[]" "c # s"] by simp
  moreover have "replace_from (s @ t) old new = s @ replace_from t old new"
  proof (rule Cons.IH)
    fix a b assume "s = a @ b" and "b \<noteq> []"
    then show "\<not> prefix old (b @ t)" using Cons.prems [of "c # a" b] by simp
  qed
  ultimately show ?case by (simp add: replace_from_miss)
qed

lemma ReplaceAll_absent:
  assumes "old \<noteq> []" and "\<not> Contains s old"
  shows "ReplaceAll s old new = s"
proof -
  have "replace_from (s @ []) old new = s @ replace_from [] old new"
  proof (rule replace_from_skip)
    fix a b assume "s = a @ b"
    with assms show "\<not> prefix old (b @ [])" by (auto simp: Contains_iff prefix_def)
  qed
  with assms show ?thesis by (simp add: ReplaceAll_def)
qed

lemma TrimPrefix_append [simp]: "TrimPrefix (p @ s) p = s"
  by (simp add: TrimPrefix_def)

lemma EqualFold_refl [simp]: "EqualFold s s"
  by (simp add: EqualFold_def)

lemma EqualFold_sym: "EqualFold s t \<Longrightarrow> EqualFold t s"
  by (simp add: EqualFold_def)

lemma EqualFold_trans: "EqualFold s t \<Longrightarrow> EqualFold t u \<Longrightarrow> EqualFold s u"
  by (simp add: EqualFold_def)

end
