(* ===== verification/Go_Json.thy ===== *)
theory Go_Json
  imports Go_Strings
begin

text \<open>
  Go's \<open>encoding/json\<close> and \<open>encoding/hex\<close> as far as the source uses them. Values are
  trees (\<open>json\<close>); \<open>json_print\<close> is the encoder, compact (\<open>json.Marshal\<close>) or indented
  (\<open>json.MarshalIndent\<close>); \<open>json_parse\<close> is the scanner and decoder behind
  \<open>json.Unmarshal\<close>: white space, escapes, surrogate pairs, the replacement of ill-formed
  UTF-8, numbers, and the limit of 10000 nested values. The parser recurses with a fuel that
  the length of its input bounds (\<open>parse_fuel_enough\<close>). The main result is the round trip
  \<open>json_parse (json_print v) = Some v\<close> for values with well-formed strings.
\<close>

section \<open>Values\<close>

datatype json =
    JNull
  | JBool bool
  | JNum string
  | JStr string
  | JArr "json list"
  | JObj "(string \<times> json) list"

abbreviation dquote :: char where "dquote \<equiv> CHR 0x22"
abbreviation bslash :: char where "bslash \<equiv> CHR 0x5C"

section \<open>Encoding\<close>

definition hex_digit :: "nat \<Rightarrow> char" where
  "hex_digit n = (if n < 10 then char_of (48 + n) else char_of (87 + n))"

text \<open>
  One ASCII byte of a string: quotes and backslashes are escaped, control characters are
  escaped by name or as \<open>\u00XX\<close>, and so are \<open><\<close>, \<open>>\<close> and \<open>&\<close>.
\<close>

definition quote_byte :: "char \<Rightarrow> string" where
  "quote_byte c =
     (if c = dquote \<or> c = bslash then [bslash, c]
      else if c = CHR 0x08 then [bslash, CHR ''b'']
      else if c = CHR 0x0C then [bslash, CHR ''f'']
      else if c = CHR 0x0A then [bslash, CHR ''n'']
      else if c = CHR 0x0D then [bslash, CHR ''r'']
      else if c = CHR 0x09 then [bslash, CHR ''t'']
      else if byte_in 0 31 c \<or> c = CHR ''<'' \<or> c = CHR ''>'' \<or> c = CHR ''&''
        then bslash # ''u00'' @ [hex_digit (of_char c div 16), hex_digit (of_char c mod 16)]
      else [c])"

text \<open>
  A string: an ill-formed byte becomes \<open>\ufffd\<close>, and U+2028 and U+2029 are escaped.
\<close>

function quote_body :: "string \<Rightarrow> string" where
  "quote_body s =
     (if s = [] then []
      else let n = rune_len s; r = take n s in
        if n = 0 then bslash # ''ufffd'' @ quote_body (drop 1 s)
        else if n = 1 then quote_byte (hd s) @ quote_body (drop 1 s)
        else if r = [CHR 0xE2, CHR 0x80, CHR 0xA8] then bslash # ''u2028'' @ quote_body (drop (max 1 n) s)
        else if r = [CHR 0xE2, CHR 0x80, CHR 0xA9] then bslash # ''u2029'' @ quote_body (drop (max 1 n) s)
        else r @ quote_body (drop (max 1 n) s))"
  by pat_completeness auto
termination
  by (relation "measure length") auto

declare quote_body.simps [simp del]

definition quote :: "string \<Rightarrow> string" where
  "quote s = dquote # quote_body s @ [dquote]"

text \<open>
  A layout is the white space before a member at a given depth and the one after a colon.
  \<open>json.Marshal\<close> emits none; \<open>json.MarshalIndent(v, "", " ")\<close> puts every member on a
  line of its own, indented by its depth, and a space after the colon.
\<close>

record layout =
  brk :: "nat \<Rightarrow> string"
  gap :: string

definition compact :: layout where
  "compact = \<lparr>brk = (\<lambda>_. []), gap = []\<rparr>"

definition indented :: layout where
  "indented = \<lparr>brk = (\<lambda>d. CHR 0x0A # replicate d (CHR 0x20)), gap = [CHR 0x20]\<rparr>"

fun json_print :: "layout \<Rightarrow> nat \<Rightarrow> json \<Rightarrow> string"
  and print_members :: "layout \<Rightarrow> nat \<Rightarrow> (string \<times> json) list \<Rightarrow> string"
  and print_elems :: "layout \<Rightarrow> nat \<Rightarrow> json list \<Rightarrow> string" where
  "json_print l d JNull = ''null''"
| "json_print l d (JBool b) = (if b then ''true'' else ''false'')"
| "json_print l d (JNum n) = n"
| "json_print l d (JStr s) = quote s"
| "json_print l d (JArr []) = ''[]''"
| "json_print l d (JArr (v # vs)) = CHR 0x5B # print_elems l (Suc d) (v # vs) @ brk l d @ [CHR 0x5D]"
| "json_print l d (JObj []) = ''{}''"
| "json_print l d (JObj (m # ms)) = CHR 0x7B # print_members l (Suc d) (m # ms) @ brk l d @ [CHR 0x7D]"
| "print_members l d [] = []"
| "print_members l d ((k, v) # ms) =
     brk l d @ quote k @ CHR 0x3A # gap l @ json_print l d v
     @ (if ms = [] then [] else CHR 0x2C # print_members l d ms)"
| "print_elems l d [] = []"
| "print_elems l d (v # vs) =
     brk l d @ json_print l d v @ (if vs = [] then [] else CHR 0x2C # print_elems l d vs)"

section \<open>Decoding\<close>

definition is_ws :: "char \<Rightarrow> bool" where
  "is_ws c \<longleftrightarrow> c = CHR 0x20 \<or> c = CHR 0x09 \<or> c = CHR 0x0A \<or> c = CHR 0x0D"

definition skip_ws :: "string \<Rightarrow> string" where
  "skip_ws s = dropWhile is_ws s"

definition hex_val :: "char \<Rightarrow> nat option" where
  "hex_val c =
     (if byte_in 48 57 c then Some (of_char c - 48)
      else if byte_in 97 102 c then Some (of_char c - 87)
      else if byte_in 65 70 c then Some (of_char c - 55)
      else None)"

text \<open>Four hexadecimal digits (\<open>getu4\<close>).\<close>

fun hex4 :: "string \<Rightarrow> (nat \<times> string) option" where
  "hex4 (a # b # c # d # s) =
     (case (hex_val a, hex_val b, hex_val c, hex_val d) of
        (Some w, Some x, Some y, Some z) \<Rightarrow> Some (((w * 16 + x) * 16 + y) * 16 + z, s)
      | _ \<Rightarrow> None)"
| "hex4 _ = None"

text \<open>\<open>utf8.EncodeRune\<close>\<close>

definition encode_rune :: "nat \<Rightarrow> string" where
  "encode_rune r =
     (if r < 128 then [char_of r]
      else if r < 2048 then [char_of (192 + r div 64), char_of (128 + r mod 64)]
      else if (55296 \<le> r \<and> r < 57344) \<or> 1114111 < r then [CHR 0xEF, CHR 0xBF, CHR 0xBD]
      else if r < 65536 then
        [char_of (224 + r div 4096), char_of (128 + r div 64 mod 64), char_of (128 + r mod 64)]
      else
        [char_of (240 + r div 262144), char_of (128 + r div 4096 mod 64),
         char_of (128 + r div 64 mod 64), char_of (128 + r mod 64)])"

text \<open>
  A \<open>\u\<close> escape, read after the \<open>u\<close>: a surrogate pair is one rune, an unpaired
  surrogate is the replacement character and leaves what follows to be read again.
\<close>

definition unicode_escape :: "string \<Rightarrow> (string \<times> string) option" where
  "unicode_escape s =
     (case hex4 s of
        None \<Rightarrow> None
      | Some (r, t) \<Rightarrow>
          if 55296 \<le> r \<and> r < 57344 then
            (case (if prefix [bslash, CHR ''u''] t then hex4 (drop 2 t) else None) of
               Some (r2, t2) \<Rightarrow>
                 if r < 56320 \<and> 56320 \<le> r2 \<and> r2 < 57344
                 then Some (encode_rune ((r - 55296) * 1024 + (r2 - 56320) + 65536), t2)
                 else Some (encode_rune 65533, t)
             | None \<Rightarrow> Some (encode_rune 65533, t))
          else Some (encode_rune r, t))"

definition simple_escape :: "char \<Rightarrow> char option" where
  "simple_escape c =
     (if c = dquote \<or> c = bslash \<or> c = CHR 0x2F then Some c
      else if c = CHR ''b'' then Some (CHR 0x08)
      else if c = CHR ''f'' then Some (CHR 0x0C)
      else if c = CHR ''n'' then Some (CHR 0x0A)
      else if c = CHR ''r'' then Some (CHR 0x0D)
      else if c = CHR ''t'' then Some (CHR 0x09)
      else None)"

lemma hex4_shorter: "hex4 s = Some (r, t) \<Longrightarrow> length t < length s"
  by (induction s rule: hex4.induct) (auto split: option.splits prod.splits)

lemma unicode_escape_shorter: "unicode_escape s = Some (u, t) \<Longrightarrow> length t < length s"
  by (auto simp: unicode_escape_def dest!: hex4_shorter split: option.splits prod.splits if_splits)

text \<open>A string literal, read after its opening quote.\<close>

function parse_str :: "string \<Rightarrow> (string \<times> string) option" where
  "parse_str s =
     (case s of
        [] \<Rightarrow> None
      | c # t \<Rightarrow>
          if c = dquote then Some ([], t)
          else if c = bslash then
            (case t of
               [] \<Rightarrow> None
             | e # u \<Rightarrow>
                 if e = CHR ''u'' then
                   (case unicode_escape u of
                      None \<Rightarrow> None
                    | Some (r, v) \<Rightarrow> map_option (apfst (append r)) (parse_str v))
                 else
                   (case simple_escape e of
                      None \<Rightarrow> None
                    | Some r \<Rightarrow> map_option (apfst (Cons r)) (parse_str u)))
          else if byte_in 0 31 c then None
          else if rune_len s = 0 then
            map_option (apfst (append (encode_rune 65533))) (parse_str t)
          else map_option (apfst (append (take (rune_len s) s))) (parse_str (drop (max 1 (rune_len s)) s)))"
  by pat_completeness auto
termination
  by (relation "measure length") (auto dest: unicode_escape_shorter)

declare parse_str.simps [simp del]

text \<open>Numbers, kept as text: the source decodes no number.\<close>

definition is_digit :: "char \<Rightarrow> bool" where
  "is_digit c = byte_in 48 57 c"

definition digits1 :: "string \<Rightarrow> (string \<times> string) option" where
  "digits1 s =
     (let a = takeWhile is_digit s in if a = [] then None else Some (a, dropWhile is_digit s))"

definition int_part :: "string \<Rightarrow> (string \<times> string) option" where
  "int_part s =
     (case s of
        [] \<Rightarrow> None
      | c # t \<Rightarrow> if c = CHR ''0'' then Some ([c], t) else digits1 s)"

definition frac_part :: "string \<Rightarrow> (string \<times> string) option" where
  "frac_part s =
     (case s of
        [] \<Rightarrow> Some ([], s)
      | c # t \<Rightarrow> if c = CHR ''.'' then map_option (apfst (Cons c)) (digits1 t) else Some ([], s))"

definition exp_part :: "string \<Rightarrow> (string \<times> string) option" where
  "exp_part s =
     (case s of
        [] \<Rightarrow> Some ([], s)
      | c # t \<Rightarrow>
          if c = CHR ''e'' \<or> c = CHR ''E'' then
            (case t of
               [] \<Rightarrow> None
             | d # u \<Rightarrow>
                 if d = CHR ''+'' \<or> d = CHR ''-''
                 then map_option (apfst (\<lambda>x. c # d # x)) (digits1 u)
                 else map_option (apfst (Cons c)) (digits1 t))
          else Some ([], s))"

definition parse_number :: "string \<Rightarrow> (string \<times> string) option" where
  "parse_number s =
     (let (sign, s1) = (case s of [] \<Rightarrow> ([], s) | c # t \<Rightarrow> if c = CHR ''-'' then ([c], t) else ([], s)) in
      case int_part s1 of
        None \<Rightarrow> None
      | Some (i, s2) \<Rightarrow>
          (case frac_part s2 of
             None \<Rightarrow> None
           | Some (f, s3) \<Rightarrow>
               (case exp_part s3 of
                  None \<Rightarrow> None
                | Some (e, s4) \<Rightarrow> Some (sign @ i @ f @ e, s4))))"

definition max_depth :: nat where
  "max_depth = 10000"

fun parse_value :: "nat \<Rightarrow> nat \<Rightarrow> string \<Rightarrow> (json \<times> string) option"
  and parse_members :: "nat \<Rightarrow> nat \<Rightarrow> string \<Rightarrow> ((string \<times> json) list \<times> string) option"
  and parse_elems :: "nat \<Rightarrow> nat \<Rightarrow> string \<Rightarrow> (json list \<times> string) option" where
  "parse_value 0 d s = None"
| "parse_value (Suc n) d s =
     (case skip_ws s of
        [] \<Rightarrow> None
      | c # t \<Rightarrow>
          if c = dquote then map_option (apfst JStr) (parse_str t)
          else if c = CHR 0x7B then
            (if max_depth \<le> d then None
             else if prefix [CHR 0x7D] (skip_ws t) then Some (JObj [], tl (skip_ws t))
             else map_option (apfst JObj) (parse_members n (Suc d) t))
          else if c = CHR 0x5B then
            (if max_depth \<le> d then None
             else if prefix [CHR 0x5D] (skip_ws t) then Some (JArr [], tl (skip_ws t))
             else map_option (apfst JArr) (parse_elems n (Suc d) t))
          else if prefix ''null'' (c # t) then Some (JNull, drop 4 (c # t))
          else if prefix ''true'' (c # t) then Some (JBool True, drop 4 (c # t))
          else if prefix ''false'' (c # t) then Some (JBool False, drop 5 (c # t))
          else map_option (apfst JNum) (parse_number (c # t)))"
| "parse_members 0 d s = None"
| "parse_members (Suc n) d s =
     (case skip_ws s of
        [] \<Rightarrow> None
      | c # t \<Rightarrow>
          if c \<noteq> dquote then None
          else (case parse_str t of
             None \<Rightarrow> None
           | Some (k, r) \<Rightarrow>
               if \<not> prefix [CHR 0x3A] (skip_ws r) then None
               else (case parse_value n d (tl (skip_ws r)) of
                  None \<Rightarrow> None
                | Some (v, r2) \<Rightarrow>
                    if prefix [CHR 0x7D] (skip_ws r2) then Some ([(k, v)], tl (skip_ws r2))
                    else if prefix [CHR 0x2C] (skip_ws r2)
                    then map_option (apfst (Cons (k, v))) (parse_members n d (tl (skip_ws r2)))
                    else None)))"
| "parse_elems 0 d s = None"
| "parse_elems (Suc n) d s =
     (case parse_value n d s of
        None \<Rightarrow> None
      | Some (v, r) \<Rightarrow>
          if prefix [CHR 0x5D] (skip_ws r) then Some ([v], tl (skip_ws r))
          else if prefix [CHR 0x2C] (skip_ws r)
          then map_option (apfst (Cons v)) (parse_elems n d (tl (skip_ws r)))
          else None)"

text \<open>
  \<open>parse_elems\<close> hands its whole input to \<open>parse_value\<close>, so a unit of input pays for at
  most two calls.
\<close>

definition json_parse :: "string \<Rightarrow> json option" where
  "json_parse s =
     (case parse_value (2 * length s + 2) 0 s of
        None \<Rightarrow> None
      | Some (v, r) \<Rightarrow> if skip_ws r = [] then Some v else None)"

section \<open>Hexadecimal\<close>

text \<open>\<open>hex.EncodeToString\<close> and \<open>hex.DecodeString\<close>\<close>

fun hex_encode :: "bytes \<Rightarrow> string" where
  "hex_encode [] = []"
| "hex_encode (c # s) =
     hex_digit (of_char c div 16) # hex_digit (of_char c mod 16) # hex_encode s"

fun hex_decode :: "string \<Rightarrow> error + bytes" where
  "hex_decode [] = Inr []"
| "hex_decode [a] = Inl HexError"
| "hex_decode (a # b # s) =
     (case (hex_val a, hex_val b) of
        (Some x, Some y) \<Rightarrow>
          (case hex_decode s of Inl e \<Rightarrow> Inl e | Inr t \<Rightarrow> Inr (char_of (16 * x + y) # t))
      | _ \<Rightarrow> Inl HexError)"

section \<open>Round trips\<close>

lemma hex_val_hex_digit [simp]: "n < 16 \<Longrightarrow> hex_val (hex_digit n) = Some n"
  by (auto simp: hex_val_def hex_digit_def byte_in_def)

lemma of_char_less: "(of_char c :: nat) < 256"
  using range_nat_of_char by auto

lemma of_char_div16: "(of_char c :: nat) div 16 < 16"
  by (rule less_mult_imp_div_less) (simp add: of_char_less)

lemma hex_decode_encode: "hex_decode (hex_encode s) = Inr s"
proof (induction s)
  case (Cons c s)
  with of_char_div16 [of c] show ?case by simp
qed simp

lemma hex4_u00:
  assumes "(of_char c :: nat) < 128"
  shows "unicode_escape (CHR ''0'' # CHR ''0'' # hex_digit (of_char c div 16) # hex_digit (of_char c mod 16) # s)
    = Some ([c], s)"
proof -
  have "hex_val CHR ''0'' = Some 0" by (simp add: hex_val_def byte_in_def)
  then show ?thesis using assms of_char_div16 [of c]
    by (simp add: unicode_escape_def encode_rune_def mult_div_mod_eq mult.commute)
qed

lemma quote_byte_cases:
  "(\<exists>e. quote_byte c = [bslash, e] \<and> simple_escape e = Some c \<and> e \<noteq> CHR ''u'')
   \<or> quote_byte c = bslash # ''u00'' @ [hex_digit (of_char c div 16), hex_digit (of_char c mod 16)]
   \<or> (quote_byte c = [c] \<and> c \<noteq> dquote \<and> c \<noteq> bslash \<and> \<not> byte_in 0 31 c)"
proof (cases "c \<in> {dquote, bslash, CHR 0x08, CHR 0x0C, CHR 0x0A, CHR 0x0D, CHR 0x09}")
  case True
  then show ?thesis
    by (intro disjI1) (elim insertE; simp add: quote_byte_def simple_escape_def)
next
  case False
  then show ?thesis
    by (cases "byte_in 0 31 c \<or> c = CHR ''<'' \<or> c = CHR ''>'' \<or> c = CHR ''&''") (simp_all add: quote_byte_def)
qed

lemma parse_str_quote_byte:
  assumes "byte_in 0 127 c"
  shows "parse_str (quote_byte c @ s) = map_option (apfst (Cons c)) (parse_str s)"
proof -
  have lt: "(of_char c :: nat) < 128" using assms by (simp add: byte_in_def)
  consider (simple) e where "quote_byte c = [bslash, e]" "simple_escape e = Some c" "e \<noteq> CHR ''u''"
    | (hex) "quote_byte c = bslash # ''u00'' @ [hex_digit (of_char c div 16), hex_digit (of_char c mod 16)]"
    | (plain) "quote_byte c = [c]" "c \<noteq> dquote" "c \<noteq> bslash" "\<not> byte_in 0 31 c"
    using quote_byte_cases [of c] by blast
  then show ?thesis
  proof cases
    case simple
    then show ?thesis by (subst parse_str.simps) simp
  next
    case hex
    then show ?thesis using hex4_u00 [OF lt]
      by (subst parse_str.simps) (simp add: apfst_def map_prod_def comp_def)
  next
    case plain
    then show ?thesis using assms by (subst parse_str.simps) (simp add: apfst_def map_prod_def)
  qed
qed

text \<open>A rune of several bytes is copied by the encoder and by the decoder.\<close>

lemma rune_head:
  assumes "1 < rune_len s"
  shows "\<not> byte_in 0 127 (hd s)"
  using assms by (cases s) auto

lemma parse_str_rune:
  assumes "1 < rune_len s"
  shows "parse_str (take (rune_len s) s @ t)
    = map_option (apfst (append (take (rune_len s) s))) (parse_str t)"
proof -
  define r where "r = take (rune_len s) s"
  have len: "rune_len r = rune_len s" "length r = rune_len s"
    using rune_len_le [of s] by (simp_all add: r_def rune_len_take)
  then obtain c u where r: "r = c # u" using assms by (cases r) auto
  have hi: "\<not> byte_in 0 127 c" using rune_head [of r] assms len r by simp
  then have c: "c \<noteq> dquote" "c \<noteq> bslash" "\<not> byte_in 0 31 c" by (auto simp: byte_in_def)
  have "rune_len (r @ t) = length r" using len assms by (simp add: rune_len_append)
  then have "parse_str (r @ t) = map_option (apfst (append r)) (parse_str t)"
    using c by (subst parse_str.simps) (simp del: rune_len.simps add: r)
  then show ?thesis by (simp add: r_def)
qed

lemma encode_rune_2028:
  "encode_rune 8232 = [CHR 0xE2, CHR 0x80, CHR 0xA8]"
  "encode_rune 8233 = [CHR 0xE2, CHR 0x80, CHR 0xA9]"
  by (simp_all add: encode_rune_def char_of_def bit_Suc_0_iff)

lemma parse_str_2028:
  "parse_str (bslash # ''u2028'' @ t) = map_option (apfst (append [CHR 0xE2, CHR 0x80, CHR 0xA8])) (parse_str t)"
  "parse_str (bslash # ''u2029'' @ t) = map_option (apfst (append [CHR 0xE2, CHR 0x80, CHR 0xA9])) (parse_str t)"
  by (subst parse_str.simps,
      simp add: unicode_escape_def hex_val_def byte_in_def encode_rune_2028)+

lemma rune_one: "rune_len s = 1 \<Longrightarrow> byte_in 0 127 (hd s)"
  by (cases s) (auto simp: Let_def split: if_splits)

lemma parse_quote_body:
  "valid_utf8 s \<Longrightarrow> parse_str (quote_body s @ dquote # t) = Some (s, t)"
proof (induction s rule: valid_utf8.induct)
  case (1 s)
  show ?case
  proof (cases "s = []")
    case True
    then show ?thesis by (simp add: quote_body.simps parse_str.simps)
  next
    case False
    define n where "n = rune_len s"
    have "if s = [] then True else 0 < n \<and> valid_utf8 (drop (max 1 n) s)"
      using "1.prems" unfolding n_def by (rule valid_utf8.simps [THEN iffD1])
    with False have n: "0 < n" and m: "max 1 n = n" and v: "valid_utf8 (drop (max 1 n) s)" by auto
    have IH: "parse_str (quote_body (drop n s) @ dquote # t) = Some (drop n s, t)"
      using "1.IH" [folded n_def, OF False v] by (simp only: m)
    have split: "take n s @ drop n s = s" by simp
    show ?thesis
    proof (cases "n = 1")
      case True
      then have "byte_in 0 127 (hd s)" by (simp add: n_def rune_one)
      moreover have "quote_body s = quote_byte (hd s) @ quote_body (drop n s)"
        using False True by (simp add: quote_body.simps [of s] n_def [symmetric])
      ultimately show ?thesis using IH False True by (simp add: parse_str_quote_byte drop_Suc)
    next
      case False
      with n have n1: "1 < rune_len s" by (simp add: n_def)
      have "parse_str (quote_body s @ dquote # t)
        = map_option (apfst (append (take n s))) (parse_str (quote_body (drop n s) @ dquote # t))"
        using \<open>s \<noteq> []\<close> False n n1 parse_str_rune [OF n1] parse_str_2028
        by (simp add: quote_body.simps [of s] Let_def n_def [symmetric] max_def)
      with IH show ?thesis by simp
    qed
  qed
qed

section \<open>White space\<close>

lemma skip_ws_append: "list_all is_ws w \<Longrightarrow> skip_ws (w @ s) = skip_ws s"
  by (induction w) (auto simp: skip_ws_def)

lemma skip_ws_nonws [simp]: "\<not> is_ws c \<Longrightarrow> skip_ws (c # s) = c # s"
  by (simp add: skip_ws_def)

lemma skip_ws_length: "length (skip_ws s) \<le> length s"
  by (simp add: skip_ws_def length_dropWhile_le)

lemma ws_simps [simp]:
  "\<not> is_ws dquote" "\<not> is_ws CHR 0x7B" "\<not> is_ws CHR 0x7D" "\<not> is_ws CHR 0x5B" "\<not> is_ws CHR 0x5D"
  "\<not> is_ws CHR 0x3A" "\<not> is_ws CHR 0x2C"
  by (simp_all add: is_ws_def)

section \<open>Printing and parsing\<close>

definition blank_layout :: "layout \<Rightarrow> bool" where
  "blank_layout l \<longleftrightarrow> (\<forall>d. list_all is_ws (brk l d)) \<and> list_all is_ws (gap l)"

lemma blank_compact: "blank_layout compact" and blank_indented: "blank_layout indented"
  by (simp_all add: blank_layout_def compact_def indented_def is_ws_def list_all_iff)

text \<open>Values without numbers and with well-formed strings, and their nesting depth.\<close>

fun encodable :: "json \<Rightarrow> bool" where
  "encodable (JNum n) = False"
| "encodable (JStr s) = valid_utf8 s"
| "encodable (JArr vs) = list_all encodable vs"
| "encodable (JObj ms) = list_all (\<lambda>(k, v). valid_utf8 k \<and> encodable v) ms"
| "encodable _ = True"

fun depth :: "json \<Rightarrow> nat" where
  "depth (JArr vs) = Suc (fold max (map depth vs) 0)"
| "depth (JObj ms) = Suc (fold max (map (\<lambda>(k, v). depth v) ms) 0)"
| "depth _ = 0"

lemma print_head:
  "encodable v \<Longrightarrow> \<exists>c t. json_print l d v = c # t \<and> \<not> is_ws c \<and> c \<noteq> CHR 0x7D \<and> c \<noteq> CHR 0x5D"
  by (cases "(l, d, v)" rule: json_print.cases) (auto simp: quote_def is_ws_def)

lemma fold_max_ge: "a \<le> fold max xs a" and fold_max_mem: "x \<in> set xs \<Longrightarrow> x \<le> fold max xs (a::nat)"
proof (induction xs arbitrary: a)
  case Nil
  case 1 show ?case by simp
  case 2 then show ?case by simp
next
  case (Cons y xs)
  case 1
  have "max y a \<le> fold max xs (max y a)" by (rule Cons.IH)
  then show ?case by simp
  case 2
  have "max y a \<le> fold max xs (max y a)" by (rule Cons.IH)
  with 2 Cons.IH(2) [of "max y a"] show ?case by auto
qed

lemma depth_elem: "v \<in> set vs \<Longrightarrow> depth v < depth (JArr vs)"
  using fold_max_mem [of "depth v" "map depth vs" 0] by (simp add: less_Suc_eq_le)

lemma depth_member: "(k, v) \<in> set ms \<Longrightarrow> depth v < depth (JObj ms)"
  using fold_max_mem [of "depth v" "map (\<lambda>(k, v). depth v) ms" 0] by (force simp: less_Suc_eq_le)

lemma parse_value_ws: "list_all is_ws w \<Longrightarrow> parse_value n e (w @ s) = parse_value n e s"
  by (cases n) (simp_all add: skip_ws_append)

lemma parse_print_mutual:
  "blank_layout l \<Longrightarrow> encodable v \<Longrightarrow> e + depth v \<le> max_depth
     \<Longrightarrow> 2 * length (json_print l d v) < n
     \<Longrightarrow> parse_value n e (json_print l d v @ t) = Some (v, t)"
  "blank_layout l \<Longrightarrow> ms \<noteq> []
     \<Longrightarrow> \<forall>(k, v) \<in> set ms. valid_utf8 k \<and> encodable v \<and> e + depth v \<le> max_depth
     \<Longrightarrow> list_all is_ws w \<Longrightarrow> 2 * length (print_members l d ms) < n
     \<Longrightarrow> parse_members n e (print_members l d ms @ w @ CHR 0x7D # t) = Some (ms, t)"
  "blank_layout l \<Longrightarrow> vs \<noteq> []
     \<Longrightarrow> \<forall>v \<in> set vs. encodable v \<and> e + depth v \<le> max_depth
     \<Longrightarrow> list_all is_ws w \<Longrightarrow> Suc (2 * length (print_elems l d vs)) < n
     \<Longrightarrow> parse_elems n e (print_elems l d vs @ w @ CHR 0x5D # t) = Some (vs, t)"
proof (induction l d v and l d ms and l d vs arbitrary: n e t and n e t w and n e t w
    rule: json_print_print_members_print_elems.induct)
  case (1 l d)
  then show ?case by (cases n) (auto simp: is_ws_def)
next
  case (2 l d b)
  then show ?case by (cases n) (auto simp: is_ws_def)
next
  case (3 l d num)
  then show ?case by simp
next
  case (4 l d s)
  then show ?case by (cases n) (auto simp: quote_def parse_quote_body)
next
  case (5 l d)
  then show ?case by (cases n) auto
next
  case (6 l d v vs)
  obtain m where n: "n = Suc m" using 6 by (cases n) auto
  have ok: "\<forall>u \<in> set (v # vs). encodable u \<and> Suc e + depth u \<le> max_depth"
  proof
    fix u assume u: "u \<in> set (v # vs)"
    have "encodable u" using u "6.prems"(2) by (auto simp: list_all_iff)
    moreover have "Suc e + depth u \<le> max_depth" using depth_elem [OF u] "6.prems"(3) by linarith
    ultimately show "encodable u \<and> Suc e + depth u \<le> max_depth" ..
  qed
  have w: "list_all is_ws (brk l d)" using 6 by (simp add: blank_layout_def)
  obtain c r where h: "json_print l (Suc d) v = c # r" "\<not> is_ws c" "c \<noteq> CHR 0x5D"
    using print_head [of v l "Suc d"] ok by auto
  have nx: "skip_ws (print_elems l (Suc d) (v # vs) @ x) = c # r @ (if vs = [] then [] else CHR 0x2C # print_elems l (Suc d) vs) @ x" for x
    using 6 h by (simp add: skip_ws_append blank_layout_def)
  have "parse_elems m (Suc e) (print_elems l (Suc d) (v # vs) @ brk l d @ CHR 0x5D # t) = Some (v # vs, t)"
    using 6 ok w n by (intro "6.IH") auto
  then show ?case using 6 n nx h by (simp del: print_elems.simps parse_elems.simps)
next
  case (7 l d)
  then show ?case by (cases n) auto
next
  case (8 l d a ms)
  obtain k v where a: "a = (k, v)" by (cases a)
  obtain m where n: "n = Suc m" using 8 by (cases n) auto
  have ok: "\<forall>(k, v) \<in> set (a # ms). valid_utf8 k \<and> encodable v \<and> Suc e + depth v \<le> max_depth"
  proof (rule ballI, rule case_prodI2)
    fix u k v assume u: "u \<in> set (a # ms)" "u = (k, v)"
    have "valid_utf8 k \<and> encodable v" using u "8.prems"(2) by (auto simp: list_all_iff)
    moreover have "depth v < depth (JObj (a # ms))" using u by (intro depth_member) simp
    then have "Suc e + depth v \<le> max_depth" using "8.prems"(3) by linarith
    ultimately show "valid_utf8 k \<and> encodable v \<and> Suc e + depth v \<le> max_depth" by blast
  qed
  have w: "list_all is_ws (brk l d)" using 8 by (simp add: blank_layout_def)
  have nx: "\<exists>r. skip_ws (print_members l (Suc d) (a # ms) @ x) = dquote # r" for x
    using 8 by (simp add: a skip_ws_append blank_layout_def quote_def)
  have "parse_members m (Suc e) (print_members l (Suc d) (a # ms) @ brk l d @ CHR 0x7D # t) = Some (a # ms, t)"
    using 8 ok w n by (intro "8.IH") auto
  then show ?case using 8 n nx [of "brk l d @ CHR 0x7D # t"] by (auto simp del: print_members.simps parse_members.simps)
next
  case (9 l d)
  then show ?case by simp
next
  case (10 l d k v ms)
  obtain m where n: "n = Suc m" using 10 by (cases n) auto
  define rest where "rest = (if ms = [] then w @ CHR 0x7D # t else CHR 0x2C # print_members l d ms @ w @ CHR 0x7D # t)"
  have V: "parse_value m e (json_print l d v @ rest) = Some (v, rest)"
    using 10 n by (intro "10.IH"(1)) (auto simp: quote_def)
  have K: "parse_str (quote_body k @ dquote # x) = Some (k, x)" for x
    using 10 by (simp add: parse_quote_body)
  have g: "list_all is_ws (gap l)" "list_all is_ws (brk l d)" using 10 by (simp_all add: blank_layout_def)
  have start: "print_members l d ((k, v) # ms) @ w @ CHR 0x7D # t
    = brk l d @ dquote # quote_body k @ dquote # CHR 0x3A # gap l @ json_print l d v @ rest"
    by (simp add: rest_def quote_def)
  show ?case
  proof (cases "ms = []")
    case True
    then have "skip_ws rest = CHR 0x7D # t" using 10 by (simp add: rest_def skip_ws_append)
    then show ?thesis unfolding start n using V g True by (simp add: skip_ws_append K parse_value_ws)
  next
    case False
    have "parse_members m e (print_members l d ms @ w @ CHR 0x7D # t) = Some (ms, t)"
      using 10 n False by (intro "10.IH"(2)) (auto simp: quote_def)
    then show ?thesis unfolding start n using V g False
      by (simp add: skip_ws_append K parse_value_ws rest_def)
  qed
next
  case (11 l d)
  then show ?case by simp
next
  case (12 l d v vs)
  obtain m where n: "n = Suc m" using 12 by (cases n) auto
  define rest where "rest = (if vs = [] then w @ CHR 0x5D # t else CHR 0x2C # print_elems l d vs @ w @ CHR 0x5D # t)"
  have V: "parse_value m e (json_print l d v @ rest) = Some (v, rest)"
    using 12 n by (intro "12.IH"(1)) auto
  have g: "list_all is_ws (brk l d)" using 12 by (simp add: blank_layout_def)
  have start: "print_elems l d (v # vs) @ w @ CHR 0x5D # t = brk l d @ json_print l d v @ rest"
    by (simp add: rest_def)
  show ?case
  proof (cases "vs = []")
    case True
    then have "skip_ws rest = CHR 0x5D # t" using 12 by (simp add: rest_def skip_ws_append)
    then show ?thesis unfolding start n using V g True by (simp add: parse_value_ws)
  next
    case False
    have "parse_elems m e (print_elems l d vs @ w @ CHR 0x5D # t) = Some (vs, t)"
      using 12 n False by (intro "12.IH"(2)) auto
    then show ?thesis unfolding start n using V g False
      by (simp add: parse_value_ws rest_def)
  qed
qed


theorem json_roundtrip:
  assumes "blank_layout l" and "encodable v" and "depth v \<le> max_depth"
  shows "json_parse (json_print l d v) = Some v"
proof -
  have "parse_value (2 * length (json_print l d v) + 2) 0 (json_print l d v @ []) = Some (v, [])"
    using assms by (intro parse_print_mutual) auto
  then show ?thesis by (simp add: json_parse_def skip_ws_def)
qed

section \<open>Fuel\<close>

lemma map_apfst_Some: "map_option (apfst f) x = Some (y, r) \<Longrightarrow> \<exists>z. x = Some (z, r)"
  by (cases x) auto

lemma parse_str_step:
  assumes "parse_str (c # t) = Some (x, r)"
  shows "r = t \<or> (\<exists>u y. length u \<le> length t \<and> parse_str u = Some (y, r))"
proof -
  note p = assms [unfolded parse_str.simps [of "c # t"] list.case]
  consider "c = dquote" | "c = bslash" | "c \<noteq> dquote" "c \<noteq> bslash" by blast
  then show ?thesis
  proof cases
    case 1
    then show ?thesis using p by simp
  next
    case 2
    then obtain e u where t: "t = e # u" using p by (cases t) auto
    show ?thesis
    proof (cases "e = CHR ''u''")
      case True
      with p 2 t obtain y v where "unicode_escape u = Some (y, v)" "\<exists>z. parse_str v = Some (z, r)"
        by (auto split: option.splits prod.splits dest!: map_apfst_Some)
      then show ?thesis using t by (auto dest!: unicode_escape_shorter)
    next
      case False
      with p 2 t have "\<exists>z. parse_str u = Some (z, r)"
        by (auto split: option.splits dest!: map_apfst_Some)
      then show ?thesis using t by auto
    qed
  next
    case 3
    with p have "(\<exists>z. parse_str t = Some (z, r)) \<or> (\<exists>z. parse_str (drop (max 1 (rune_len (c # t))) (c # t)) = Some (z, r))"
      by (auto split: if_splits dest!: map_apfst_Some simp del: rune_len.simps)
    then show ?thesis by (elim disjE exE) (auto simp del: rune_len.simps)
  qed
qed

lemma parse_str_shorter: "parse_str s = Some (x, r) \<Longrightarrow> length r < length s"
proof (induction s arbitrary: x rule: length_induct)
  case (1 s)
  obtain c t where s: "s = c # t" using "1.prems" by (cases s) (auto simp: parse_str.simps)
  consider "r = t" | u y where "length u \<le> length t" "parse_str u = Some (y, r)"
    using parse_str_step "1.prems" s by blast
  then show ?case
  proof cases
    case 2
    then have "length r < length u" using "1.IH" s by simp
    with 2 show ?thesis using s by simp
  qed (simp add: s)
qed

lemma digits1_shorter: "digits1 s = Some (a, r) \<Longrightarrow> length r < length s"
proof -
  assume "digits1 s = Some (a, r)"
  then have "takeWhile is_digit s \<noteq> []" "r = dropWhile is_digit s"
    by (auto simp: digits1_def Let_def split: if_splits)
  moreover have "length s = length (takeWhile is_digit s) + length (dropWhile is_digit s)"
    by (metis length_append takeWhile_dropWhile_id)
  ultimately show ?thesis by simp
qed

lemma parse_number_shorter: "parse_number s = Some (a, r) \<Longrightarrow> length r < length s"
proof -
  have i: "int_part s = Some (a, r) \<Longrightarrow> length r < length s" for s a r
    by (auto simp: int_part_def dest: digits1_shorter split: list.splits if_splits)
  have f: "frac_part s = Some (a, r) \<Longrightarrow> length r \<le> length s" for s a r
    by (auto simp: frac_part_def dest!: map_apfst_Some digits1_shorter split: list.splits if_splits)
  have e: "exp_part s = Some (a, r) \<Longrightarrow> length r \<le> length s" for s a r
    by (auto simp: exp_part_def dest!: map_apfst_Some digits1_shorter split: list.splits if_splits)
  assume "parse_number s = Some (a, r)"
  then show ?thesis
    by (auto simp: parse_number_def dest!: i f e split: list.splits if_splits option.splits prod.splits)
qed

lemma tl_skip_ws: "prefix [c] (skip_ws s) \<Longrightarrow> length (tl (skip_ws s)) < length s"
  using skip_ws_length [of s] by (auto simp: prefix_def)

lemma parse_shorter_all:
  "(\<forall>d s v r. parse_value n d s = Some (v, r) \<longrightarrow> length r < length s)
   \<and> (\<forall>d s ms r. parse_members n d s = Some (ms, r) \<longrightarrow> length r < length s)
   \<and> (\<forall>d s vs r. parse_elems n d s = Some (vs, r) \<longrightarrow> length r < length s)"
proof (induction n)
  case 0
  show ?case by simp
next
  case (Suc n)
  then have IHv: "\<And>d s v r. parse_value n d s = Some (v, r) \<Longrightarrow> length r < length s"
    and IHm: "\<And>d s ms r. parse_members n d s = Some (ms, r) \<Longrightarrow> length r < length s"
    and IHe: "\<And>d s vs r. parse_elems n d s = Some (vs, r) \<Longrightarrow> length r < length s"
    by blast+
  have "length r < length s" if p: "parse_value (Suc n) d s = Some (v, r)" for d s v r
  proof -
    obtain c t where s: "skip_ws s = c # t" using p by (cases "skip_ws s") auto
    then have len: "length t < length s" using skip_ws_length [of s] by simp
    note p' = p [unfolded parse_value.simps s list.case]
    consider (str) x where "parse_str t = Some (x, r)" | (mem) ms where "parse_members n (Suc d) t = Some (ms, r)"
      | (elem) vs where "parse_elems n (Suc d) t = Some (vs, r)" | (num) x where "parse_number (c # t) = Some (x, r)"
      | (close) "r = tl (skip_ws t)" | (lit) "r = drop 4 (c # t) \<or> r = drop 5 (c # t)"
      using p' by (auto split: if_splits dest!: map_apfst_Some)
    then have "length r < length (c # t)"
      using skip_ws_length [of t]
      by cases (auto dest!: parse_str_shorter parse_number_shorter IHm IHe)
    then show ?thesis using len by simp
  qed
  moreover have "length r < length s" if p: "parse_members (Suc n) d s = Some (ms, r)" for d s ms r
  proof -
    obtain c t where s: "skip_ws s = c # t" using p by (cases "skip_ws s") auto
    then have len: "length t < length s" using skip_ws_length [of s] by simp
    from p s have cq: "c = dquote" by (simp split: if_splits)
    from p s obtain k q where q: "parse_str t = Some (k, q)" by (auto split: if_splits option.splits)
    from p s q cq have colon: "prefix [CHR 0x3A] (skip_ws q)" by (simp split: if_splits)
    from p s q cq colon obtain v u where u: "parse_value n d (tl (skip_ws q)) = Some (v, u)"
      by (auto split: if_splits option.splits)
    have "length u < length t"
      using IHv [OF u] tl_skip_ws [OF colon] parse_str_shorter [OF q] by linarith
    moreover have "length r < length u"
      using p s q cq colon u by (auto split: if_splits dest!: map_apfst_Some IHm dest: tl_skip_ws)
    ultimately show ?thesis using len by linarith
  qed
  moreover have "length r < length s" if p: "parse_elems (Suc n) d s = Some (vs, r)" for d s vs r
  proof -
    from p obtain v u where u: "parse_value n d s = Some (v, u)" by (auto split: option.splits)
    have "length r < length u"
      using p u by (auto split: if_splits dest!: map_apfst_Some IHe dest: tl_skip_ws)
    then show ?thesis using IHv [OF u] by linarith
  qed
  ultimately show ?case by blast
qed

lemmas parse_value_shorter = parse_shorter_all [THEN conjunct1, rule_format]

text \<open>Twice the length of the input is fuel enough: more fuel never changes a result.\<close>

lemma parse_fuel_all:
  "(\<forall>m d s. n \<le> m \<longrightarrow> 2 * length s < n \<longrightarrow> parse_value m d s = parse_value n d s)
   \<and> (\<forall>m d s. n \<le> m \<longrightarrow> 2 * length s < n \<longrightarrow> parse_members m d s = parse_members n d s)
   \<and> (\<forall>m d s. n \<le> m \<longrightarrow> Suc (2 * length s) < n \<longrightarrow> parse_elems m d s = parse_elems n d s)"
proof (induction n)
  case 0
  show ?case by simp
next
  case (Suc n)
  then have IHv: "\<And>m d s. n \<le> m \<Longrightarrow> 2 * length s < n \<Longrightarrow> parse_value m d s = parse_value n d s"
    and IHm: "\<And>m d s. n \<le> m \<Longrightarrow> 2 * length s < n \<Longrightarrow> parse_members m d s = parse_members n d s"
    and IHe: "\<And>m d s. n \<le> m \<Longrightarrow> Suc (2 * length s) < n \<Longrightarrow> parse_elems m d s = parse_elems n d s"
    by blast+
  have "parse_value m d s = parse_value (Suc n) d s" if m: "Suc n \<le> m" and l: "2 * length s < Suc n" for m d s
  proof -
    obtain m' where m': "m = Suc m'" "n \<le> m'" using m by (cases m) auto
    show ?thesis
    proof (cases "skip_ws s")
      case Nil
      then show ?thesis by (simp add: m')
    next
      case (Cons c t)
      then have "length t < length s" using skip_ws_length [of s] by simp
      then have "2 * length t < n" "Suc (2 * length t) < n" using l by simp_all
      then show ?thesis using Cons IHm [OF m'(2)] IHe [OF m'(2)] by (simp add: m')
    qed
  qed
  moreover have "parse_members m d s = parse_members (Suc n) d s" if m: "Suc n \<le> m" and l: "2 * length s < Suc n" for m d s
  proof -
    obtain m' where m': "m = Suc m'" "n \<le> m'" using m by (cases m) auto
    show ?thesis
    proof (cases "\<exists>t k q. skip_ws s = dquote # t \<and> parse_str t = Some (k, q) \<and> prefix [CHR 0x3A] (skip_ws q)")
      case False
      then show ?thesis by (auto simp: m' split: list.splits option.splits)
    next
      case True
      then obtain t k q where q: "skip_ws s = dquote # t" "parse_str t = Some (k, q)" "prefix [CHR 0x3A] (skip_ws q)"
        by blast
      then have len: "length (tl (skip_ws q)) < length s"
        using skip_ws_length [of s] parse_str_shorter [OF q(2)] tl_skip_ws [OF q(3)] by simp
      then have V: "parse_value m' d (tl (skip_ws q)) = parse_value n d (tl (skip_ws q))"
        using l by (intro IHv m') simp
      show ?thesis
      proof (cases "parse_value n d (tl (skip_ws q))")
        case None
        then show ?thesis using q V by (simp add: m')
      next
        case (Some vu)
        then obtain v u where u: "parse_value n d (tl (skip_ws q)) = Some (v, u)" by (cases vu) auto
        have "parse_members m' d (tl (skip_ws u)) = parse_members n d (tl (skip_ws u))" if "prefix [CHR 0x2C] (skip_ws u)"
          using l len parse_value_shorter [OF u] tl_skip_ws [OF that] by (intro IHm m') simp
        then show ?thesis using q V u by (simp add: m')
      qed
    qed
  qed
  moreover have "parse_elems m d s = parse_elems (Suc n) d s" if m: "Suc n \<le> m" and l: "Suc (2 * length s) < Suc n" for m d s
  proof -
    obtain m' where m': "m = Suc m'" "n \<le> m'" using m by (cases m) auto
    have V: "parse_value m' d s = parse_value n d s" using l by (intro IHv m') simp
    have "parse_elems m' d (tl (skip_ws u)) = parse_elems n d (tl (skip_ws u))"
      if "parse_value n d s = Some (v, u)" "prefix [CHR 0x2C] (skip_ws u)" for v u
      using l parse_value_shorter [OF that(1)] tl_skip_ws [OF that(2)] by (intro IHe m') simp
    then show ?thesis using V by (auto simp: m' split: option.splits)
  qed
  ultimately show ?case by blast
qed

lemma parse_fuel_enough:
  "2 * length s < n \<Longrightarrow> parse_value n 0 s = parse_value (2 * length s + 2) 0 s"
  using parse_fuel_all [of "2 * length s + 1"] by (metis add_Suc_right le_add1 less_add_one One_nat_def Suc_leI add.commute numeral_2_eq_2 plus_1_eq_Suc)

end
