(* ===== verification/Job_Manifest.thy ===== *)
theory Job_Manifest
  imports Kube_Client Go_Json
begin

text \<open>
  The pure part of \<open>internal/controller/shim_controller.go\<close>: which artifact is meant for a node, and
  the manifests of the jobs and of the runtime class that the controller sends to the API server.
  The environment of the controller (\<open>os.Getenv\<close>) is an argument.
\<close>

section \<open>Choosing the artifact\<close>

record resolvedArtifact =
  ra_location :: string
  ra_sha256 :: string

definition no_artifact :: resolvedArtifact where
  "no_artifact = \<lparr>ra_location = [], ra_sha256 = []\<rparr>"

definition normalizeArch :: "string \<Rightarrow> string" where
  "normalizeArch goArch =
     (if goArch = ''amd64'' then ''x86_64''
      else if goArch = ''arm64'' then ''aarch64''
      else if goArch = ''arm'' then ''armv7l''
      else goArch)"

definition matchesPlatform :: "PlatformArtifact \<Rightarrow> string \<Rightarrow> string \<Rightarrow> bool" where
  "matchesPlatform p nodeOS nodeGoArch =
     (EqualFold (pa_OS p) nodeOS
      \<and> (EqualFold (pa_Arch p) nodeGoArch \<or> EqualFold (pa_Arch p) (normalizeArch nodeGoArch)))"

definition resolveArtifactForNode :: "Shim \<Rightarrow> Node \<Rightarrow> error + resolvedArtifact" where
  "resolveArtifactForNode shim node =
     (let nodeOS = OperatingSystem node; nodeArch = Architecture node;
          strategy = FetchStrategy_of (Spec shim)
      in if Platforms strategy \<noteq> [] then
           (case find (\<lambda>p. matchesPlatform p nodeOS nodeArch) (Platforms strategy) of
              Some p \<Rightarrow> Inr \<lparr>ra_location = pa_Location p, ra_sha256 = pa_SHA256 p\<rparr>
            | None \<Rightarrow> Inl (Msg (''no platform artifact matches node '' @ node_Name node @ '' ('' @ nodeOS @ ''/'' @ nodeArch @ '')'')))
         else
           (case AnonHTTP strategy of
              Some h \<Rightarrow> Inr \<lparr>ra_location = http_Location h, ra_sha256 = []\<rparr>
            | None \<Rightarrow> Inl (Msg (''no fetch source configured for shim '' @ shim_Name shim))))"

section \<open>The job\<close>

record opConfig =
  operation :: string
  privileged :: bool
  initContainer :: "Container list"
  args :: "string list"

definition setOperationConfiguration :: "(string \<Rightarrow> string) \<Rightarrow> Shim \<Rightarrow> opConfig \<Rightarrow> resolvedArtifact \<Rightarrow> opConfig" where
  "setOperationConfiguration env shim op artifact =
     (let op1 =
        (if operation op = INSTALL then
           let envVars =
                 [\<lparr>ev_Name = ''SHIM_NAME'', ev_Value = shim_Name shim\<rparr>,
                  \<lparr>ev_Name = ''SHIM_LOCATION'', ev_Value = ra_location artifact\<rparr>]
                 @ (if ra_sha256 artifact \<noteq> [] then [\<lparr>ev_Name = ''SHIM_SHA256'', ev_Value = ra_sha256 artifact\<rparr>] else []);
               configMapName = env ''SHIM_DOWNLOADER_CONFIG_MAP''
           in op\<lparr>initContainer :=
                [\<lparr>ctr_Image = env ''SHIM_DOWNLOADER_IMAGE'', ctr_Name = ''downloader'', ctr_Args = [],
                  ctr_Privileged = privileged op, ctr_Env = envVars,
                  ctr_EnvFrom = (if configMapName \<noteq> [] then [configMapName] else []),
                  ctr_VolumeMounts = [\<lparr>vm_Name = ''shim-download'', vm_MountPath = ''/assets''\<rparr>]\<rparr>],
              args := [''install'', ''-H'', ''/mnt/node-root'', ''-r'', shim_Name shim]\<rparr>
         else op)
      in if operation op1 = UNINSTALL then
           op1\<lparr>initContainer := [], args := [''uninstall'', ''-H'', ''/mnt/node-root'', ''-r'', shim_Name shim]\<rparr>
         else op1)"

text \<open>\<open>strconv.ParseInt(s, 10, 32)\<close>\<close>

definition digits_value :: "string \<Rightarrow> nat" where
  "digits_value ds = fold (\<lambda>d n. 10 * n + (of_char d - 48)) ds 0"

definition ParseInt32 :: "string \<Rightarrow> error + int" where
  "ParseInt32 s =
     (let neg = prefix ''-'' s; ds = (if prefix ''-'' s \<or> prefix ''+'' s then tl s else s) in
      if ds = [] \<or> \<not> list_all is_digit ds then Inl (Msg ''invalid syntax'')
      else
        let n = digits_value ds in
        if (if neg then n > 2 ^ 31 else n \<ge> 2 ^ 31) then Inl (Msg ''value out of range'')
        else Inr (if neg then - int n else int n))"

text \<open>
  \<open>json.Marshal\<close> of a map of strings sorts the keys and cannot fail.
\<close>

definition marshal_options :: "(string \<times> string) list \<Rightarrow> bytes" where
  "marshal_options kvs = json_print compact 0 (JObj (map (\<lambda>(k, v). (k, JStr v)) (sort_key fst kvs)))"

definition job_name :: "Node \<Rightarrow> Shim \<Rightarrow> string \<Rightarrow> string" where
  "job_name node shim op = take K8sNameMaxLength (node_Name node @ ''-'' @ shim_Name shim @ ''-'' @ op)"

definition job_ttl :: "(string \<Rightarrow> string) \<Rightarrow> int option" where
  "job_ttl env =
     (let ttlStr = env ''SHIM_NODE_INSTALLER_JOB_TTL'' in
      if ttlStr \<noteq> [] then (case ParseInt32 ttlStr of Inr ttl \<Rightarrow> if ttl > 0 then Some ttl else None | Inl _ \<Rightarrow> None)
      else None)"

definition provisioner :: "(string \<Rightarrow> string) \<Rightarrow> Shim \<Rightarrow> opConfig \<Rightarrow> Container" where
  "provisioner env shim op =
     \<lparr>ctr_Image = env ''SHIM_NODE_INSTALLER_IMAGE'', ctr_Name = ''provisioner'', ctr_Args = args op,
      ctr_Privileged = privileged op,
      ctr_Env = \<lparr>ev_Name = ''HOST_ROOT'', ev_Value = ''/mnt/node-root''\<rparr>
        # (case ContainerdRuntimeOptions (Spec shim) of
             None \<Rightarrow> []
           | Some kvs \<Rightarrow> [\<lparr>ev_Name = ''RUNTIME_OPTIONS'', ev_Value = marshal_options kvs\<rparr>]),
      ctr_EnvFrom = [],
      ctr_VolumeMounts = [\<lparr>vm_Name = ''root-mount'', vm_MountPath = ''/mnt/node-root''\<rparr>,
                          \<lparr>vm_Name = ''shim-download'', vm_MountPath = ''/assets''\<rparr>]\<rparr>"

definition createJobManifest :: "'c kube \<Rightarrow> (string \<Rightarrow> string) \<Rightarrow> Shim \<Rightarrow> Node \<Rightarrow> string \<Rightarrow> resolvedArtifact \<Rightarrow> error + Job" where
  "createJobManifest K env shim node op artifact =
     (let opConfig = setOperationConfiguration env shim
            \<lparr>operation = op, privileged = True, initContainer = [], args = []\<rparr> artifact;
          job = \<lparr>job_APIVersion = ''batch/v1'', job_Kind = ''Job'',
            job_meta = new_meta\<lparr>om_Name := job_name node shim op, om_Namespace := env ''CONTROLLER_NAMESPACE'',
              om_Annotations := Some [(''spinkube.dev/nodeName'', node_Name node), (''spinkube.dev/shimName'', shim_Name shim),
                (''spinkube.dev/operation'', op)],
              om_Labels := Some [(''spinkube.dev/shimName'', shim_Name shim), (''spinkube.dev/operation'', op),
                (''spinkube.dev/job'', ''true''), (job_name node shim op, ''true'')]\<rparr>,
            job_Pod = \<lparr>pod_NodeName = node_Name node, pod_HostPID = True,
              pod_Volumes = [\<lparr>vol_Name = ''shim-download'', vol_HostPath = None\<rparr>, \<lparr>vol_Name = ''root-mount'', vol_HostPath = Some ''/''\<rparr>],
              pod_InitContainers = initContainer opConfig, pod_Containers = [provisioner env shim opConfig],
              pod_RestartPolicy = ''Never''\<rparr>,
            job_TTL = job_ttl env, job_Conditions = []\<rparr>
      in if op = INSTALL then
           (case k_OwnJob K shim job of
              Inl e \<Rightarrow> Inl (Wrap ''failed to set controller reference'' e)
            | Inr j \<Rightarrow> Inr j)
         else Inr job)"

section \<open>The runtime class\<close>

definition createRuntimeClassManifest :: "'c kube \<Rightarrow> Shim \<Rightarrow> error + RuntimeClass" where
  "createRuntimeClassManifest K shim =
     (let name = take K8sNameMaxLength (rc_Name (RuntimeClass_of (Spec shim)));
          nodeSelector = (case NodeSelector (Spec shim) of None \<Rightarrow> Some [] | m \<Rightarrow> m);
          runtimeClass = \<lparr>rcl_APIVersion = ''node.k8s.io/v1'', rcl_Kind = ''RuntimeClass'',
            rcl_meta = new_meta\<lparr>om_Name := name, om_Labels := Some [(name, ''true'')]\<rparr>,
            rcl_Handler = rc_Handler (RuntimeClass_of (Spec shim)), rcl_NodeSelector = nodeSelector\<rparr>
      in case k_OwnRuntimeClass K shim runtimeClass of
           Inl e \<Rightarrow> Inl (Wrap ''failed to set controller reference'' e)
         | Inr r \<Rightarrow> Inr r)"

section \<open>Properties of the artifact\<close>

text \<open>
  The artifact of a node: if platforms are given, the result is the first platform whose
  operating system matches and whose architecture matches by its Go name or its uname name, and an
  error when there is none, even if a plain URL is configured; only without platforms the plain
  URL is used, without a checksum.
\<close>

lemma resolveArtifactForNode_spec:
  "resolveArtifactForNode shim node = Inr a \<longleftrightarrow>
     (if Platforms (FetchStrategy_of (Spec shim)) \<noteq> [] then
        \<exists>pre p post. Platforms (FetchStrategy_of (Spec shim)) = pre @ p # post
          \<and> matchesPlatform p (OperatingSystem node) (Architecture node)
          \<and> (\<forall>q \<in> set pre. \<not> matchesPlatform q (OperatingSystem node) (Architecture node))
          \<and> a = \<lparr>ra_location = pa_Location p, ra_sha256 = pa_SHA256 p\<rparr>
      else \<exists>h. AnonHTTP (FetchStrategy_of (Spec shim)) = Some h \<and> a = \<lparr>ra_location = http_Location h, ra_sha256 = []\<rparr>)"
proof -
  let ?m = "\<lambda>p. matchesPlatform p (OperatingSystem node) (Architecture node)"
  have "(\<exists>pre p post. xs = pre @ p # post \<and> ?m p \<and> (\<forall>q \<in> set pre. \<not> ?m q) \<and> a = f p)
      \<longleftrightarrow> (\<exists>p. find ?m xs = Some p \<and> a = f p)" for xs f
    unfolding find_Some_split by blast
  then show ?thesis
    by (auto simp: resolveArtifactForNode_def Let_def split: option.splits)
qed

text \<open>
  Matching is not symmetric in the two naming schemes: a node that reports its architecture
  with the uname name does not match a platform given with the Go name.
\<close>

lemma matchesPlatform_one_way:
  "matchesPlatform \<lparr>pa_OS = ''linux'', pa_Arch = ''x86_64'', pa_Location = l, pa_SHA256 = s\<rparr> ''linux'' ''amd64''
   \<and> \<not> matchesPlatform \<lparr>pa_OS = ''linux'', pa_Arch = ''amd64'', pa_Location = l, pa_SHA256 = s\<rparr> ''linux'' ''x86_64''
   \<and> \<not> matchesPlatform \<lparr>pa_OS = ''linux'', pa_Arch = ''arm64'', pa_Location = l, pa_SHA256 = s\<rparr> ''linux'' ''aarch64''"
  by code_simp

section \<open>Properties of the manifests\<close>

lemma job_name_le: "length (job_name node shim op) \<le> 63"
  by (simp add: job_name_def K8sNameMaxLength_def)

text \<open>
  The parts of a job that tell what it does: they do not depend on the owner reference.
\<close>

lemma createJobManifest_cases:
  assumes "kube_helpers K" "createJobManifest K env shim node op artifact = Inr job"
  shows "om_Name (job_meta job) = job_name node shim op
    \<and> om_Namespace (job_meta job) = env ''CONTROLLER_NAMESPACE''
    \<and> pod_NodeName (job_Pod job) = node_Name node \<and> pod_HostPID (job_Pod job) \<and> pod_RestartPolicy (job_Pod job) = ''Never''
    \<and> map_get (om_Annotations (job_meta job)) ''spinkube.dev/nodeName'' = Some (node_Name node)
    \<and> map_get (om_Annotations (job_meta job)) ''spinkube.dev/operation'' = Some op
    \<and> map_get (om_Labels (job_meta job)) ''spinkube.dev/shimName'' = Some (shim_Name shim)
    \<and> job_TTL job = job_ttl env \<and> job_Conditions job = []
    \<and> pod_InitContainers (job_Pod job) = initContainer (setOperationConfiguration env shim
         \<lparr>operation = op, privileged = True, initContainer = [], args = []\<rparr> artifact)
    \<and> pod_Containers (job_Pod job) = [provisioner env shim (setOperationConfiguration env shim
         \<lparr>operation = op, privileged = True, initContainer = [], args = []\<rparr> artifact)]
    \<and> (op \<noteq> INSTALL \<longrightarrow> om_OwnerReferences (job_meta job) = [])"
  using assms(2)
  by (auto simp: createJobManifest_def Let_def new_meta_def map_get_Some split: if_splits sum.splits
    dest!: kube_helpers.OwnJob_only [OF assms(1)])

text \<open>
  C25. The job of an operation: its name has at most 63 characters, it is pinned to the node and runs
  there once as a privileged container with the host's root mounted, its label and annotations name
  the shim, the node and the operation the job controller looks for; an install job first downloads
  the resolved artifact (with the checksum, if there is one), an uninstall job downloads nothing
  and has no owner, so that it survives the deletion of the shim.
\<close>

theorem createJobManifest_spec:
  assumes "kube_helpers K" "createJobManifest K env shim node op artifact = Inr job" "op = INSTALL \<or> op = UNINSTALL"
  shows "length (om_Name (job_meta job)) \<le> 63 \<and> pod_NodeName (job_Pod job) = node_Name node
    \<and> pod_RestartPolicy (job_Pod job) = ''Never''
    \<and> map_get (om_Labels (job_meta job)) ''spinkube.dev/shimName'' = Some (shim_Name shim)
    \<and> map_get (om_Annotations (job_meta job)) ''spinkube.dev/operation'' = Some op
    \<and> (\<exists>ctr. pod_Containers (job_Pod job) = [ctr] \<and> ctr_Privileged ctr
        \<and> ctr_Args ctr = [op, ''-H'', ''/mnt/node-root'', ''-r'', shim_Name shim]
        \<and> \<lparr>ev_Name = ''HOST_ROOT'', ev_Value = ''/mnt/node-root''\<rparr> \<in> set (ctr_Env ctr)
        \<and> \<lparr>vm_Name = ''root-mount'', vm_MountPath = ''/mnt/node-root''\<rparr> \<in> set (ctr_VolumeMounts ctr))
    \<and> (if op = INSTALL then
         (\<exists>dl. pod_InitContainers (job_Pod job) = [dl]
           \<and> \<lparr>ev_Name = ''SHIM_LOCATION'', ev_Value = ra_location artifact\<rparr> \<in> set (ctr_Env dl)
           \<and> (ra_sha256 artifact \<noteq> [] \<longleftrightarrow> \<lparr>ev_Name = ''SHIM_SHA256'', ev_Value = ra_sha256 artifact\<rparr> \<in> set (ctr_Env dl)))
       else pod_InitContainers (job_Pod job) = [] \<and> om_OwnerReferences (job_meta job) = [])"
  using createJobManifest_cases [OF assms(1,2)] assms(3) job_name_le [of node shim op]
  by (auto simp: setOperationConfiguration_def provisioner_def Let_def INSTALL_def UNINSTALL_def)

text \<open>
  The truncated names do not tell the operations apart: the install job and the uninstall job of
  a shim on a node have the same name exactly when the two names and the two dashes fill the 63
  characters.
\<close>

lemma job_name_collision:
  "job_name node shim INSTALL = job_name node shim UNINSTALL
     \<longleftrightarrow> length (node_Name node) + length (shim_Name shim) + 2 \<ge> 63"
proof -
  let ?p = "node_Name node @ ''-'' @ shim_Name shim @ ''-''"
  have len: "length ?p = length (node_Name node) + length (shim_Name shim) + 2" by simp
  show ?thesis
  proof (cases "length ?p \<ge> 63")
    case True
    then have "take 63 (?p @ x) = take 63 ?p" for x by (simp only: take_append) simp
    then have "job_name node shim x = take 63 ?p" for x
      by (simp add: job_name_def K8sNameMaxLength_def del: take_append)
    with True len show ?thesis by simp
  next
    case False
    then obtain k where k: "63 - length ?p = Suc k" by (cases "63 - length ?p") auto
    have "take 63 (?p @ ''install'') \<noteq> take 63 (?p @ ''uninstall'')"
      using False by (simp only: take_append k) simp
    with False show ?thesis by (simp add: job_name_def K8sNameMaxLength_def INSTALL_def UNINSTALL_def)
  qed
qed

text \<open>
  Different pairs of node and shim can have the same job name: a dash in one of the names can be
  read on either side.
\<close>

lemma job_name_ambiguous:
  assumes "node_Name n1 = a @ ''-'' @ b" "shim_Name s1 = c" "node_Name n2 = a" "shim_Name s2 = b @ ''-'' @ c"
  shows "job_name n1 s1 op = job_name n2 s2 op"
  using assms by (simp add: job_name_def)

definition demo_Shim :: "string \<Rightarrow> Shim" where
  "demo_Shim name =
     \<lparr>shim_meta = new_meta\<lparr>om_Name := name, om_Finalizers := [RCMOperatorFinalizer]\<rparr>,
      Spec = \<lparr>NodeSelector = None,
        FetchStrategy_of = \<lparr>fs_Type = [], AnonHTTP = Some \<lparr>http_Location = ''https://example.com/spin.tar.gz''\<rparr>, Platforms = []\<rparr>,
        RuntimeClass_of = \<lparr>rc_Name = ''wasmtime-spin-v2'', rc_Handler = ''spin-v2''\<rparr>,
        RolloutStrategy_of = \<lparr>rs_Type = ''recreate'', Rolling = \<lparr>MaxUpdate = 0\<rparr>\<rparr>,
        ContainerdRuntimeOptions = None\<rparr>,
      Status = \<lparr>NodeCount = 0, NodeReadyCount = 0\<rparr>\<rparr>"

definition demo_Node :: "string \<Rightarrow> (string \<times> string) list \<Rightarrow> Node" where
  "demo_Node name labels =
     \<lparr>node_meta = new_meta\<lparr>om_Name := name, om_Labels := Some labels\<rparr>, OperatingSystem = ''linux'', Architecture = ''amd64''\<rparr>"

lemma demo_names [simp]: "shim_Name (demo_Shim s) = s" "node_Name (demo_Node n ls) = n"
  by (simp_all add: demo_Shim_def demo_Node_def)

lemma job_name_ambiguous_witness:
  "job_name (demo_Node ''worker-a'' []) (demo_Shim ''b'') INSTALL = job_name (demo_Node ''worker'' []) (demo_Shim ''a-b'') INSTALL"
  by (rule job_name_ambiguous [where a = "''worker''" and b = "''a''" and c = "''b''"]) simp_all

text \<open>
  The time to live of a job is absent, or a positive number that fits into 32 bits.
\<close>

lemma job_ttl_bounds:
  assumes "job_ttl env = Some ttl"
  shows "0 < ttl \<and> ttl < 2 ^ 31"
  using assms by (auto simp: job_ttl_def ParseInt32_def Let_def split: if_splits sum.splits)

lemma job_ttl_bounds_witness: "\<exists>env. job_ttl env = Some 600 \<and> (600 :: int) < 2 ^ 31"
proof -
  have "job_ttl (\<lambda>_. ''600'') = Some 600"
    by (simp add: job_ttl_def ParseInt32_def digits_value_def is_digit_def byte_in_def Let_def)
  from job_ttl_bounds [OF this] this show ?thesis by blast
qed

theorem createJobManifest_spec_witness:
  "\<exists>job. createJobManifest mem_kube (\<lambda>_. []) (demo_Shim ''spin'') (demo_Node ''n1'' []) UNINSTALL no_artifact = Inr job
     \<and> pod_NodeName (job_Pod job) = ''n1'' \<and> pod_InitContainers (job_Pod job) = []"
proof -
  obtain job where job: "createJobManifest mem_kube (\<lambda>_. []) (demo_Shim ''spin'') (demo_Node ''n1'' []) UNINSTALL no_artifact = Inr job"
    by (simp add: createJobManifest_def Let_def INSTALL_def UNINSTALL_def)
  from createJobManifest_spec [OF mem_kube.kube_helpers_axioms this] job show ?thesis
    by (auto simp: INSTALL_def UNINSTALL_def)
qed

definition demo_platforms :: "PlatformArtifact list" where
  "demo_platforms =
     [\<lparr>pa_OS = ''linux'', pa_Arch = ''arm64'', pa_Location = ''https://example.com/arm64'', pa_SHA256 = []\<rparr>,
      \<lparr>pa_OS = ''Linux'', pa_Arch = ''x86_64'', pa_Location = ''https://example.com/amd64'', pa_SHA256 = ''ab''\<rparr>]"

definition platform_Shim :: Shim where
  "platform_Shim = (demo_Shim ''spin'')\<lparr>Spec := (Spec (demo_Shim ''spin''))\<lparr>FetchStrategy_of :=
     \<lparr>fs_Type = [], AnonHTTP = None, Platforms = demo_platforms\<rparr>\<rparr>\<rparr>"

lemma resolveArtifactForNode_spec_witness:
  "resolveArtifactForNode platform_Shim (demo_Node ''n1'' []) = Inr \<lparr>ra_location = ''https://example.com/amd64'', ra_sha256 = ''ab''\<rparr>"
proof -
  let ?n = "demo_Node ''n1'' []"
  let ?m = "\<lambda>p. matchesPlatform p (OperatingSystem ?n) (Architecture ?n)"
  have "\<not> ?m (hd demo_platforms)" "?m (last demo_platforms)" by code_simp+
  moreover have "demo_platforms = [hd demo_platforms] @ last demo_platforms # []" by (simp add: demo_platforms_def)
  moreover have "\<lparr>ra_location = ''https://example.com/amd64'', ra_sha256 = ''ab''\<rparr>
      = \<lparr>ra_location = pa_Location (last demo_platforms), ra_sha256 = pa_SHA256 (last demo_platforms)\<rparr>"
    by (simp add: demo_platforms_def)
  ultimately have "\<exists>pre p post. demo_platforms = pre @ p # post \<and> ?m p \<and> (\<forall>q \<in> set pre. \<not> ?m q)
      \<and> \<lparr>ra_location = ''https://example.com/amd64'', ra_sha256 = ''ab''\<rparr> = \<lparr>ra_location = pa_Location p, ra_sha256 = pa_SHA256 p\<rparr>"
    by (intro exI [of _ "[hd demo_platforms]"] exI [of _ "last demo_platforms"] exI [of _ "[]"]) simp
  moreover have "Platforms (FetchStrategy_of (Spec platform_Shim)) = demo_platforms" "demo_platforms \<noteq> []"
    by (simp_all add: platform_Shim_def demo_platforms_def)
  ultimately show ?thesis by (intro resolveArtifactForNode_spec [THEN iffD2]) simp
qed

end
