(* ===== verification/Shim_Controller.thy ===== *)
theory Shim_Controller
  imports Job_Manifest
begin

text \<open>
  The reconciler of shims, \<open>internal/controller/shim_controller.go\<close>. Every operation takes the client
  and the state of the cluster and returns its result and the next state. Objects the source changes
  through a pointer are returned changed. A panic is a result; the deferred call of \<open>Reconcile\<close> runs
  after a panic too. The theorems are about the log of the API calls and hold for every client.
\<close>

section \<open>Labels of a node\<close>

definition updateNodeLabels :: "'c kube \<Rightarrow> Node \<Rightarrow> Shim \<Rightarrow> string \<Rightarrow> 'c \<Rightarrow> (error option \<times> Node) outcome \<times> 'c" where
  "updateNodeLabels K node shim status c =
     (case map_set (om_Labels (node_meta node)) (shim_Name shim) status of
        Panic m \<Rightarrow> (Panic m, c)
      | Ret labels \<Rightarrow>
          let node1 = with_labels node labels in
          (case k_UpdateNode K node1 c of
             (Inl err, c1) \<Rightarrow> (Ret (Some (Wrap ''failed to update node labels'' err), node1), c1)
           | (Inr node2, c1) \<Rightarrow> (Ret (None, node2), c1)))"

section \<open>Deploying a job\<close>

definition patch_job :: "'c kube \<Rightarrow> Shim \<Rightarrow> Node \<Rightarrow> Job \<Rightarrow> 'c \<Rightarrow> error option outcome \<times> 'c" where
  "patch_job K shim node job c =
     (case k_MarshalJob K job of
        Inl err \<Rightarrow> (Ret (Some (Wrap ''failed to marshal job'' err)), c)
      | Inr jobData \<Rightarrow>
          (case k_PatchJob K job jobData c of
             (None, c1) \<Rightarrow> (Ret None, c1)
           | (Some err, c1) \<Rightarrow>
               (case updateNodeLabels K node shim ''failed'' c1 of
                  (Panic m, c2) \<Rightarrow> (Panic m, c2)
                | (Ret _, c2) \<Rightarrow> (Ret (Some (Wrap ''failed to reconcile job'' err)), c2))))"

text \<open>The two cases of the switch: label the node, create the manifest, send it.\<close>

definition label_and_patch :: "'c kube \<Rightarrow> (string \<Rightarrow> string) \<Rightarrow> Shim \<Rightarrow> Node \<Rightarrow> string \<Rightarrow> string \<Rightarrow> resolvedArtifact \<Rightarrow> 'c
    \<Rightarrow> error option outcome \<times> 'c" where
  "label_and_patch K env shim node status op artifact c =
     (case updateNodeLabels K node shim status c of
        (Panic m, c1) \<Rightarrow> (Panic m, c1)
      | (Ret (_, node1), c1) \<Rightarrow>
          (case createJobManifest K env shim node1 op artifact of
             Inl err \<Rightarrow> (Ret (Some err), c1)
           | Inr job \<Rightarrow> patch_job K shim node1 job c1))"

definition deployJobOnNode :: "'c kube \<Rightarrow> (string \<Rightarrow> string) \<Rightarrow> Shim \<Rightarrow> Node \<Rightarrow> string \<Rightarrow> 'c \<Rightarrow> error option outcome \<times> 'c" where
  "deployJobOnNode K env shim node jobType c =
     (case k_GetNode K \<lparr>nn_Name = node_Name node, nn_Namespace = []\<rparr> c of
        (Inl err, c1) \<Rightarrow> (Ret (Some (Wrap ''failed to fetch node'' err)), c1)
      | (Inr node, c1) \<Rightarrow>
          let artifact = resolveArtifactForNode shim node in
          if jobType = INSTALL then
            (case artifact of
               Inl err \<Rightarrow> (Ret (Some (Wrap (''failed to resolve artifact for node '' @ node_Name node) err)), c1)
             | Inr a \<Rightarrow> label_and_patch K env shim node ProvisioningStatusPending INSTALL a c1)
          else if jobType = UNINSTALL then label_and_patch K env shim node UNINSTALL UNINSTALL no_artifact c1
          else (Ret (Some (Msg (''invalid jobType: '' @ jobType))), c1))"

section \<open>Installing\<close>

definition needs_install :: "Shim \<Rightarrow> Node \<Rightarrow> bool" where
  "needs_install shim node \<longleftrightarrow>
     label_of node (shim_Name shim) \<noteq> ProvisioningStatusProvisioned \<and> label_of node (shim_Name shim) \<noteq> ProvisioningStatusPending"

fun rollout :: "'c kube \<Rightarrow> (string \<Rightarrow> string) \<Rightarrow> Shim \<Rightarrow> Node list \<Rightarrow> error option list \<Rightarrow> 'c
    \<Rightarrow> error option list outcome \<times> 'c" where
  "rollout K env shim [] errs c = (Ret errs, c)"
| "rollout K env shim (node # nodes) errs c =
     (if needs_install shim node then
        (case deployJobOnNode K env shim node INSTALL c of
           (Panic m, c1) \<Rightarrow> (Panic m, c1)
         | (Ret err, c1) \<Rightarrow> rollout K env shim nodes (errs @ [err]) c1)
      else rollout K env shim nodes errs c)"

definition recreateStrategyRollout :: "'c kube \<Rightarrow> (string \<Rightarrow> string) \<Rightarrow> Shim \<Rightarrow> Node list \<Rightarrow> 'c \<Rightarrow> error option outcome \<times> 'c" where
  "recreateStrategyRollout K env shim nodes c =
     (case rollout K env shim nodes [] c of
        (Panic m, c1) \<Rightarrow> (Panic m, c1)
      | (Ret errs, c1) \<Rightarrow> (Ret (errors_Join errs), c1))"

definition handleInstallShim :: "'c kube \<Rightarrow> (string \<Rightarrow> string) \<Rightarrow> Shim \<Rightarrow> Node list \<Rightarrow> 'c \<Rightarrow> error option outcome \<times> 'c" where
  "handleInstallShim K env shim nodes c =
     (let strategy = rs_Type (RolloutStrategy_of (Spec shim)) in
      if strategy = RolloutStrategyTypeRolling then (Ret (Some (Msg ''rolling strategy not implemented yet'')), c)
      else if strategy = RolloutStrategyTypeRecreate then recreateStrategyRollout K env shim nodes c
      else recreateStrategyRollout K env shim nodes c)"

section \<open>The runtime class\<close>

definition handleDeployRuntimeClass :: "'c kube \<Rightarrow> Shim \<Rightarrow> 'c \<Rightarrow> error option \<times> 'c" where
  "handleDeployRuntimeClass K shim c =
     (case createRuntimeClassManifest K shim of
        Inl err \<Rightarrow> (Some err, c)
      | Inr runtimeClass \<Rightarrow>
          (case k_MarshalRuntimeClass K runtimeClass of
             Inl err \<Rightarrow> (Some (Wrap ''failed to marshal runtimeclass'' err), c)
           | Inr runtimeClassData \<Rightarrow>
               (case k_PatchRuntimeClass K runtimeClass runtimeClassData c of
                  (err, c1) \<Rightarrow> (map_option (Wrap ''failed to reconcile RuntimeClass'') err, c1))))"

definition getRuntimeClass :: "'c kube \<Rightarrow> Shim \<Rightarrow> 'c \<Rightarrow> (error + RuntimeClass) \<times> 'c" where
  "getRuntimeClass K shim c =
     (case k_GetRuntimeClass K \<lparr>nn_Name = rc_Name (RuntimeClass_of (Spec shim)), nn_Namespace = om_Namespace (shim_meta shim)\<rparr> c of
        (Inl err, c1) \<Rightarrow> (Inl (Wrap ''failed to get runtimeClass'' err), c1)
      | (Inr rc, c1) \<Rightarrow> (Inr rc, c1))"

definition runtimeClassExists :: "'c kube \<Rightarrow> Shim \<Rightarrow> 'c \<Rightarrow> (bool \<times> error option) \<times> 'c" where
  "runtimeClassExists K shim c =
     (if rc_Name (RuntimeClass_of (Spec shim)) \<noteq> [] then
        (case getRuntimeClass K shim c of
           (Inl err, c1) \<Rightarrow> ((False, Some err), c1)
         | (Inr _, c1) \<Rightarrow> ((True, None), c1))
      else ((False, None), c))"

section \<open>Status and finalizer\<close>

definition ready_count :: "Shim \<Rightarrow> Node list \<Rightarrow> nat" where
  "ready_count shim nodes = length (filter (\<lambda>n. label_of n (shim_Name shim) = ProvisioningStatusProvisioned) nodes)"

definition with_counts :: "Shim \<Rightarrow> Node list \<Rightarrow> Shim" where
  "with_counts shim nodes =
     shim\<lparr>Status := (Status shim)\<lparr>NodeCount := int (length nodes), NodeReadyCount := int (ready_count shim nodes)\<rparr>\<rparr>"

definition updateStatus :: "'c kube \<Rightarrow> Shim \<Rightarrow> Node list \<Rightarrow> 'c \<Rightarrow> (error option \<times> Shim) \<times> 'c" where
  "updateStatus K shim nodes c =
     (let shim1 = with_counts shim nodes in
      case k_UpdateShim K shim1 c of (r, c1) \<Rightarrow>
      let shim2 = (case r of Inl _ \<Rightarrow> shim1 | Inr s \<Rightarrow> s) in
      (case k_GetShim K \<lparr>nn_Name = shim_Name shim2, nn_Namespace = om_Namespace (shim_meta shim2)\<rparr> c1 of
         (Inl err, c2) \<Rightarrow> ((Some (Wrap ''failed to fetch shim'' err), shim2), c2)
       | (Inr shim3, c2) \<Rightarrow> ((None, shim3), c2)))"

definition removeFinalizerFromShim :: "'c kube \<Rightarrow> Shim \<Rightarrow> 'c \<Rightarrow> (error option \<times> Shim) \<times> 'c" where
  "removeFinalizerFromShim K shim c =
     (if k_ContainsFinalizer K shim RCMOperatorFinalizer then
        let shim1 = k_RemoveFinalizer K shim RCMOperatorFinalizer in
        (case k_UpdateShim K shim1 c of
           (Inl err, c1) \<Rightarrow> ((Some (Wrap ''failed to remove finalizer'' err), shim1), c1)
         | (Inr shim2, c1) \<Rightarrow> ((None, shim2), c1))
      else ((None, shim), c))"

definition ensureFinalizerForShim :: "'c kube \<Rightarrow> Shim \<Rightarrow> string \<Rightarrow> 'c \<Rightarrow> (error option \<times> Shim) \<times> 'c" where
  "ensureFinalizerForShim K shim finalizer c =
     (if \<not> k_ContainsFinalizer K shim finalizer then
        let shim1 = k_AddFinalizer K shim finalizer in
        (case k_UpdateShim K shim1 c of
           (Inl err, c1) \<Rightarrow> ((Some (Wrap ''failed to set finalizer'' err), shim1), c1)
         | (Inr shim2, c1) \<Rightarrow> ((None, shim2), c1))
      else ((None, shim), c))"

section \<open>Deleting\<close>

fun handleDeleteShim :: "'c kube \<Rightarrow> (string \<Rightarrow> string) \<Rightarrow> Shim \<Rightarrow> Node list \<Rightarrow> 'c \<Rightarrow> error option outcome \<times> 'c" where
  "handleDeleteShim K env shim [] c = (Ret None, c)"
| "handleDeleteShim K env shim (node # nodes) c =
     (if has_label node (shim_Name shim) then
        (case deployJobOnNode K env shim node UNINSTALL c of
           (Panic m, c1) \<Rightarrow> (Panic m, c1)
         | (Ret err, c1) \<Rightarrow>
             if k_IgnoreNotFound K err \<noteq> None then (Ret err, c1)
             else handleDeleteShim K env shim nodes c1)
      else handleDeleteShim K env shim nodes c)"

section \<open>Reconcile\<close>

definition getNodeListFromShimsNodeSelector :: "'c kube \<Rightarrow> Shim \<Rightarrow> 'c \<Rightarrow> (error + Node list) \<times> 'c" where
  "getNodeListFromShimsNodeSelector K shim c =
     (case k_ListNodes K (entries (NodeSelector (Spec shim))) c of
        (Inl err, c1) \<Rightarrow> (Inl (Wrap ''failed to get node list'' err), c1)
      | (Inr nodes, c1) \<Rightarrow> (Inr nodes, c1))"

text \<open>
  After the status: the deletion, or the runtime class and the rollout. The result includes the shim,
  which the deferred call reads.
\<close>

definition reconcile_delete :: "'c kube \<Rightarrow> (string \<Rightarrow> string) \<Rightarrow> Shim \<Rightarrow> Node list \<Rightarrow> 'c
    \<Rightarrow> (error option outcome \<times> Shim) \<times> 'c" where
  "reconcile_delete K env shim nodes c =
     (case handleDeleteShim K env shim nodes c of
        (Panic m, c1) \<Rightarrow> ((Panic m, shim), c1)
      | (Ret (Some err), c1) \<Rightarrow> ((Ret (Some err), shim), c1)
      | (Ret None, c1) \<Rightarrow>
          (case removeFinalizerFromShim K shim c1 of
             ((err, shim'), c2) \<Rightarrow> ((Ret (k_IgnoreNotFound K err), shim'), c2)))"

definition reconcile_install :: "'c kube \<Rightarrow> (string \<Rightarrow> string) \<Rightarrow> Shim \<Rightarrow> Node list \<Rightarrow> 'c \<Rightarrow> error option outcome \<times> 'c" where
  "reconcile_install K env shim nodes c =
     (case runtimeClassExists K shim c of ((rcExists, err), c1) \<Rightarrow>
      case (if rcExists then (err, c1) else handleDeployRuntimeClass K shim c1) of (err2, c2) \<Rightarrow>
      if \<not> rcExists \<and> err2 \<noteq> None then (Ret err2, c2)
      else if nodes \<noteq> [] then handleInstallShim K env shim nodes c2
      else (Ret err2, c2))"

definition reconcile_body :: "'c kube \<Rightarrow> (string \<Rightarrow> string) \<Rightarrow> Shim \<Rightarrow> 'c \<Rightarrow> (error option outcome \<times> Shim) \<times> 'c" where
  "reconcile_body K env shim c =
     (case getNodeListFromShimsNodeSelector K shim c of
        (Inl err, c1) \<Rightarrow> ((Ret (Some err), shim), c1)
      | (Inr nodes, c1) \<Rightarrow>
          (case updateStatus K shim nodes c1 of
             ((Some err, shim1), c2) \<Rightarrow> ((Ret (Some err), shim1), c2)
           | ((None, shim1), c2) \<Rightarrow>
               if om_DeletionTimestamp (shim_meta shim1) \<noteq> None then reconcile_delete K env shim1 nodes c2
               else (case reconcile_install K env shim1 nodes c2 of (r, c3) \<Rightarrow> ((r, shim1), c3))))"

definition Reconcile :: "'c kube \<Rightarrow> (string \<Rightarrow> string) \<Rightarrow> NamespacedName \<Rightarrow> 'c \<Rightarrow> error option outcome \<times> 'c" where
  "Reconcile K env req c =
     (case k_GetShim K req c of
        (Inl err, c1) \<Rightarrow> (Ret (k_IgnoreNotFound K (Some err)), c1)
      | (Inr shimResource, c1) \<Rightarrow>
          (case reconcile_body K env shimResource c1 of
             ((r, shim), c2) \<Rightarrow> (r, snd (ensureFinalizerForShim K shim RCMOperatorFinalizer c2))))"

section \<open>Watching the nodes\<close>

definition findShimsToReconcile :: "'c kube \<Rightarrow> Node \<Rightarrow> 'c \<Rightarrow> NamespacedName list \<times> 'c" where
  "findShimsToReconcile K node c =
     (case k_ListShims K c of
        (Inl err, c1) \<Rightarrow> ([], c1)
      | (Inr shims, c1) \<Rightarrow>
          (map (\<lambda>s. \<lparr>nn_Name = shim_Name s, nn_Namespace = om_Namespace (shim_meta s)\<rparr>) shims, c1))"

section \<open>The calls of a deployment\<close>

lemma log_sum_cases:
  "log_sum f ev (c, l) = (r, cl') \<longleftrightarrow> (\<exists>c'. f c = (r, c') \<and> cl' = (c', l @ [ev (ok_sum r)]))"
  by (auto simp: log_sum_def split: prod.splits)

lemma log_opt_cases:
  "log_opt f ev (c, l) = (r, cl') \<longleftrightarrow> (\<exists>c'. f c = (r, c') \<and> cl' = (c', l @ [ev (r = None)]))"
  by (auto simp: log_opt_def split: prod.splits)

lemma updateNodeLabels_log:
  assumes K: "kube_helpers K" and run: "updateNodeLabels (logging K) node shim status (c, l) = (Ret (err, node'), (c', l'))"
  shows "\<exists>n b. l' = l @ [UpdatedNode n b] \<and> node_Name n = node_Name node \<and> label_of n (shim_Name shim) = status
    \<and> node_Name node' = node_Name node \<and> om_Labels (node_meta node') = om_Labels (node_meta n) \<and> om_Labels (node_meta n) \<noteq> None"
proof -
  obtain labels where labels: "map_set (om_Labels (node_meta node)) (shim_Name shim) status = Ret labels"
    using run by (auto simp: updateNodeLabels_def split: outcome.splits)
  then have set: "map_get labels (shim_Name shim) = Some status"
    using map_set_Ret [OF labels, of "shim_Name shim"] by simp
  have some: "labels \<noteq> None"
    using labels by (auto simp: map_set_def split: option.splits)
  obtain r c2 where up: "k_UpdateNode K (with_labels node labels) c = (r, c2)" by (meson surj_pair)
  then have l': "c' = c2" "l' = l @ [UpdatedNode (with_labels node labels) (ok_sum r)]"
      and node': "node' = (case r of Inl _ \<Rightarrow> with_labels node labels | Inr n \<Rightarrow> n)"
    using run by (cases r; simp add: updateNodeLabels_def labels logging_sel log_sum_eq Let_def)+
  have "node_Name n = node_Name node \<and> om_Labels (node_meta n) = labels" if "r = Inr n" for n
    using kube_helpers.UpdateNode_same [OF K, of "with_labels node labels" c n c2] up that by simp
  then have "node_Name node' = node_Name node \<and> om_Labels (node_meta node') = labels"
    unfolding node' by (cases r) simp_all
  with set some l' show ?thesis
    by (intro exI [of _ "with_labels node labels"] exI [of _ "ok_sum r"]) (simp add: label_of_def)
qed

lemma updateNodeLabels_panic:
  "updateNodeLabels K node shim status c = (Panic m, c') \<longleftrightarrow>
     om_Labels (node_meta node) = None \<and> c' = c \<and> m = ''assignment to entry in nil map''"
  by (auto simp: updateNodeLabels_def map_set_def Let_def split: option.splits sum.splits prod.splits)

text \<open>What a deployment sends: the job is for the node, the shim and the operation.\<close>

definition job_for :: "Job \<Rightarrow> string \<Rightarrow> string \<Rightarrow> string \<Rightarrow> bool" where
  "job_for job shim node op \<longleftrightarrow> pod_NodeName (job_Pod job) = node
     \<and> map_get (om_Labels (job_meta job)) ''spinkube.dev/shimName'' = Some shim
     \<and> map_get (om_Annotations (job_meta job)) ''spinkube.dev/operation'' = Some op"

text \<open>
  The logs of a deployment. After the node was fetched it is labelled; then no job is sent, or the
  job is accepted, or the job is refused and the node is labelled as failed.
\<close>

inductive label_trace :: "string \<Rightarrow> string \<Rightarrow> string \<Rightarrow> string \<Rightarrow> error option \<Rightarrow> call list \<Rightarrow> bool"
  for shim node op status where
  no_job: "\<lbrakk>node_Name n = node; label_of n shim = status\<rbrakk> \<Longrightarrow> label_trace shim node op status (Some e) [UpdatedNode n b]"
| accepted: "\<lbrakk>node_Name n = node; label_of n shim = status; job_for job shim node op\<rbrakk>
    \<Longrightarrow> label_trace shim node op status None [UpdatedNode n b, PatchedJob job True]"
| refused: "\<lbrakk>node_Name n = node; label_of n shim = status; job_for job shim node op; node_Name n' = node; label_of n' shim = ''failed''\<rbrakk>
    \<Longrightarrow> label_trace shim node op status (Some e) [UpdatedNode n b, PatchedJob job False, UpdatedNode n' b']"

inductive deploy_trace :: "string \<Rightarrow> string \<Rightarrow> string \<Rightarrow> string \<Rightarrow> error option \<Rightarrow> call list \<Rightarrow> bool"
  for shim node op status where
  stopped: "deploy_trace shim node op status (Some e) [GotNode \<lparr>nn_Name = node, nn_Namespace = []\<rparr> b]"
| labelled: "label_trace shim node op status err log
    \<Longrightarrow> deploy_trace shim node op status err (GotNode \<lparr>nn_Name = node, nn_Namespace = []\<rparr> True # log)"

inductive_cases label_traceE: "label_trace shim node op status err log"
inductive_cases deploy_traceE: "deploy_trace shim node op status err log"

lemma updateNodeLabels_Ret:
  "om_Labels (node_meta node) \<noteq> None \<Longrightarrow> \<exists>r c'. updateNodeLabels K node shim status c = (Ret r, c')"
  by (auto simp: updateNodeLabels_def map_set_def Let_def split: sum.split prod.split)

lemma label_and_patch_log:
  assumes K: "kube_helpers K" and op: "op = INSTALL \<or> op = UNINSTALL"
    and run: "label_and_patch (logging K) env shim node status op artifact (c, l) = (Ret err, (c', l'))"
  shows "\<exists>log. l' = l @ log \<and> label_trace (shim_Name shim) (node_Name node) op status err log"
proof -
  obtain e1 node1 c1 l1 where up: "updateNodeLabels (logging K) node shim status (c, l) = (Ret (e1, node1), (c1, l1))"
    using run by (auto simp: label_and_patch_def split: prod.splits outcome.splits)
  from updateNodeLabels_log [OF K this] obtain n b where n: "l1 = l @ [UpdatedNode n b]" "node_Name n = node_Name node"
    "label_of n (shim_Name shim) = status" "node_Name node1 = node_Name node" "om_Labels (node_meta node1) \<noteq> None" by auto
  show ?thesis
  proof (cases "createJobManifest (logging K) env shim node1 op artifact")
    case (Inl e)
    then show ?thesis using run up n label_trace.no_job [OF n(2,3)] by (auto simp: label_and_patch_def)
  next
    case (Inr job)
    have job: "job_for job (shim_Name shim) (node_Name node) op"
      using createJobManifest_cases [OF kube_helpers_logging [OF K] Inr] n(4) by (simp add: job_for_def)
    have run2: "patch_job (logging K) shim node1 job (c1, l1) = (Ret err, (c', l'))"
      using run up Inr by (simp add: label_and_patch_def)
    show ?thesis
    proof (cases "k_MarshalJob K job")
      case (Inl e)
      then show ?thesis using run2 n label_trace.no_job [OF n(2,3)] by (auto simp: patch_job_def kube_simps)
    next
      case (Inr data)
      obtain e2 c2 where patch: "k_PatchJob K job data c1 = (e2, c2)" by fastforce
      show ?thesis
      proof (cases e2)
        case None
        then show ?thesis using run2 Inr patch n label_trace.accepted [OF n(2,3) job]
          by (auto simp: patch_job_def kube_simps)
      next
        case (Some e)
        then obtain e3 node3 e4 where
          "updateNodeLabels (logging K) node1 shim ''failed'' (c2, l1 @ [PatchedJob job False]) = (Ret (e3, node3), (c', l'))"
          and err: "err = Some e4"
          using run2 Inr patch by (auto simp: patch_job_def kube_simps split: prod.splits outcome.splits)
        from updateNodeLabels_log [OF K this(1)] obtain n' b' where
          "l' = (l1 @ [PatchedJob job False]) @ [UpdatedNode n' b']" "node_Name n' = node_Name node"
          "label_of n' (shim_Name shim) = ''failed''" using n(4) by auto
        with label_trace.refused [OF n(2,3) job this(2,3)] err n(1) show ?thesis by auto
      qed
    qed
  qed
qed

lemma label_and_patch_panic:
  assumes K: "kube_helpers K"
  shows "(\<exists>m c'. label_and_patch K env shim node status op artifact c = (Panic m, c')) \<longleftrightarrow> om_Labels (node_meta node) = None"
proof (cases "om_Labels (node_meta node)")
  case None
  then show ?thesis by (simp add: label_and_patch_def updateNodeLabels_def map_set_def)
next
  case (Some ls)
  obtain e1 node1 c1 where up: "updateNodeLabels K node shim status c = (Ret (e1, node1), c1)"
    using updateNodeLabels_Ret [of node K shim status c] Some by auto
  then have "om_Labels (node_meta node1) \<noteq> None"
    using Some kube_helpers.UpdateNode_same [OF K]
    by (auto simp: updateNodeLabels_def map_set_def Let_def split: prod.splits sum.splits)
  then have "\<exists>r c'. updateNodeLabels K node1 shim ''failed'' c2 = (Ret r, c')" for c2
    by (rule updateNodeLabels_Ret)
  then have patch: "\<exists>r c'. patch_job K shim node1 job c1 = (Ret r, c')" for job
    unfolding patch_job_def by (auto split: sum.split prod.split option.split outcome.split) (metis outcome.distinct(1) prod.inject)
  have "\<exists>r c'. label_and_patch K env shim node status op artifact c = (Ret r, c')"
    using up patch by (auto simp: label_and_patch_def split: sum.split)
  then have "\<nexists>m c'. label_and_patch K env shim node status op artifact c = (Panic m, c')" by auto
  with Some show ?thesis by simp
qed

section \<open>Properties of a deployment\<close>

lemma deployJobOnNode_log:
  assumes K: "kube_helpers K" and op: "op = INSTALL \<and> status = ProvisioningStatusPending \<or> op = UNINSTALL \<and> status = UNINSTALL"
    and run: "deployJobOnNode (logging K) env shim node op (c, l) = (Ret err, (c', l'))"
  shows "\<exists>log. l' = l @ log \<and> deploy_trace (shim_Name shim) (node_Name node) op status err log"
proof -
  let ?key = "\<lparr>nn_Name = node_Name node, nn_Namespace = []\<rparr>"
  obtain r c1 where get: "k_GetNode K ?key c = (r, c1)" by (meson surj_pair)
  show ?thesis
  proof (cases r)
    case (Inl e)
    then show ?thesis using run get
      by (auto simp: deployJobOnNode_def logging_sel log_sum_eq intro!: deploy_trace.stopped)
  next
    case (Inr nd)
    then have name: "node_Name nd = node_Name node"
      using kube_helpers.GetNode_name [OF K, of ?key c nd c1] get by simp
    have "(\<exists>e. l' = l @ [GotNode ?key True] \<and> err = Some e)
        \<or> (\<exists>a. label_and_patch (logging K) env shim nd status op a (c1, l @ [GotNode ?key True]) = (Ret err, (c', l')))"
      using run get Inr op
      by (auto simp: deployJobOnNode_def logging_sel log_sum_eq Let_def INSTALL_def UNINSTALL_def split: sum.splits)
    then show ?thesis
    proof
      assume "\<exists>e. l' = l @ [GotNode ?key True] \<and> err = Some e"
      then show ?thesis by (auto intro!: deploy_trace.stopped)
    next
      assume "\<exists>a. label_and_patch (logging K) env shim nd status op a (c1, l @ [GotNode ?key True]) = (Ret err, (c', l'))"
      then obtain a where "label_and_patch (logging K) env shim nd status op a (c1, l @ [GotNode ?key True]) = (Ret err, (c', l'))" ..
      from label_and_patch_log [OF K _ this] op obtain log
        where "l' = (l @ [GotNode ?key True]) @ log" "label_trace (shim_Name shim) (node_Name nd) op status err log" by auto
      then show ?thesis using name deploy_trace.labelled [of "shim_Name shim" "node_Name node" op status err log] by auto
    qed
  qed
qed

lemma deployJobOnNode_panic:
  assumes K: "kube_helpers K" and op: "op = INSTALL \<or> op = UNINSTALL"
  shows "(\<exists>m c'. deployJobOnNode K env shim node op c = (Panic m, c')) \<longleftrightarrow>
    (\<exists>nd c1. k_GetNode K \<lparr>nn_Name = node_Name node, nn_Namespace = []\<rparr> c = (Inr nd, c1) \<and> om_Labels (node_meta nd) = None
      \<and> (op = INSTALL \<longrightarrow> (\<exists>a. resolveArtifactForNode shim nd = Inr a)))"
proof (cases "k_GetNode K \<lparr>nn_Name = node_Name node, nn_Namespace = []\<rparr> c")
  case (Pair r c1)
  have neq: "UNINSTALL \<noteq> INSTALL" by (simp add: INSTALL_def UNINSTALL_def)
  show ?thesis
  proof (cases r)
    case (Inl e)
    with Pair show ?thesis by (simp add: deployJobOnNode_def)
  next
    case (Inr nd)
    with Pair op neq label_and_patch_panic [OF K, of env shim nd] show ?thesis
      by (cases "resolveArtifactForNode shim nd") (auto simp: deployJobOnNode_def Let_def)
  qed
qed

lemma rollout_log:
  assumes K: "kube_helpers K"
    and run: "rollout (logging K) env shim nodes errs (c, l) = (Ret errs', (c', l'))"
  shows "\<exists>ts. l' = l @ concat (map snd ts) \<and> errs' = errs @ map fst ts
    \<and> list_all2 (\<lambda>n (e, log). deploy_trace (shim_Name shim) (node_Name n) INSTALL ProvisioningStatusPending e log)
        (filter (needs_install shim) nodes) ts"
  using run
proof (induction nodes arbitrary: errs c l)
  case Nil
  then show ?case by simp
next
  case (Cons node nodes)
  show ?case
  proof (cases "needs_install shim node")
    case False
    with Cons show ?thesis by simp
  next
    case True
    with Cons.prems obtain e c1 l1 where dep: "deployJobOnNode (logging K) env shim node INSTALL (c, l) = (Ret e, (c1, l1))"
      and rest: "rollout (logging K) env shim nodes (errs @ [e]) (c1, l1) = (Ret errs', (c', l'))"
      by (auto split: prod.splits outcome.splits)
    from deployJobOnNode_log [OF K _ dep, of ProvisioningStatusPending] obtain log where log: "l1 = l @ log"
      "deploy_trace (shim_Name shim) (node_Name node) INSTALL ProvisioningStatusPending e log" by auto
    from Cons.IH [OF rest] obtain ts where "l' = l1 @ concat (map snd ts)" "errs' = (errs @ [e]) @ map fst ts"
      "list_all2 (\<lambda>n (e, log). deploy_trace (shim_Name shim) (node_Name n) INSTALL ProvisioningStatusPending e log)
        (filter (needs_install shim) nodes) ts" by blast
    with log True show ?thesis by (intro exI [of _ "(e, log) # ts"]) simp
  qed
qed

lemma handleInstallShim_log:
  assumes K: "kube_helpers K"
    and run: "handleInstallShim (logging K) env shim nodes (c, l) = (Ret err, (c', l'))"
    and strategy: "rs_Type (RolloutStrategy_of (Spec shim)) \<noteq> RolloutStrategyTypeRolling"
  shows "\<exists>ts. l' = l @ concat (map snd ts) \<and> err = errors_Join (map fst ts)
    \<and> list_all2 (\<lambda>n (e, log). deploy_trace (shim_Name shim) (node_Name n) INSTALL ProvisioningStatusPending e log)
        (filter (needs_install shim) nodes) ts"
proof -
  obtain errs where "rollout (logging K) env shim nodes [] (c, l) = (Ret errs, (c', l'))" "err = errors_Join errs"
    using run strategy by (auto simp: handleInstallShim_def recreateStrategyRollout_def Let_def split: prod.splits outcome.splits if_splits)
  with rollout_log [OF K this(1)] show ?thesis by auto
qed

lemma handleDeleteShim_log:
  assumes K: "kube_helpers K"
    and run: "handleDeleteShim (logging K) env shim nodes (c, l) = (Ret err, (c', l'))"
  shows "\<exists>ts rest. l' = l @ concat (map snd ts)
    \<and> (\<exists>pre. filter (\<lambda>n. has_label n (shim_Name shim)) nodes = pre @ rest
        \<and> list_all2 (\<lambda>n (e, log). deploy_trace (shim_Name shim) (node_Name n) UNINSTALL UNINSTALL e log) pre ts)
    \<and> (err = None \<longrightarrow> rest = [] \<and> (\<forall>(e, log) \<in> set ts. k_IgnoreNotFound K e = None))
    \<and> (err \<noteq> None \<longrightarrow> ts \<noteq> [] \<and> fst (last ts) = err \<and> k_IgnoreNotFound K err \<noteq> None)"
  using run
proof (induction nodes arbitrary: c l)
  case Nil
  then show ?case by simp
next
  case (Cons node nodes)
  let ?tr = "\<lambda>n (e, log). deploy_trace (shim_Name shim) (node_Name n) UNINSTALL UNINSTALL e log"
  show ?case
  proof (cases "has_label node (shim_Name shim)")
    case False
    with Cons show ?thesis by simp
  next
    case True
    with Cons.prems obtain e c1 l1 where dep: "deployJobOnNode (logging K) env shim node UNINSTALL (c, l) = (Ret e, (c1, l1))"
      by (auto split: prod.splits outcome.splits)
    from deployJobOnNode_log [OF K _ dep, of UNINSTALL] obtain log where log: "l1 = l @ log"
      "deploy_trace (shim_Name shim) (node_Name node) UNINSTALL UNINSTALL e log" by auto
    show ?thesis
    proof (cases "k_IgnoreNotFound K e")
      case (Some x)
      with Cons.prems True dep have "err = e" "l' = l1" by (simp_all add: logging_sel)
      moreover from Some have "e \<noteq> None" using kube_helpers.IgnoreNotFound_None [OF K] by (metis option.distinct(1))
      ultimately show ?thesis using Some True log
        by (intro exI [of _ "[(e, log)]"] exI [of _ "filter (\<lambda>n. has_label n (shim_Name shim)) nodes"])
           (auto intro!: exI [of _ "[node]"])
    next
      case None
      with Cons.prems True dep have "handleDeleteShim (logging K) env shim nodes (c1, l1) = (Ret err, (c', l'))"
        by (simp add: logging_sel)
      from Cons.IH [OF this] obtain ts rest pre where ih: "l' = l1 @ concat (map snd ts)"
        "filter (\<lambda>n. has_label n (shim_Name shim)) nodes = pre @ rest" "list_all2 ?tr pre ts"
        "err = None \<longrightarrow> rest = [] \<and> (\<forall>(e, log) \<in> set ts. k_IgnoreNotFound K e = None)"
        "err \<noteq> None \<longrightarrow> ts \<noteq> [] \<and> fst (last ts) = err \<and> k_IgnoreNotFound K err \<noteq> None" by blast
      then show ?thesis using True log None
        by (intro exI [of _ "(e, log) # ts"] exI [of _ rest]) (auto intro!: exI [of _ "node # pre"])
    qed
  qed
qed

text \<open>
  The same operations may panic in the middle. Whatever their outcome, they only read and label
  nodes and send jobs, and the jobs are for the nodes they are meant for.
\<close>

fun job_event :: "(Job \<Rightarrow> bool) \<Rightarrow> call \<Rightarrow> bool" where
  "job_event P (PatchedJob job b) = P job"
| "job_event P (GotNode n b) = True"
| "job_event P (UpdatedNode n b) = True"
| "job_event P _ = False"

lemma job_event_mono: "job_event P ev \<Longrightarrow> (\<And>j. P j \<Longrightarrow> Q j) \<Longrightarrow> job_event Q ev"
  by (cases ev) auto

lemma deploy_trace_events:
  "deploy_trace shim node op status err log \<Longrightarrow> \<forall>ev \<in> set log. job_event (\<lambda>j. job_for j shim node op) ev"
  by (erule deploy_traceE) (auto elim!: label_traceE)

lemma deployJobOnNode_events:
  assumes K: "kube_helpers K" and op: "op = INSTALL \<or> op = UNINSTALL"
    and run: "deployJobOnNode (logging K) env shim node op (c, l) = (r, (c', l'))"
  shows "\<exists>log. l' = l @ log \<and> (\<forall>ev \<in> set log. job_event (\<lambda>j. job_for j (shim_Name shim) (node_Name node) op) ev)"
proof (cases r)
  case (Ret err)
  with deployJobOnNode_log [OF K, of op "if op = INSTALL then ProvisioningStatusPending else UNINSTALL" env shim node c l err c' l'] op run
  obtain log where "l' = l @ log" "deploy_trace (shim_Name shim) (node_Name node) op
      (if op = INSTALL then ProvisioningStatusPending else UNINSTALL) err log"
    by (auto simp: INSTALL_def UNINSTALL_def)
  then show ?thesis using deploy_trace_events by blast
next
  case (Panic m)
  let ?key = "\<lparr>nn_Name = node_Name node, nn_Namespace = []\<rparr>"
  from Panic run deployJobOnNode_panic [OF kube_helpers_logging [OF K] op, of env shim node "(c, l)"]
  obtain nd cl where get: "k_GetNode (logging K) ?key (c, l) = (Inr nd, cl)" and nil: "om_Labels (node_meta nd) = None" by blast
  have "label_and_patch (logging K) env shim nd st op a cl = (Panic ''assignment to entry in nil map'', cl)" for st a
    using nil by (simp add: label_and_patch_def updateNodeLabels_def map_set_def)
  then have "(c', l') = cl"
    using run get op Panic by (auto simp: deployJobOnNode_def Let_def INSTALL_def UNINSTALL_def split: sum.splits)
  then show ?thesis using get
    by (auto simp: logging_sel log_sum_eq split: prod.splits)
qed

lemma rollout_events:
  assumes K: "kube_helpers K"
    and run: "rollout (logging K) env shim nodes errs (c, l) = (r, (c', l'))"
  shows "\<exists>log. l' = l @ log \<and> (\<forall>ev \<in> set log.
    job_event (\<lambda>j. \<exists>n \<in> set nodes. needs_install shim n \<and> job_for j (shim_Name shim) (node_Name n) INSTALL) ev)"
  using run
proof (induction nodes arbitrary: errs c l)
  case Nil
  then show ?case by simp
next
  case (Cons node nodes)
  let ?P = "\<lambda>ns j. \<exists>n \<in> set ns. needs_install shim n \<and> job_for j (shim_Name shim) (node_Name n) INSTALL"
  have mono: "job_event (?P nodes) ev \<Longrightarrow> job_event (?P (node # nodes)) ev" for ev
    by (erule job_event_mono) auto
  show ?case
  proof (cases "needs_install shim node")
    case False
    with Cons mono show ?thesis by simp
  next
    case True
    obtain r1 c1 l1 where dep: "deployJobOnNode (logging K) env shim node INSTALL (c, l) = (r1, (c1, l1))"
      by (metis surj_pair)
    from deployJobOnNode_events [OF K _ dep] obtain log where log: "l1 = l @ log"
      "\<forall>ev \<in> set log. job_event (\<lambda>j. job_for j (shim_Name shim) (node_Name node) INSTALL) ev" by auto
    have here: "\<forall>ev \<in> set log. job_event (?P (node # nodes)) ev"
      using log(2) True job_event_mono [where P = "\<lambda>j. job_for j (shim_Name shim) (node_Name node) INSTALL"
        and Q = "?P (node # nodes)"] by auto
    show ?thesis
    proof (cases r1)
      case (Panic m)
      with Cons.prems True dep log(1) here show ?thesis by auto
    next
      case (Ret e)
      with Cons.prems True dep have "rollout (logging K) env shim nodes (errs @ [e]) (c1, l1) = (r, (c', l'))" by simp
      from Cons.IH [OF this] obtain log2 where "l' = l1 @ log2" "\<forall>ev \<in> set log2. job_event (?P nodes) ev" by blast
      with log(1) here mono show ?thesis by (intro exI [of _ "log @ log2"]) (auto simp del: set_simps)
    qed
  qed
qed

lemma handleDeleteShim_events:
  assumes K: "kube_helpers K"
    and run: "handleDeleteShim (logging K) env shim nodes (c, l) = (r, (c', l'))"
  shows "\<exists>log. l' = l @ log \<and> (\<forall>ev \<in> set log.
    job_event (\<lambda>j. \<exists>n \<in> set nodes. has_label n (shim_Name shim) \<and> job_for j (shim_Name shim) (node_Name n) UNINSTALL) ev)"
  using run
proof (induction nodes arbitrary: c l)
  case Nil
  then show ?case by simp
next
  case (Cons node nodes)
  let ?P = "\<lambda>ns j. \<exists>n \<in> set ns. has_label n (shim_Name shim) \<and> job_for j (shim_Name shim) (node_Name n) UNINSTALL"
  have mono: "job_event (?P nodes) ev \<Longrightarrow> job_event (?P (node # nodes)) ev" for ev
    by (erule job_event_mono) auto
  show ?case
  proof (cases "has_label node (shim_Name shim)")
    case False
    with Cons mono show ?thesis by simp
  next
    case True
    obtain r1 c1 l1 where dep: "deployJobOnNode (logging K) env shim node UNINSTALL (c, l) = (r1, (c1, l1))"
      by (metis surj_pair)
    from deployJobOnNode_events [OF K _ dep] obtain log where log: "l1 = l @ log"
      "\<forall>ev \<in> set log. job_event (\<lambda>j. job_for j (shim_Name shim) (node_Name node) UNINSTALL) ev" by auto
    have here: "\<forall>ev \<in> set log. job_event (?P (node # nodes)) ev"
      using log(2) True job_event_mono [where P = "\<lambda>j. job_for j (shim_Name shim) (node_Name node) UNINSTALL"
        and Q = "?P (node # nodes)"] by auto
    consider "l' = l1" | "handleDeleteShim (logging K) env shim nodes (c1, l1) = (r, (c', l'))"
      using Cons.prems True dep by (auto split: outcome.splits if_splits)
    then show ?thesis
    proof cases
      case 1
      with log(1) here show ?thesis by auto
    next
      case 2
      from Cons.IH [OF this] obtain log2 where "l' = l1 @ log2" "\<forall>ev \<in> set log2. job_event (?P nodes) ev" by blast
      with log(1) here mono show ?thesis by (intro exI [of _ "log @ log2"]) (auto simp del: set_simps)
    qed
  qed
qed

end
