(* ===== verification/Job_Controller.thy ===== *)
theory Job_Controller
  imports Kube_Client
begin

text \<open>
  The reconciler of jobs, \<open>internal/controller/job_controller.go\<close>: it reports the outcome of an
  install or uninstall job as a label of the node. Operations take the client and the state of
  the cluster, as in \<open>Shim_Controller\<close>.
\<close>

section \<open>The model\<close>

definition JobComplete :: string where "JobComplete = ''Complete''"
definition JobFailed :: string where "JobFailed = ''Failed''"
definition JobFailureTarget :: string where "JobFailureTarget = ''FailureTarget''"
definition JobSuspended :: string where "JobSuspended = ''Suspended''"

definition isJobFinished :: "Job \<Rightarrow> bool \<times> string" where
  "isJobFinished job =
     (case find (\<lambda>c. (jc_Type c = JobComplete \<or> jc_Type c = JobFailed) \<and> jc_Status c = ''True'') (job_Conditions job) of
        Some c \<Rightarrow> (True, jc_Type c)
      | None \<Rightarrow> (False, []))"

definition getNode :: "'c kube \<Rightarrow> string \<Rightarrow> 'c \<Rightarrow> (Node \<times> error option) \<times> 'c" where
  "getNode K nodeName c =
     (case k_GetNode K \<lparr>nn_Name = nodeName, nn_Namespace = []\<rparr> c of
        (Inl err, c1) \<Rightarrow> ((new_Node, k_IgnoreNotFound K (Some err)), c1)
      | (Inr node, c1) \<Rightarrow> ((node, None), c1))"

definition job_updateNodeLabels :: "'c kube \<Rightarrow> Node \<Rightarrow> string \<Rightarrow> string \<Rightarrow> 'c \<Rightarrow> error option outcome \<times> 'c" where
  "job_updateNodeLabels K node shimName status c =
     (case map_set (om_Labels (node_meta node)) shimName status of
        Panic m \<Rightarrow> (Panic m, c)
      | Ret labels \<Rightarrow>
          (case k_UpdateNode K (with_labels node labels) c of
             (Inl err, c1) \<Rightarrow> (Ret (Some (Wrap ''failed to update node labels'' err)), c1)
           | (Inr _, c1) \<Rightarrow> (Ret None, c1)))"

definition deleteNodeLabel :: "'c kube \<Rightarrow> Node \<Rightarrow> string \<Rightarrow> 'c \<Rightarrow> error option \<times> 'c" where
  "deleteNodeLabel K node shimName c =
     (case k_UpdateNode K (with_labels node (map_delete (om_Labels (node_meta node)) shimName)) c of
        (Inl err, c1) \<Rightarrow> (Some (Wrap ''failed to delete node labels'' err), c1)
      | (Inr _, c1) \<Rightarrow> (None, c1))"

text \<open>
  The errors of the two updates are logged and dropped. \<open>ignoring\<close> keeps a panic.
\<close>

definition ignoring :: "error option outcome \<times> 'c \<Rightarrow> error option outcome \<times> 'c" where
  "ignoring rc = (case rc of (Panic m, c) \<Rightarrow> (Panic m, c) | (Ret _, c) \<Rightarrow> (Ret None, c))"

definition report :: "'c kube \<Rightarrow> Job \<Rightarrow> Node \<Rightarrow> string \<Rightarrow> 'c \<Rightarrow> error option outcome \<times> 'c" where
  "report K job node shimName c =
     (let finishedType = snd (isJobFinished job) in
      if finishedType = [] then (Ret None, c)
      else if finishedType = JobFailed then ignoring (job_updateNodeLabels K node shimName ''failed'' c)
      else if finishedType = JobFailureTarget then ignoring (job_updateNodeLabels K node shimName ''failed'' c)
      else if finishedType = JobComplete then
        (let installOrUninstall = (case map_get (om_Annotations (job_meta job)) ''spinkube.dev/operation'' of None \<Rightarrow> [] | Some v \<Rightarrow> v) in
         if installOrUninstall = INSTALL then ignoring (job_updateNodeLabels K node shimName ''provisioned'' c)
         else if installOrUninstall = UNINSTALL then (Ret None, snd (deleteNodeLabel K node shimName c))
         else (Ret None, c))
      else if finishedType = JobSuspended then (Ret None, c)
      else (Ret None, c))"

definition job_Reconcile :: "'c kube \<Rightarrow> NamespacedName \<Rightarrow> 'c \<Rightarrow> error option outcome \<times> 'c" where
  "job_Reconcile K req c =
     (case k_GetJob K req c of
        (Inl err, c1) \<Rightarrow>
          if k_IsNotFound K err then (Ret None, c1) else (Ret (Some (Wrap ''failed to get Job'' err)), c1)
      | (Inr job, c1) \<Rightarrow>
          (case map_get (om_Labels (job_meta job)) ''spinkube.dev/shimName'' of
             None \<Rightarrow> (Ret None, c1)
           | Some shimName \<Rightarrow>
               (case getNode K (pod_NodeName (job_Pod job)) c1 of
                  ((node, Some err), c2) \<Rightarrow> (Ret (Some err), c2)
                | ((node, None), c2) \<Rightarrow> report K job node shimName c2)))"

lemmas job_type_defs = JobComplete_def JobFailed_def JobFailureTarget_def JobSuspended_def

section \<open>What is reported\<close>

text \<open>
  The label a finished job asks for: a value, or no label. Nothing is asked for by a job that is not
  finished or has another operation.
\<close>

definition verdict :: "Job \<Rightarrow> string option option" where
  "verdict job =
     (case find (\<lambda>c. jc_Type c \<in> {''Complete'', ''Failed''} \<and> jc_Status c = ''True'') (job_Conditions job) of
        None \<Rightarrow> None
      | Some cond \<Rightarrow>
          if jc_Type cond = ''Failed'' then Some (Some ''failed'')
          else if map_get (om_Annotations (job_meta job)) ''spinkube.dev/operation'' = Some ''install'' then Some (Some ''provisioned'')
          else if map_get (om_Annotations (job_meta job)) ''spinkube.dev/operation'' = Some ''uninstall'' then Some None
          else None)"

text \<open>The labels of the node once the verdict is applied; a value cannot be put into a nil map.\<close>

definition labels_after :: "string option \<Rightarrow> string \<Rightarrow> string gomap \<Rightarrow> string gomap outcome" where
  "labels_after v shimName labels =
     (case v of Some status \<Rightarrow> map_set labels shimName status | None \<Rightarrow> Ret (map_delete labels shimName))"

lemma isJobFinished_types:
  "snd (isJobFinished job) \<in> {[], ''Complete'', ''Failed''}"
  by (auto simp: isJobFinished_def job_type_defs find_Some_split split: option.splits)

lemma report_verdict:
  "report K job node shimName c =
     (case verdict job of
        None \<Rightarrow> (Ret None, c)
      | Some v \<Rightarrow>
          (case labels_after v shimName (om_Labels (node_meta node)) of
             Panic m \<Rightarrow> (Panic m, c)
           | Ret labels \<Rightarrow> (Ret None, snd (k_UpdateNode K (with_labels node labels) c))))"
proof -
  have set: "ignoring (job_updateNodeLabels K node shimName status c) =
      (case map_set (om_Labels (node_meta node)) shimName status of
         Panic m \<Rightarrow> (Panic m, c) | Ret labels \<Rightarrow> (Ret None, snd (k_UpdateNode K (with_labels node labels) c)))" for status
    by (auto simp: ignoring_def job_updateNodeLabels_def split: outcome.split prod.split sum.split)
  have del: "snd (deleteNodeLabel K node shimName c) =
      snd (k_UpdateNode K (with_labels node (map_delete (om_Labels (node_meta node)) shimName)) c)"
    by (auto simp: deleteNodeLabel_def split: prod.split sum.split)
  let ?P = "\<lambda>c. jc_Type c \<in> {''Complete'', ''Failed''} \<and> jc_Status c = ''True''"
  have find: "find (\<lambda>c. (jc_Type c = JobComplete \<or> jc_Type c = JobFailed) \<and> jc_Status c = ''True'') xs = find ?P xs" for xs
    by (rule find_cong) (auto simp: job_type_defs)
  show ?thesis
  proof (cases "find ?P (job_Conditions job)")
    case None
    then show ?thesis by (simp add: report_def isJobFinished_def verdict_def find del: find_None_iff)
  next
    case (Some cond)
    then have "jc_Type cond = ''Complete'' \<or> jc_Type cond = ''Failed''" by (auto simp: find_Some_split)
    then show ?thesis
      using Some
      by (auto simp: report_def isJobFinished_def verdict_def find set del labels_after_def job_type_defs INSTALL_def UNINSTALL_def Let_def
        split: option.split)
  qed
qed

lemma labels_after_get:
  assumes "labels_after v shimName labels = Ret labels'"
  shows "map_get labels' k = (if k = shimName then v else map_get labels k)"
  using assms map_set_Ret [of labels shimName _ labels'] map_get_delete [of labels shimName]
  by (auto simp: labels_after_def split: option.splits)

section \<open>Properties\<close>

text \<open>
  C23. What the reconciler does with a job of a shim whose node exists: nothing for a job that is not
  finished (or has another operation), one update of the node otherwise. The update changes
  only the label of the shim: \<open>failed\<close> for a failed job, \<open>provisioned\<close> for a completed install job, no
  label for a completed uninstall job. It never returns an error, even if the update fails, and it
  panics exactly when a value is to be put into the labels of a node that has none.
\<close>

theorem job_Reconcile_reports:
  assumes "k_GetJob K req c = (Inr job, c1)" "map_get (om_Labels (job_meta job)) ''spinkube.dev/shimName'' = Some shimName"
    "k_GetNode K \<lparr>nn_Name = pod_NodeName (job_Pod job), nn_Namespace = []\<rparr> c1 = (Inr node, c2)"
  shows "(verdict job = None \<longrightarrow> job_Reconcile K req c = (Ret None, c2))
    \<and> (\<forall>v. verdict job = Some v \<and> (om_Labels (node_meta node) \<noteq> None \<or> v = None) \<longrightarrow>
         (\<exists>labels. (\<forall>k. map_get labels k = (if k = shimName then v else map_get (om_Labels (node_meta node)) k))
            \<and> job_Reconcile K req c = (Ret None, snd (k_UpdateNode K (with_labels node labels) c2))))
    \<and> (\<forall>status. verdict job = Some (Some status) \<and> om_Labels (node_meta node) = None \<longrightarrow>
         (\<exists>m. job_Reconcile K req c = (Panic m, c2)))"
proof -
  have run: "job_Reconcile K req c = report K job node shimName c2"
    using assms by (simp add: job_Reconcile_def getNode_def)
  have ok: "\<exists>labels. labels_after v shimName (om_Labels (node_meta node)) = Ret labels"
    if "om_Labels (node_meta node) \<noteq> None \<or> v = None" for v
    using that by (cases v) (auto simp: labels_after_def map_set_def)
  have "\<exists>labels. (\<forall>k. map_get labels k = (if k = shimName then v else map_get (om_Labels (node_meta node)) k))
            \<and> job_Reconcile K req c = (Ret None, snd (k_UpdateNode K (with_labels node labels) c2))"
    if verd: "verdict job = Some v" and lab: "om_Labels (node_meta node) \<noteq> None \<or> v = None" for v
  proof -
    obtain labels where labels: "labels_after v shimName (om_Labels (node_meta node)) = Ret labels" using ok [OF lab] by blast
    then have "job_Reconcile K req c = (Ret None, snd (k_UpdateNode K (with_labels node labels) c2))"
      by (simp add: run report_verdict verd)
    with labels_after_get [OF labels] show ?thesis by blast
  qed
  then show ?thesis by (auto simp: run report_verdict labels_after_def map_set_def)
qed

text \<open>
  A finished job whose node does not exist any more: \<open>getNode\<close> yields an empty node without an
  error, so reporting a value panics, again on every retry.
\<close>

lemma job_Reconcile_node_gone:
  assumes "kube_helpers K" "k_GetJob K req c = (Inr job, c1)"
    "map_get (om_Labels (job_meta job)) ''spinkube.dev/shimName'' = Some shimName" "verdict job = Some (Some status)"
    "k_GetNode K \<lparr>nn_Name = pod_NodeName (job_Pod job), nn_Namespace = []\<rparr> c1 = (Inl ApiNotFound, c2)"
  shows "\<exists>m. job_Reconcile K req c = (Panic m, c2)"
  using assms kube_helpers.IgnoreNotFound_Some [OF assms(1), of ApiNotFound] kube_helpers.IsNotFound_NotFound [OF assms(1)]
  by (simp add: job_Reconcile_def getNode_def report_verdict labels_after_def map_set_def new_Node_def new_meta_def)

section \<open>Witnesses\<close>

definition demo_Job :: "string \<Rightarrow> string \<Rightarrow> Job" where
  "demo_Job op cond =
     \<lparr>job_APIVersion = ''batch/v1'', job_Kind = ''Job'',
      job_meta = new_meta\<lparr>om_Name := ''n1-spin'', om_Labels := Some [(''spinkube.dev/shimName'', ''spin'')],
        om_Annotations := Some [(''spinkube.dev/operation'', op)]\<rparr>,
      job_Pod = \<lparr>pod_NodeName = ''n1'', pod_HostPID = True, pod_Volumes = [], pod_InitContainers = [], pod_Containers = [],
        pod_RestartPolicy = ''Never''\<rparr>,
      job_TTL = None, job_Conditions = [\<lparr>jc_Type = cond, jc_Status = ''True''\<rparr>]\<rparr>"

definition demo_Node1 :: Node where
  "demo_Node1 = \<lparr>node_meta = new_meta\<lparr>om_Name := ''n1'', om_Labels := Some [(''arch'', ''amd64''), (''spin'', ''pending'')]\<rparr>,
     OperatingSystem = ''linux'', Architecture = ''amd64''\<rparr>"

definition demo_cluster :: "Node list \<Rightarrow> server" where
  "demo_cluster ns = \<lparr>srv_shims = [], srv_nodes = ns, srv_jobs = [demo_Job ''install'' ''Complete''], srv_classes = [], srv_refused = []\<rparr>"

definition demo_key :: NamespacedName where
  "demo_key = \<lparr>nn_Name = ''n1-spin'', nn_Namespace = []\<rparr>"

lemma demo_reads:
  "k_GetJob mem_kube demo_key (demo_cluster ns) = (Inr (demo_Job ''install'' ''Complete''), demo_cluster ns)"
  "k_GetNode mem_kube \<lparr>nn_Name = pod_NodeName (job_Pod (demo_Job ''install'' ''Complete'')), nn_Namespace = []\<rparr> (demo_cluster [demo_Node1])
     = (Inr demo_Node1, demo_cluster [demo_Node1])"
  "k_GetNode mem_kube \<lparr>nn_Name = pod_NodeName (job_Pod (demo_Job ''install'' ''Complete'')), nn_Namespace = []\<rparr> (demo_cluster [])
     = (Inl ApiNotFound, demo_cluster [])"
  "map_get (om_Labels (job_meta (demo_Job ''install'' ''Complete''))) ''spinkube.dev/shimName'' = Some ''spin''"
  by (simp_all add: mem_kube_def find_by_def demo_cluster_def demo_key_def demo_Job_def demo_Node1_def new_meta_def map_get_Some)

lemma demo_verdict: "verdict (demo_Job ''install'' ''Complete'') = Some (Some ''provisioned'')"
  by code_simp

theorem job_Reconcile_reports_witness:
  "\<exists>labels. map_get labels ''spin'' = Some ''provisioned'' \<and> map_get labels ''arch'' = Some ''amd64''
     \<and> job_Reconcile mem_kube demo_key (demo_cluster [demo_Node1])
         = (Ret None, snd (k_UpdateNode mem_kube (with_labels demo_Node1 labels) (demo_cluster [demo_Node1])))"
proof -
  have "om_Labels (node_meta demo_Node1) \<noteq> None" and arch: "map_get (om_Labels (node_meta demo_Node1)) ''arch'' = Some ''amd64''"
    by code_simp+
  with job_Reconcile_reports [OF demo_reads(1) [of "[demo_Node1]"] demo_reads(4,2), THEN conjunct2, THEN conjunct1]
    demo_verdict obtain labels where
      get: "\<forall>k. map_get labels k = (if k = ''spin'' then Some ''provisioned'' else map_get (om_Labels (node_meta demo_Node1)) k)"
      and run: "job_Reconcile mem_kube demo_key (demo_cluster [demo_Node1])
         = (Ret None, snd (k_UpdateNode mem_kube (with_labels demo_Node1 labels) (demo_cluster [demo_Node1])))"
    by blast
  from get arch have "map_get labels ''spin'' = Some ''provisioned''" "map_get labels ''arch'' = Some ''amd64''" by simp_all
  with run show ?thesis by blast
qed

lemma job_Reconcile_node_gone_example:
  "\<exists>m. job_Reconcile mem_kube demo_key (demo_cluster []) = (Panic m, demo_cluster [])"
  by (rule job_Reconcile_node_gone [OF mem_kube.kube_helpers_axioms demo_reads(1,4) demo_verdict demo_reads(3)])

end
