(* ===== verification/Kube_Invariant.thy ===== *)
theory Kube_Invariant
  imports Shim_Controller Job_Controller
begin

text \<open>
  Invariants of the cluster through the code of the reconcilers. \<open>kube_inv\<close> is what a client and an
  invariant have to promise so that both reconcilers keep the invariant; theory \<open>Cluster\<close> interprets it
  on the API server in memory and on the replay of a run.
\<close>

section \<open>Invariants through calls\<close>

text \<open>
  \<open>triple I f Q\<close>: from a state with \<open>I\<close>, the operation ends in a state with \<open>I\<close> and a result with \<open>Q\<close>.
\<close>

definition triple :: "('c \<Rightarrow> bool) \<Rightarrow> ('c \<Rightarrow> 'r \<times> 'c) \<Rightarrow> ('r \<Rightarrow> bool) \<Rightarrow> bool" where
  "triple I f Q \<longleftrightarrow> (\<forall>c. I c \<longrightarrow> I (snd (f c)) \<and> Q (fst (f c)))"

lemma tripleD: "triple I f Q \<Longrightarrow> I c \<Longrightarrow> f c = (r, c') \<Longrightarrow> I c' \<and> Q r"
  by (simp add: triple_def) (metis fst_conv snd_conv)

lemma triple_ret: "Q r \<Longrightarrow> triple I (\<lambda>c. (r, c)) Q"
  by (simp add: triple_def)

text \<open>To use the definition \<open>f c = g c\<close> of an operation.\<close>

lemma triple_def_of: "(\<And>c. f c = g c) \<Longrightarrow> triple I g Q \<Longrightarrow> triple I f Q"
  by (simp add: triple_def)

lemma triple_bind:
  "triple I f P \<Longrightarrow> (\<And>r. P r \<Longrightarrow> triple I (g r) Q) \<Longrightarrow> triple I (\<lambda>c. case f c of (r, c') \<Rightarrow> g r c') Q"
  by (auto simp: triple_def split: prod.split)

lemma triple_weaken: "triple I f P \<Longrightarrow> (\<And>r. P r \<Longrightarrow> Q r) \<Longrightarrow> triple I f Q"
  by (simp add: triple_def)

abbreviation keeps :: "('c \<Rightarrow> bool) \<Rightarrow> ('c \<Rightarrow> 'r \<times> 'c) \<Rightarrow> bool" where
  "keeps I f \<equiv> triple I f (\<lambda>_. True)"

text \<open>A result that is an error, or a value with a property.\<close>

definition okays :: "('a \<Rightarrow> bool) \<Rightarrow> 'e + 'a \<Rightarrow> bool" where
  "okays P r = (case r of Inl _ \<Rightarrow> True | Inr x \<Rightarrow> P x)"

lemma okays_simps [simp]: "okays P (Inl e)" "okays P (Inr x) = P x"
  by (simp_all add: okays_def)

definition rets :: "('a \<Rightarrow> bool) \<Rightarrow> 'a outcome \<Rightarrow> bool" where
  "rets P r = (case r of Panic _ \<Rightarrow> True | Ret x \<Rightarrow> P x)"

lemma rets_simps [simp]: "rets P (Panic m)" "rets P (Ret x) = P x"
  by (simp_all add: rets_def)

lemma triple_bind_sum:
  assumes "triple I f (okays P)" "\<And>e. triple I (h e) Q" "\<And>x. P x \<Longrightarrow> triple I (g x) Q"
  shows "triple I (\<lambda>c. case f c of (Inl e, c') \<Rightarrow> h e c' | (Inr x, c') \<Rightarrow> g x c') Q"
  using assms(2,3) by (intro triple_bind [OF assms(1)]) (auto simp: okays_def split: sum.split sum.split_asm)

lemma triple_bind_outcome:
  assumes "triple I f (rets P)" "\<And>m. triple I (h m) Q" "\<And>x. P x \<Longrightarrow> triple I (g x) Q"
  shows "triple I (\<lambda>c. case f c of (Panic m, c') \<Rightarrow> h m c' | (Ret x, c') \<Rightarrow> g x c') Q"
  using assms(2,3) by (intro triple_bind [OF assms(1)]) (auto simp: rets_def split: outcome.split outcome.split_asm)

lemma triple_bind_option:
  assumes "keeps I f" "triple I g Q" "\<And>e. triple I (h e) Q"
  shows "triple I (\<lambda>c. case f c of (None, c') \<Rightarrow> g c' | (Some e, c') \<Rightarrow> h e c') Q"
  using assms(2,3) by (intro triple_bind [OF assms(1)]) (auto simp: triple_def split: option.split)

lemma keeps_sum: "keeps I f = triple I f (okays (\<lambda>_. True))"
  by (simp add: triple_def okays_def split: sum.split)

lemma keeps_outcome: "keeps I f = triple I f (rets (\<lambda>_. True))"
  by (rule arg_cong [where f = "triple I f"]) (auto simp: fun_eq_iff rets_def split: outcome.split)

lemma keeps_weaken: "triple I f Q \<Longrightarrow> keeps I f"
  by (simp add: triple_def)

lemma keeps_bind:
  "triple I f P \<Longrightarrow> (\<And>r. keeps I (g r)) \<Longrightarrow> keeps I (\<lambda>c. case f c of (r, c') \<Rightarrow> g r c')"
  by (rule triple_bind) simp_all

lemma triple_if: "triple I f Q \<Longrightarrow> triple I g Q \<Longrightarrow> triple I (\<lambda>c. if b then f c else g c) Q"
  by (cases b) simp_all

lemma triple_case_sum:
  "(\<And>e. triple I (f e) Q) \<Longrightarrow> (\<And>x. r = Inr x \<Longrightarrow> triple I (g x) Q) \<Longrightarrow> triple I (\<lambda>c. case r of Inl e \<Rightarrow> f e c | Inr x \<Rightarrow> g x c) Q"
  by (cases r) simp_all

section \<open>What a client and an invariant promise\<close>

text \<open>The container of a job is told the operation and the shim that the label and the annotation name.\<close>

definition consistent :: "Job \<Rightarrow> bool" where
  "consistent j \<longleftrightarrow> (\<exists>op s ctr. pod_Containers (job_Pod j) = [ctr] \<and> ctr_Args ctr = [op, ''-H'', ''/mnt/node-root'', ''-r'', s]
     \<and> map_get (om_Labels (job_meta j)) ''spinkube.dev/shimName'' = Some s
     \<and> map_get (om_Annotations (job_meta j)) ''spinkube.dev/operation'' = Some op)"

lemma createJobManifest_consistent:
  assumes "kube_helpers K" "createJobManifest K env shim node op artifact = Inr job" "op = INSTALL \<or> op = UNINSTALL"
  shows "consistent job"
  using createJobManifest_cases [OF assms(1,2)] assms(3)
  by (auto simp: consistent_def provisioner_def setOperationConfiguration_def Let_def INSTALL_def UNINSTALL_def)


locale kube_inv = kube_helpers K for K :: "'c kube" +
  fixes I :: "'c \<Rightarrow> bool" and good :: "Node \<Rightarrow> bool" and okjob :: "Job \<Rightarrow> bool"
  assumes GetShim_inv: "keeps I (k_GetShim K n)"
    and GetRuntimeClass_inv: "keeps I (k_GetRuntimeClass K n)"
    and ListNodes_inv: "keeps I (k_ListNodes K sel)"
    and UpdateShim_inv: "keeps I (k_UpdateShim K s)"
    and PatchRuntimeClass_inv: "keeps I (k_PatchRuntimeClass K rc data)"
    and GetNode_inv: "triple I (k_GetNode K n) (okays good)"
    and GetJob_inv: "triple I (k_GetJob K n) (okays okjob)"
    and UpdateNode_inv: "good nd \<Longrightarrow> triple I (k_UpdateNode K nd) (okays good)"
    and PatchJob_inv: "okjob j \<Longrightarrow> keeps I (k_PatchJob K j data)"
    and fresh_job: "job_Conditions j = [] \<Longrightarrow> consistent j \<Longrightarrow> okjob j"
    and relabel: "\<lbrakk>good nd; map_set (om_Labels (node_meta nd)) name status = Ret labels; status \<in> {''pending'', ''uninstall'', ''failed''}\<rbrakk>
      \<Longrightarrow> good (with_labels nd labels)"
    and report_label: "\<lbrakk>okjob j; map_get (om_Labels (job_meta j)) ''spinkube.dev/shimName'' = Some name; verdict j = Some v;
        good nd; node_Name nd = pod_NodeName (job_Pod j); labels_after v name (om_Labels (node_meta nd)) = Ret labels\<rbrakk>
      \<Longrightarrow> good (with_labels nd labels)"
    and new_node: "good new_Node"
begin

lemma updateNodeLabels_inv:
  assumes "good nd" "status \<in> {''pending'', ''uninstall'', ''failed''}"
  shows "triple I (updateNodeLabels K nd shim status) (rets (\<lambda>(_, nd'). good nd'))"
proof (rule triple_def_of [OF updateNodeLabels_def], cases "map_set (om_Labels (node_meta nd)) (shim_Name shim) status")
  case (Panic m)
  then show "triple I (\<lambda>c. case map_set (om_Labels (node_meta nd)) (shim_Name shim) status of Panic m \<Rightarrow> (Panic m, c)
      | Ret labels \<Rightarrow> let node1 = with_labels nd labels in
          (case k_UpdateNode K node1 c of
             (Inl err, c1) \<Rightarrow> (Ret (Some (Wrap ''failed to update node labels'' err), node1), c1)
           | (Inr node2, c1) \<Rightarrow> (Ret (None, node2), c1))) (rets (\<lambda>(_, nd'). good nd'))"
    by (simp add: triple_ret)
next
  case (Ret labels)
  then have "good (with_labels nd labels)" using relabel assms by blast
  then show "triple I (\<lambda>c. case map_set (om_Labels (node_meta nd)) (shim_Name shim) status of Panic m \<Rightarrow> (Panic m, c)
      | Ret labels \<Rightarrow> let node1 = with_labels nd labels in
          (case k_UpdateNode K node1 c of
             (Inl err, c1) \<Rightarrow> (Ret (Some (Wrap ''failed to update node labels'' err), node1), c1)
           | (Inr node2, c1) \<Rightarrow> (Ret (None, node2), c1))) (rets (\<lambda>(_, nd'). good nd'))"
    unfolding Let_def Ret outcome.case
    by (intro triple_bind_sum [OF UpdateNode_inv] triple_ret) simp_all
qed

lemma patch_job_inv:
  assumes "good nd" "okjob job"
  shows "keeps I (patch_job K shim nd job)"
  by (rule triple_def_of [OF patch_job_def])
     (intro triple_case_sum triple_bind_option [OF PatchJob_inv [OF assms(2)]] triple_bind_outcome [OF updateNodeLabels_inv [OF assms(1)]]
        triple_ret; simp)

lemma label_and_patch_inv:
  assumes "good nd" "status \<in> {''pending'', ''uninstall'', ''failed''}" "op = INSTALL \<or> op = UNINSTALL"
  shows "keeps I (label_and_patch K env shim nd status op artifact)"
proof (rule triple_def_of [OF label_and_patch_def], rule triple_bind_outcome [OF updateNodeLabels_inv [OF assms(1,2)]])
  fix x :: "error option \<times> Node" assume "case x of (_, nd') \<Rightarrow> good nd'"
  then show "keeps I (\<lambda>c1. case x of (_, node1) \<Rightarrow> case createJobManifest K env shim node1 op artifact of
      Inl err \<Rightarrow> (Ret (Some err), c1) | Inr job \<Rightarrow> patch_job K shim node1 job c1)"
    using fresh_job createJobManifest_cases [OF kube_helpers_axioms] createJobManifest_consistent [OF kube_helpers_axioms _ assms(3)]
    by (cases x) (auto intro!: triple_case_sum triple_ret patch_job_inv)
qed (simp add: triple_ret)

lemma deployJobOnNode_inv: "keeps I (deployJobOnNode K env shim node op)"
proof (rule triple_def_of [OF deployJobOnNode_def], rule triple_bind_sum [OF GetNode_inv])
  fix nd assume "good nd"
  then show "keeps I (\<lambda>c1. let artifact = resolveArtifactForNode shim nd in
          if op = INSTALL then
            (case artifact of
               Inl err \<Rightarrow> (Ret (Some (Wrap (''failed to resolve artifact for node '' @ node_Name nd) err)), c1)
             | Inr a \<Rightarrow> label_and_patch K env shim nd ProvisioningStatusPending INSTALL a c1)
          else if op = UNINSTALL then label_and_patch K env shim nd UNINSTALL UNINSTALL no_artifact c1
          else (Ret (Some (Msg (''invalid jobType: '' @ op))), c1))"
    unfolding Let_def
    by (intro triple_if triple_case_sum triple_ret label_and_patch_inv) (simp_all add: ProvisioningStatusPending_def UNINSTALL_def)
qed (simp add: triple_ret)

lemma rollout_inv: "keeps I (rollout K env shim nodes errs)"
proof (induction nodes arbitrary: errs)
  case (Cons node nodes)
  show ?case
    by (rule triple_def_of [OF rollout.simps(2)])
       (intro triple_if triple_bind_outcome [OF deployJobOnNode_inv [unfolded keeps_outcome]] triple_ret TrueI Cons)
qed (intro triple_def_of [OF rollout.simps(1)] triple_ret TrueI)

lemma handleDeleteShim_inv: "keeps I (handleDeleteShim K env shim nodes)"
proof (induction nodes)
  case (Cons node nodes)
  show ?case
    by (rule triple_def_of [OF handleDeleteShim.simps(2)])
       (intro triple_if triple_bind_outcome [OF deployJobOnNode_inv [unfolded keeps_outcome]] triple_ret TrueI Cons)
qed (intro triple_def_of [OF handleDeleteShim.simps(1)] triple_ret TrueI)

lemma recreateStrategyRollout_inv: "keeps I (recreateStrategyRollout K env shim nodes)"
  by (rule triple_def_of [OF recreateStrategyRollout_def])
     (intro triple_bind_outcome [OF rollout_inv [unfolded keeps_outcome]] triple_ret TrueI)

lemma handleInstallShim_inv: "keeps I (handleInstallShim K env shim nodes)"
  by (rule triple_def_of [OF handleInstallShim_def], unfold Let_def)
     (intro triple_if recreateStrategyRollout_inv triple_ret TrueI)

lemma handleDeployRuntimeClass_inv: "keeps I (handleDeployRuntimeClass K shim)"
  by (rule triple_def_of [OF handleDeployRuntimeClass_def])
     (intro triple_case_sum keeps_bind [OF PatchRuntimeClass_inv] triple_ret TrueI)

lemma getRuntimeClass_inv: "keeps I (getRuntimeClass K shim)"
  by (rule triple_def_of [OF getRuntimeClass_def])
     (intro triple_bind_sum [OF GetRuntimeClass_inv [unfolded keeps_sum]] triple_ret TrueI)

lemma runtimeClassExists_inv: "keeps I (runtimeClassExists K shim)"
  by (rule triple_def_of [OF runtimeClassExists_def])
     (intro triple_if triple_bind_sum [OF getRuntimeClass_inv [unfolded keeps_sum]] triple_ret TrueI)

lemma updateStatus_inv: "keeps I (updateStatus K shim nodes)"
  by (rule triple_def_of [OF updateStatus_def], unfold Let_def)
     (intro keeps_bind [OF UpdateShim_inv] triple_bind_sum [OF GetShim_inv [unfolded keeps_sum]] triple_ret TrueI)

lemma removeFinalizerFromShim_inv: "keeps I (removeFinalizerFromShim K shim)"
  by (rule triple_def_of [OF removeFinalizerFromShim_def], unfold Let_def)
     (intro triple_if triple_bind_sum [OF UpdateShim_inv [unfolded keeps_sum]] triple_ret TrueI)

lemma ensureFinalizerForShim_inv: "keeps I (ensureFinalizerForShim K shim f)"
  by (rule triple_def_of [OF ensureFinalizerForShim_def], unfold Let_def)
     (intro triple_if triple_bind_sum [OF UpdateShim_inv [unfolded keeps_sum]] triple_ret TrueI)

lemma getNodeList_inv: "keeps I (getNodeListFromShimsNodeSelector K shim)"
  by (rule triple_def_of [OF getNodeListFromShimsNodeSelector_def])
     (intro triple_bind_sum [OF ListNodes_inv [unfolded keeps_sum]] triple_ret TrueI)

lemma reconcile_install_inv: "keeps I (reconcile_install K env shim nodes)"
proof (rule triple_def_of [OF reconcile_install_def], rule keeps_bind [OF runtimeClassExists_inv], clarify)
  fix ex err
  have "keeps I (\<lambda>c1. if ex then (err, c1) else handleDeployRuntimeClass K shim c1)"
    by (intro triple_if triple_ret TrueI handleDeployRuntimeClass_inv)
  then show "keeps I (\<lambda>c1. case (if ex then (err, c1) else handleDeployRuntimeClass K shim c1) of (err2, c2) \<Rightarrow>
      if \<not> ex \<and> err2 \<noteq> None then (Ret err2, c2) else if nodes \<noteq> [] then handleInstallShim K env shim nodes c2 else (Ret err2, c2))"
    by (rule keeps_bind) (intro triple_if triple_ret TrueI handleInstallShim_inv)
qed

lemma reconcile_delete_inv: "keeps I (reconcile_delete K env shim nodes)"
proof (rule triple_def_of [OF reconcile_delete_def], rule keeps_bind [OF handleDeleteShim_inv])
  fix r :: "error option outcome"
  have fin: "keeps I (\<lambda>c1. case removeFinalizerFromShim K shim c1 of ((err, shim'), c2) \<Rightarrow> ((Ret (k_IgnoreNotFound K err), shim'), c2))"
    by (rule keeps_bind [OF removeFinalizerFromShim_inv]) (simp add: triple_def split: prod.split)
  show "keeps I (\<lambda>c1. case r of Panic m \<Rightarrow> ((Panic m, shim), c1) | Ret (Some err) \<Rightarrow> ((Ret (Some err), shim), c1)
      | Ret None \<Rightarrow> (case removeFinalizerFromShim K shim c1 of ((err, shim'), c2) \<Rightarrow> ((Ret (k_IgnoreNotFound K err), shim'), c2)))"
  proof (cases r)
    case (Ret err)
    with fin show ?thesis by (cases err) (simp_all add: triple_ret)
  qed (simp add: triple_ret)
qed

lemma reconcile_body_inv: "keeps I (reconcile_body K env shim)"
proof (rule triple_def_of [OF reconcile_body_def], rule triple_bind_sum [OF getNodeList_inv [unfolded keeps_sum]])
  fix nodes
  have "keeps I (\<lambda>c2. if om_DeletionTimestamp (shim_meta shim1) \<noteq> None then reconcile_delete K env shim1 nodes c2
      else (case reconcile_install K env shim1 nodes c2 of (r, c3) \<Rightarrow> ((r, shim1), c3)))" for shim1
    by (intro triple_if reconcile_delete_inv keeps_bind [OF reconcile_install_inv] triple_ret TrueI)
  then show "keeps I (\<lambda>c1. case updateStatus K shim nodes c1 of
        ((Some err, shim1), c2) \<Rightarrow> ((Ret (Some err), shim1), c2)
      | ((None, shim1), c2) \<Rightarrow>
          if om_DeletionTimestamp (shim_meta shim1) \<noteq> None then reconcile_delete K env shim1 nodes c2
          else (case reconcile_install K env shim1 nodes c2 of (r, c3) \<Rightarrow> ((r, shim1), c3)))"
    by (intro keeps_bind [OF updateStatus_inv], clarify, rename_tac err shim1, case_tac err)
       (simp_all only: prod.case option.case, simp add: triple_ret)
qed (intro triple_ret TrueI)

lemma Reconcile_inv: "keeps I (Reconcile K env req)"
proof (rule triple_def_of [OF Reconcile_def], rule triple_bind_sum [OF GetShim_inv [unfolded keeps_sum]])
  fix shim0
  have "keeps I (\<lambda>c2. (r, snd (ensureFinalizerForShim K shim RCMOperatorFinalizer c2)))" for r :: "error option outcome" and shim
    using ensureFinalizerForShim_inv by (simp add: triple_def)
  then show "keeps I (\<lambda>c1. case reconcile_body K env shim0 c1 of
      ((r, shim), c2) \<Rightarrow> (r, snd (ensureFinalizerForShim K shim RCMOperatorFinalizer c2)))"
    by (intro keeps_bind [OF reconcile_body_inv]) auto
qed (intro triple_ret TrueI)

lemma getNode_inv:
  "triple I (getNode K n) (\<lambda>(nd, err). err = None \<longrightarrow> good nd \<and> (node_Name nd = n \<or> nd = new_Node))"
proof (rule triple_def_of [OF getNode_def])
  have "triple I (k_GetNode K \<lparr>nn_Name = n, nn_Namespace = []\<rparr>) (okays (\<lambda>nd. good nd \<and> node_Name nd = n))"
    unfolding triple_def
  proof (intro allI impI)
    fix c assume c: "I c"
    obtain r c' where get: "k_GetNode K \<lparr>nn_Name = n, nn_Namespace = []\<rparr> c = (r, c')" by (meson surj_pair)
    from tripleD [OF GetNode_inv c get] have "I c'" "okays good r" by simp_all
    moreover have "node_Name nd = n" if "r = Inr nd" for nd using GetNode_name get that by fastforce
    ultimately show "I (snd (k_GetNode K \<lparr>nn_Name = n, nn_Namespace = []\<rparr> c))
        \<and> okays (\<lambda>nd. good nd \<and> node_Name nd = n) (fst (k_GetNode K \<lparr>nn_Name = n, nn_Namespace = []\<rparr> c))"
      by (cases r) (simp_all add: get)
  qed
  then show "triple I (\<lambda>c. case k_GetNode K \<lparr>nn_Name = n, nn_Namespace = []\<rparr> c of
      (Inl err, c1) \<Rightarrow> ((new_Node, k_IgnoreNotFound K (Some err)), c1) | (Inr node, c1) \<Rightarrow> ((node, None), c1))
    (\<lambda>(nd, err). err = None \<longrightarrow> good nd \<and> (node_Name nd = n \<or> nd = new_Node))"
    by (rule triple_bind_sum) (auto simp: triple_ret new_node)
qed

lemma report_inv:
  assumes "okjob job" "map_get (om_Labels (job_meta job)) ''spinkube.dev/shimName'' = Some shimName"
    "good nd" "node_Name nd = pod_NodeName (job_Pod job) \<or> nd = new_Node"
  shows "keeps I (report K job nd shimName)"
proof (cases "verdict job")
  case None
  then show ?thesis by (simp add: triple_def report_verdict)
next
  case (Some v)
  show ?thesis
  proof (cases "labels_after v shimName (om_Labels (node_meta nd))")
    case (Panic m)
    with Some show ?thesis by (simp add: triple_def report_verdict)
  next
    case (Ret labels)
    have "good (with_labels nd labels)"
    proof (cases "node_Name nd = pod_NodeName (job_Pod job)")
      case True
      then show ?thesis using report_label [OF assms(1,2) Some assms(3) True Ret] by simp
    next
      case False
      with assms(4) have "nd = new_Node" by simp
      with Ret have "labels = None" by (cases v) (simp_all add: labels_after_def new_Node_def new_meta_def map_set_def map_delete_def)
      with \<open>nd = new_Node\<close> show ?thesis using new_node by (simp add: with_labels_def new_Node_def new_meta_def)
    qed
    from UpdateNode_inv [OF this] Some Ret show ?thesis by (simp add: triple_def report_verdict)
  qed
qed

lemma job_Reconcile_inv: "keeps I (job_Reconcile K req)"
proof (rule triple_def_of [OF job_Reconcile_def], rule triple_bind_sum [OF GetJob_inv])
  fix e show "keeps I (\<lambda>c1. if k_IsNotFound K e then (Ret None, c1) else (Ret (Some (Wrap ''failed to get Job'' e)), c1))"
    by (intro triple_if triple_ret TrueI)
next
  fix job assume job: "okjob job"
  show "keeps I (\<lambda>c1. case map_get (om_Labels (job_meta job)) ''spinkube.dev/shimName'' of None \<Rightarrow> (Ret None, c1)
      | Some shimName \<Rightarrow> (case getNode K (pod_NodeName (job_Pod job)) c1 of
          ((node, Some err), c2) \<Rightarrow> (Ret (Some err), c2) | ((node, None), c2) \<Rightarrow> report K job node shimName c2))"
  proof (cases "map_get (om_Labels (job_meta job)) ''spinkube.dev/shimName''")
    case (Some shimName)
    have "keeps I (\<lambda>c2. case ne of (node, Some err) \<Rightarrow> (Ret (Some err), c2) | (node, None) \<Rightarrow> report K job node shimName c2)"
      if "case ne of (nd, err) \<Rightarrow> err = None \<longrightarrow> good nd \<and> (node_Name nd = pod_NodeName (job_Pod job) \<or> nd = new_Node)" for ne
    proof (cases ne)
      case (Pair nd err)
      with that report_inv [OF job Some, of nd] show ?thesis by (cases err) (simp_all add: triple_ret)
    qed
    then show ?thesis unfolding Some option.case by (rule triple_bind [OF getNode_inv])
  qed (simp add: triple_ret)
qed

end

end
