(* ===== verification/Kube_Replay.thy ===== *)
theory Kube_Replay
  imports Kube_Client
begin

text \<open>
  The calls of a run one by one. \<open>replay_kube\<close> is a client whose state is the list of answers that the
  run has got so far: it gives them again, and notes the first call that has no answer yet. As the reconcilers
  are functions, this is the next call of the run. \<open>serve\<close> carries out a call on the API server in memory.
\<close>

section \<open>Calls and answers\<close>

datatype call =
    CallGetShim NamespacedName
  | CallGetNode NamespacedName
  | CallGetJob NamespacedName
  | CallGetRuntimeClass NamespacedName
  | CallListNodes "(string \<times> string) list"
  | CallListShims
  | CallUpdateShim Shim
  | CallUpdateNode Node
  | CallPatchJob Job bytes
  | CallPatchRuntimeClass RuntimeClass bytes

datatype answer =
    AnsShim "error + Shim"
  | AnsNode "error + Node"
  | AnsJob "error + Job"
  | AnsRuntimeClass "error + RuntimeClass"
  | AnsNodes "error + Node list"
  | AnsShims "error + Shim list"
  | AnsDone "error option"

fun serve :: "call \<Rightarrow> server \<Rightarrow> answer \<times> server" where
  "serve (CallGetShim n) c = map_prod AnsShim id (k_GetShim mem_kube n c)"
| "serve (CallGetNode n) c = map_prod AnsNode id (k_GetNode mem_kube n c)"
| "serve (CallGetJob n) c = map_prod AnsJob id (k_GetJob mem_kube n c)"
| "serve (CallGetRuntimeClass n) c = map_prod AnsRuntimeClass id (k_GetRuntimeClass mem_kube n c)"
| "serve (CallListNodes sel) c = map_prod AnsNodes id (k_ListNodes mem_kube sel c)"
| "serve CallListShims c = map_prod AnsShims id (k_ListShims mem_kube c)"
| "serve (CallUpdateShim s) c = map_prod AnsShim id (k_UpdateShim mem_kube s c)"
| "serve (CallUpdateNode nd) c = map_prod AnsNode id (k_UpdateNode mem_kube nd c)"
| "serve (CallPatchJob j data) c = map_prod AnsDone id (k_PatchJob mem_kube j data c)"
| "serve (CallPatchRuntimeClass rc data) c = map_prod AnsDone id (k_PatchRuntimeClass mem_kube rc data c)"

section \<open>Replay\<close>

record replay =
  answers :: "answer list"
  asked :: "call option"

text \<open>
  The answer that is recorded for a call. If there is none, the call is noted as the next one, and
  from then on every call fails; nothing that the code does after it is observed. An answer that no
  client with the laws of \<open>kube_helpers\<close> gives to the call counts as an error.
\<close>

definition ask :: "call \<Rightarrow> (answer \<Rightarrow> 'r option) \<Rightarrow> 'r \<Rightarrow> replay \<Rightarrow> 'r \<times> replay" where
  "ask call sel err st =
     (if asked st \<noteq> None then (err, st)
      else (case answers st of
              [] \<Rightarrow> (err, st\<lparr>asked := Some call\<rparr>)
            | a # as \<Rightarrow> (case sel a of None \<Rightarrow> err | Some r \<Rightarrow> r, st\<lparr>answers := as\<rparr>)))"

definition lost :: error where
  "lost = ApiError ''no answer''"

fun sel_shim :: "(Shim \<Rightarrow> bool) \<Rightarrow> answer \<Rightarrow> (error + Shim) option" where
  "sel_shim P (AnsShim (Inl e)) = Some (Inl e)"
| "sel_shim P (AnsShim (Inr s)) = (if P s then Some (Inr s) else None)"
| "sel_shim P _ = None"

fun sel_node :: "(Node \<Rightarrow> bool) \<Rightarrow> answer \<Rightarrow> (error + Node) option" where
  "sel_node P (AnsNode (Inl e)) = Some (Inl e)"
| "sel_node P (AnsNode (Inr nd)) = (if P nd then Some (Inr nd) else None)"
| "sel_node P _ = None"

fun sel_job :: "answer \<Rightarrow> (error + Job) option" where
  "sel_job (AnsJob r) = Some r"
| "sel_job _ = None"

fun sel_class :: "answer \<Rightarrow> (error + RuntimeClass) option" where
  "sel_class (AnsRuntimeClass r) = Some r"
| "sel_class _ = None"

fun sel_nodes :: "answer \<Rightarrow> (error + Node list) option" where
  "sel_nodes (AnsNodes r) = Some r"
| "sel_nodes _ = None"

fun sel_shims :: "answer \<Rightarrow> (error + Shim list) option" where
  "sel_shims (AnsShims r) = Some r"
| "sel_shims _ = None"

fun sel_done :: "answer \<Rightarrow> error option option" where
  "sel_done (AnsDone r) = Some r"
| "sel_done _ = None"

definition replay_kube :: "replay kube" where
  "replay_kube =
     \<lparr>k_GetShim = (\<lambda>n. ask (CallGetShim n) (sel_shim (\<lambda>s. shim_Name s = nn_Name n)) (Inl lost)),
      k_GetNode = (\<lambda>n. ask (CallGetNode n) (sel_node (\<lambda>nd. node_Name nd = nn_Name n)) (Inl lost)),
      k_GetJob = (\<lambda>n. ask (CallGetJob n) sel_job (Inl lost)),
      k_GetRuntimeClass = (\<lambda>n. ask (CallGetRuntimeClass n) sel_class (Inl lost)),
      k_ListNodes = (\<lambda>sel. ask (CallListNodes sel) sel_nodes (Inl lost)),
      k_ListShims = ask CallListShims sel_shims (Inl lost),
      k_UpdateShim = (\<lambda>s. ask (CallUpdateShim s)
        (sel_shim (\<lambda>s'. shim_Name s' = shim_Name s \<and> om_Finalizers (shim_meta s') = om_Finalizers (shim_meta s))) (Inl lost)),
      k_UpdateNode = (\<lambda>nd. ask (CallUpdateNode nd)
        (sel_node (\<lambda>nd'. node_Name nd' = node_Name nd \<and> om_Labels (node_meta nd') = om_Labels (node_meta nd))) (Inl lost)),
      k_PatchJob = (\<lambda>j data. ask (CallPatchJob j data) sel_done (Some lost)),
      k_PatchRuntimeClass = (\<lambda>rc data. ask (CallPatchRuntimeClass rc data) sel_done (Some lost)),
      k_MarshalJob = k_MarshalJob mem_kube, k_MarshalRuntimeClass = k_MarshalRuntimeClass mem_kube,
      k_OwnJob = k_OwnJob mem_kube, k_OwnRuntimeClass = k_OwnRuntimeClass mem_kube,
      k_IsNotFound = k_IsNotFound mem_kube, k_IgnoreNotFound = k_IgnoreNotFound mem_kube,
      k_ContainsFinalizer = k_ContainsFinalizer mem_kube, k_AddFinalizer = k_AddFinalizer mem_kube,
      k_RemoveFinalizer = k_RemoveFinalizer mem_kube\<rparr>"

lemma ask_cases:
  "ask call sel err st = (r, st') \<Longrightarrow> r = err \<or> (\<exists>a \<in> set (answers st). sel a = Some r)"
  by (auto simp: ask_def split: if_splits list.splits option.splits)

fun_cases sel_shimE: "sel_shim P a = Some (Inr s)"
fun_cases sel_nodeE: "sel_node P a = Some (Inr nd)"

lemma sel_shim_Inr: "sel_shim P a = Some (Inr s) \<Longrightarrow> a = AnsShim (Inr s) \<and> P s"
  by (erule sel_shimE) (simp split: if_splits)

lemma sel_node_Inr: "sel_node P a = Some (Inr nd) \<Longrightarrow> a = AnsNode (Inr nd) \<and> P nd"
  by (erule sel_nodeE) (simp split: if_splits)

lemma sel_job_Some: "sel_job a = Some r \<Longrightarrow> a = AnsJob r"
  by (cases a) simp_all

lemma replay_law: "ask call sel err st = (Inr x, st') \<Longrightarrow> err = Inl e \<Longrightarrow> \<exists>a. sel a = Some (Inr x)"
  by (drule ask_cases) auto

interpretation replay: kube_helpers replay_kube
proof (unfold_locales, goal_cases)
  case (11 n c nd c')
  then show ?case by (auto simp: replay_kube_def dest!: replay_law [OF _ refl] sel_node_Inr)
next
  case (12 n c s c')
  then show ?case by (auto simp: replay_kube_def dest!: replay_law [OF _ refl] sel_shim_Inr)
next
  case (13 nd c nd' c')
  then show ?case by (auto simp: replay_kube_def dest!: replay_law [OF _ refl] sel_node_Inr)
next
  case (14 s c s' c')
  then show ?case by (auto simp: replay_kube_def dest!: replay_law [OF _ refl] sel_shim_Inr)
qed (simp_all add: replay_kube_def mem_kube.IsNotFound_NotFound mem_kube.IsNotFound_Wrap mem_kube.IsNotFound_Msg
  mem_kube.IgnoreNotFound_None mem_kube.IgnoreNotFound_Some mem_kube.ContainsFinalizer_iff mem_kube.AddFinalizer_contains
  mem_kube.AddFinalizer_only mem_kube.RemoveFinalizer_gone mem_kube.RemoveFinalizer_only mem_kube.OwnJob_only
  mem_kube.OwnRuntimeClass_only)

end
