(* ===== verification/Cluster.thy ===== *)
theory Cluster
  imports Kube_Invariant Kube_Replay
begin

text \<open>
  The two reconcilers together, as a step relation on the API server in memory: runs of the reconcilers,
  any number of them at a time, of which each step is one call to the server; jobs that finish; and what
  users and the machinery around them do. The invariant is that of \<open>kube_inv\<close>, which is interpreted on the
  server and on the replay of a run.
\<close>

section \<open>Provisioned nodes\<close>

text \<open>
  \<open>D\<close> is the set of pairs of a shim and a node for which an install job has completed. A node may
  be labelled as provisioned, and a job may be complete, only for the pairs in \<open>D\<close>.
\<close>

definition node_ok :: "(string \<times> string) set \<Rightarrow> Node \<Rightarrow> bool" where
  "node_ok D nd \<longleftrightarrow> (\<forall>s. map_get (om_Labels (node_meta nd)) s = Some ''provisioned'' \<longrightarrow> (s, node_Name nd) \<in> D)"

definition installed_by :: "Job \<Rightarrow> string \<Rightarrow> bool" where
  "installed_by j s \<longleftrightarrow> map_get (om_Labels (job_meta j)) ''spinkube.dev/shimName'' = Some s \<and> verdict j = Some (Some ''provisioned'')"

definition job_ok :: "(string \<times> string) set \<Rightarrow> Job \<Rightarrow> bool" where
  "job_ok D j \<longleftrightarrow> consistent j \<and> (\<forall>s. installed_by j s \<longrightarrow> (s, pod_NodeName (job_Pod j)) \<in> D)"

definition cluster_ok :: "(string \<times> string) set \<Rightarrow> server \<Rightarrow> bool" where
  "cluster_ok D c \<longleftrightarrow> (\<forall>nd \<in> set (srv_nodes c). node_ok D nd) \<and> (\<forall>j \<in> set (srv_jobs c). job_ok D j)"

lemma cluster_ok_shims:
  "cluster_ok D (c\<lparr>srv_shims := ss\<rparr>) = cluster_ok D c" "cluster_ok D (c\<lparr>srv_classes := rs\<rparr>) = cluster_ok D c"
  "cluster_ok D (c\<lparr>srv_refused := ns\<rparr>) = cluster_ok D c"
  by (simp_all add: cluster_ok_def)

lemma find_by_ok:
  "find_by name n xs = Inr x \<Longrightarrow> x \<in> set xs"
  by (auto simp: find_by_def find_Some_split split: option.splits)

lemma map_set_labels:
  "map_set m name v = Ret m' \<Longrightarrow> map_get m' s = (if s = name then Some v else map_get m s)"
  by (rule map_set_Ret)

lemma same_installed:
  assumes "consistent old" "consistent j" "job_Pod old = job_Pod j"
  shows "installed_by (j\<lparr>job_Conditions := job_Conditions old\<rparr>) s = installed_by old s"
  using assms by (auto simp: consistent_def installed_by_def verdict_def)

interpretation mem_inv: kube_inv mem_kube "cluster_ok D" "node_ok D" "job_ok D" for D
proof (unfold_locales, goal_cases)
  case (4 s)
  show ?case
    by (auto simp: triple_def mem_kube_def mem_UpdateShim_def cluster_ok_shims Let_def split: sum.split)
next
  case (6 n)
  show ?case by (auto simp: triple_def mem_kube_def okays_def cluster_ok_def split: sum.split dest!: find_by_ok)
next
  case (7 n)
  show ?case by (auto simp: triple_def mem_kube_def okays_def cluster_ok_def split: sum.split dest!: find_by_ok)
next
  case (8 nd)
  then have "node_ok D (nd\<lparr>node_meta := bump (node_meta nd)\<rparr>)" by (simp add: node_ok_def bump_def)
  then show ?case
    by (auto simp: triple_def mem_kube_def mem_UpdateNode_def cluster_ok_def put_by_def Let_def split: sum.split)
next
  case (9 j data)
  have kept: "job_ok D (j\<lparr>job_Conditions := job_Conditions old\<rparr>)" if "job_ok D old" "job_Pod old = job_Pod j" for old
    using same_installed [of old j] 9 that by (simp add: job_ok_def consistent_def)
  have "cluster_ok D (snd (mem_PatchJob j data c))" if ok: "cluster_ok D c" for c
  proof -
    have "cluster_ok D (c\<lparr>srv_jobs := j # srv_jobs c\<rparr>)" using ok 9 by (simp add: cluster_ok_def)
    moreover have "cluster_ok D (c\<lparr>srv_jobs := put_by (\<lambda>x. om_Name (job_meta x)) (j\<lparr>job_Conditions := job_Conditions old\<rparr>) (srv_jobs c)\<rparr>)"
      if "find_by (\<lambda>x. om_Name (job_meta x)) (om_Name (job_meta j)) (srv_jobs c) = Inr old" "job_Pod old = job_Pod j" for old
      using kept [of old] ok find_by_ok [OF that(1)] that(2) by (auto simp: cluster_ok_def put_by_def)
    ultimately show ?thesis using ok by (simp add: mem_PatchJob_def split: sum.split)
  qed
  then show ?case by (simp add: triple_def mem_kube_def)
next
  case (10 j)
  then show ?case by (simp add: job_ok_def installed_by_def verdict_def)
next
  case (11 nd name status labels)
  then show ?case using map_set_Ret [OF 11(2)] by (auto simp: node_ok_def)
next
  case (12 j name v nd labels)
  then show ?case using labels_after_get [OF 12(6)] by (auto simp: node_ok_def job_ok_def installed_by_def)
next
  case 13
  show ?case by (simp add: node_ok_def new_Node_def new_meta_def)
qed (auto simp: triple_def mem_kube_def mem_PatchRuntimeClass_def cluster_ok_shims)

section \<open>The cluster\<close>

datatype run =
    ShimRun NamespacedName
  | JobRun NamespacedName

text \<open>The next call of a run that has got the answers \<open>as\<close> so far, if it has not ended.\<close>

fun next_call :: "(string \<Rightarrow> string) \<Rightarrow> run \<Rightarrow> answer list \<Rightarrow> call option" where
  "next_call env (ShimRun req) as = asked (snd (Reconcile replay_kube env req \<lparr>answers = as, asked = None\<rparr>))"
| "next_call env (JobRun req) as = asked (snd (job_Reconcile replay_kube req \<lparr>answers = as, asked = None\<rparr>))"

record world =
  api :: server
  completed :: "(string \<times> string) set"
  runs :: "(run \<times> answer list) list"

definition set_conditions :: "string \<Rightarrow> JobCondition list \<Rightarrow> server \<Rightarrow> server" where
  "set_conditions n cs c = c\<lparr>srv_jobs := map (\<lambda>j. if om_Name (job_meta j) = n then j\<lparr>job_Conditions := cs\<rparr> else j) (srv_jobs c)\<rparr>"

definition completions :: "server \<Rightarrow> (string \<times> string) set" where
  "completions c = {(s, pod_NodeName (job_Pod j)) |s j. j \<in> set (srv_jobs c) \<and> installed_by j s}"

text \<open>
  A step is the start of a run; a call of one of the runs, which the server answers; the end of a run
  (finished, or stopped between two calls); a new status of a job, which is noted in \<open>completed\<close> if
  the job is now a completed install job; the removal of jobs; a change of the shims and runtime classes by
  a user; or a change of the nodes in which no label \<open>provisioned\<close> is added.
\<close>

inductive cluster_step :: "(string \<Rightarrow> string) \<Rightarrow> world \<Rightarrow> world \<Rightarrow> bool" for env where
  run_starts: "cluster_step env w (w\<lparr>runs := (r, []) # runs w\<rparr>)"
| run_calls: "\<lbrakk>i < length (runs w); runs w ! i = (r, as); next_call env r as = Some call; serve call (api w) = (a, c')\<rbrakk>
    \<Longrightarrow> cluster_step env w (w\<lparr>api := c', runs := (runs w)[i := (r, as @ [a])]\<rparr>)"
| run_ends: "cluster_step env w (w\<lparr>runs := take i (runs w) @ drop (Suc i) (runs w)\<rparr>)"
| job_status: "c' = set_conditions n cs (api w) \<Longrightarrow> cluster_step env w (w\<lparr>api := c', completed := completed w \<union> completions c'\<rparr>)"
| jobs_removed: "cluster_step env w (w\<lparr>api := (api w)\<lparr>srv_jobs := filter P (srv_jobs (api w))\<rparr>\<rparr>)"
| user: "cluster_step env w (w\<lparr>api := (api w)\<lparr>srv_shims := ss, srv_classes := rs, srv_refused := ns\<rparr>\<rparr>)"
| nodes_changed: "(\<And>nd s. \<lbrakk>nd \<in> set nds; map_get (om_Labels (node_meta nd)) s = Some ''provisioned''\<rbrakk>
      \<Longrightarrow> \<exists>old \<in> set (srv_nodes (api w)). node_Name old = node_Name nd \<and> map_get (om_Labels (node_meta old)) s = Some ''provisioned'')
    \<Longrightarrow> cluster_step env w (w\<lparr>api := (api w)\<lparr>srv_nodes := nds\<rparr>\<rparr>)"

definition initial :: "world \<Rightarrow> bool" where
  "initial w \<longleftrightarrow> srv_jobs (api w) = [] \<and> completed w = {} \<and> runs w = []
    \<and> (\<forall>nd \<in> set (srv_nodes (api w)). ''provisioned'' \<notin> snd ` set (entries (om_Labels (node_meta nd))))"

inductive reachable :: "(string \<Rightarrow> string) \<Rightarrow> world \<Rightarrow> bool" for env where
  start: "initial w \<Longrightarrow> reachable env w"
| step: "reachable env w \<Longrightarrow> cluster_step env w w' \<Longrightarrow> reachable env w'"

section \<open>The invariant of the cluster\<close>

text \<open>What a run has read or may send, when the install jobs for \<open>D\<close> have completed.\<close>

fun answer_ok :: "(string \<times> string) set \<Rightarrow> answer \<Rightarrow> bool" where
  "answer_ok D (AnsNode r) = okays (node_ok D) r"
| "answer_ok D (AnsJob r) = okays (job_ok D) r"
| "answer_ok D _ = True"

fun call_ok :: "(string \<times> string) set \<Rightarrow> call \<Rightarrow> bool" where
  "call_ok D (CallUpdateNode nd) = node_ok D nd"
| "call_ok D (CallPatchJob j data) = job_ok D j"
| "call_ok D _ = True"

definition replay_ok :: "(string \<times> string) set \<Rightarrow> replay \<Rightarrow> bool" where
  "replay_ok D st \<longleftrightarrow> (\<forall>a \<in> set (answers st). answer_ok D a) \<and> (\<forall>call. asked st = Some call \<longrightarrow> call_ok D call)"

lemma ask_triple:
  "call_ok D call \<Longrightarrow> Q err \<Longrightarrow> (\<And>a r. answer_ok D a \<Longrightarrow> sel a = Some r \<Longrightarrow> Q r) \<Longrightarrow> triple (replay_ok D) (ask call sel err) Q"
  by (auto simp: triple_def ask_def replay_ok_def split: list.splits option.splits)

lemma ask_keeps: "call_ok D call \<Longrightarrow> keeps (replay_ok D) (ask call sel err)"
  by (rule ask_triple) simp_all

lemma answered_node: "answer_ok D a \<Longrightarrow> sel_node P a = Some r \<Longrightarrow> okays (node_ok D) r"
  by (cases r) (auto dest: sel_node_Inr)

lemma answered_job: "answer_ok D a \<Longrightarrow> sel_job a = Some r \<Longrightarrow> okays (job_ok D) r"
  by (auto dest: sel_job_Some)

text \<open>A run that has read what is right sends only what is right.\<close>

interpretation replay_inv: kube_inv replay_kube "replay_ok D" "node_ok D" "job_ok D" for D
proof (unfold_locales, goal_cases)
  case (6 n)
  show ?case by (auto simp: replay_kube_def intro!: ask_triple dest: answered_node)
next
  case (7 n)
  show ?case by (auto simp: replay_kube_def intro!: ask_triple dest: answered_job)
next
  case (8 nd)
  then show ?case by (auto simp: replay_kube_def intro!: ask_triple dest: answered_node)
next
  case 10
  then show ?case by (rule mem_inv.fresh_job)
next
  case 11
  then show ?case by (rule mem_inv.relabel)
next
  case 12
  then show ?case by (rule mem_inv.report_label)
next
  case 13
  show ?case by (rule mem_inv.new_node)
qed (simp_all add: replay_kube_def ask_keeps)

lemma keepsD: "keeps I f \<Longrightarrow> I c \<Longrightarrow> I (snd (f c))"
  by (simp add: triple_def)

lemma replay_ok_asked: "replay_ok D st \<Longrightarrow> asked st = Some call \<Longrightarrow> call_ok D call"
  by (simp add: replay_ok_def)

lemma next_call_ok:
  assumes "\<forall>a \<in> set as. answer_ok D a" "next_call env r as = Some call"
  shows "call_ok D call"
proof -
  have start: "replay_ok D \<lparr>answers = as, asked = None\<rparr>" using assms(1) by (simp add: replay_ok_def)
  show ?thesis
  proof (cases r)
    case (ShimRun req)
    with assms(2) show ?thesis by (intro replay_ok_asked [OF keepsD [OF replay_inv.Reconcile_inv start]]) simp
  next
    case (JobRun req)
    with assms(2) show ?thesis by (intro replay_ok_asked [OF keepsD [OF replay_inv.job_Reconcile_inv start]]) simp
  qed
qed

text \<open>The server keeps the invariant when it serves what is right, and answers what is right.\<close>

lemma triple_serve:
  "triple I f Q \<Longrightarrow> I c \<Longrightarrow> map_prod g id (f c) = (a, c') \<Longrightarrow> I c' \<and> (\<exists>r. a = g r \<and> Q r)"
  by (cases "f c") (auto dest: tripleD)

lemma serve_ok:
  assumes "serve call c = (a, c')" "cluster_ok D c" "call_ok D call"
  shows "cluster_ok D c' \<and> answer_ok D a"
proof (cases call)
  case (CallListShims)
  with assms show ?thesis by (auto simp: mem_kube_def)
next
  case (CallGetNode n)
  with assms triple_serve [OF mem_inv.GetNode_inv [of D n] assms(2), of AnsNode a c'] show ?thesis by auto
next
  case (CallGetJob n)
  with assms triple_serve [OF mem_inv.GetJob_inv [of D n] assms(2), of AnsJob a c'] show ?thesis by auto
next
  case (CallUpdateNode nd)
  with assms triple_serve [OF mem_inv.UpdateNode_inv [of D nd] assms(2), of AnsNode a c'] show ?thesis by auto
next
  case (CallPatchJob j data)
  with assms triple_serve [OF mem_inv.PatchJob_inv [of D j data] assms(2), of AnsDone a c'] show ?thesis by auto
next
  case (CallGetShim n)
  with assms triple_serve [OF mem_inv.GetShim_inv [of D n] assms(2), of AnsShim a c'] show ?thesis by auto
next
  case (CallGetRuntimeClass n)
  with assms triple_serve [OF mem_inv.GetRuntimeClass_inv [of D n] assms(2), of AnsRuntimeClass a c'] show ?thesis by auto
next
  case (CallListNodes sel)
  with assms triple_serve [OF mem_inv.ListNodes_inv [of D sel] assms(2), of AnsNodes a c'] show ?thesis by auto
next
  case (CallUpdateShim s)
  with assms triple_serve [OF mem_inv.UpdateShim_inv [of D s] assms(2), of AnsShim a c'] show ?thesis by auto
next
  case (CallPatchRuntimeClass rc data)
  with assms triple_serve [OF mem_inv.PatchRuntimeClass_inv [of D rc data] assms(2), of AnsDone a c'] show ?thesis by auto
qed

lemma node_ok_mono: "node_ok D nd \<Longrightarrow> D \<subseteq> D' \<Longrightarrow> node_ok D' nd" and job_ok_mono: "job_ok D j \<Longrightarrow> D \<subseteq> D' \<Longrightarrow> job_ok D' j"
  by (auto simp: node_ok_def job_ok_def)

lemma answer_ok_mono: "answer_ok D a \<Longrightarrow> D \<subseteq> D' \<Longrightarrow> answer_ok D' a"
  by (cases a) (auto simp: okays_def split: sum.splits intro: node_ok_mono job_ok_mono)

definition world_ok :: "world \<Rightarrow> bool" where
  "world_ok w \<longleftrightarrow> cluster_ok (completed w) (api w) \<and> (\<forall>(r, as) \<in> set (runs w). \<forall>a \<in> set as. answer_ok (completed w) a)"

lemma initial_ok: "initial w \<Longrightarrow> world_ok w"
  by (force simp: world_ok_def initial_def cluster_ok_def node_ok_def map_get_def dest!: map_of_SomeD)

lemma set_conditions_ok:
  assumes "cluster_ok D c"
  shows "cluster_ok (D \<union> completions (set_conditions n cs c)) (set_conditions n cs c)"
proof -
  let ?c = "set_conditions n cs c"
  have "job_ok (D \<union> completions ?c) j" if "j \<in> set (srv_jobs ?c)" for j
    using that assms by (auto simp: job_ok_def completions_def set_conditions_def cluster_ok_def consistent_def)
  moreover have "node_ok (D \<union> completions ?c) nd" if "nd \<in> set (srv_nodes ?c)" for nd
    using that assms by (auto simp: set_conditions_def cluster_ok_def intro: node_ok_mono)
  ultimately show ?thesis by (simp add: cluster_ok_def)
qed

lemma step_ok:
  assumes "cluster_step env w w'" "world_ok w"
  shows "world_ok w'"
  using assms
proof (cases rule: cluster_step.cases)
  case (run_calls i r as call a c')
  then have "(r, as) \<in> set (runs w)" by (metis nth_mem)
  with assms(2) have as: "\<forall>a \<in> set as. answer_ok (completed w) a" by (auto simp: world_ok_def)
  from serve_ok [OF run_calls(5) _ next_call_ok [OF as run_calls(4)]] assms(2)
  have "cluster_ok (completed w) c'" "answer_ok (completed w) a" by (simp_all add: world_ok_def)
  moreover have "p = (r, as @ [a]) \<or> p \<in> set (runs w)" if "p \<in> set ((runs w)[i := (r, as @ [a])])" for p
    using that set_update_subset_insert [of "runs w" i "(r, as @ [a])"] by blast
  ultimately show ?thesis using as assms(2) unfolding run_calls(1) by (fastforce simp: world_ok_def)
next
  case (job_status c' n cs)
  with assms(2) set_conditions_ok [of "completed w" "api w" n cs] show ?thesis
    by (fastforce simp: world_ok_def intro: answer_ok_mono [OF _ Un_upper1])
next
  case (nodes_changed nds)
  then show ?thesis using assms(2) by (fastforce simp: world_ok_def cluster_ok_def node_ok_def)
next
  case (run_ends i)
  then have "set (runs w') \<subseteq> set (runs w)" using set_take_subset [of i "runs w"] set_drop_subset [of "Suc i" "runs w"] by auto
  then show ?thesis using assms(2) unfolding run_ends by (fastforce simp: world_ok_def)
qed (auto simp: world_ok_def cluster_ok_def)

lemma reachable_ok: "reachable env w \<Longrightarrow> world_ok w"
  by (induction rule: reachable.induct) (auto intro: initial_ok step_ok)

text \<open>
  C11. In every reachable state of the cluster, a node that carries the label \<open>provisioned\<close> for a shim is
  one on which an install job of that shim has completed: neither the two reconcilers, however the calls
  of their runs interleave and wherever a run stops, with any failures and restarts of jobs, nor users that
  change shims, can produce the label otherwise.
\<close>

theorem provisioned_after_install:
  assumes "reachable env w" "nd \<in> set (srv_nodes (api w))" "map_get (om_Labels (node_meta nd)) s = Some ''provisioned''"
  shows "(s, node_Name nd) \<in> completed w"
  using reachable_ok [OF assms(1)] assms(2,3) by (auto simp: world_ok_def cluster_ok_def node_ok_def)

section \<open>Jobs that exist already\<close>

text \<open>What a job asks for is determined by the shim, the operation, the artifact and the name of the node.\<close>

lemma createJobManifest_name:
  "node_Name n1 = node_Name n2 \<Longrightarrow> createJobManifest K env shim n1 op artifact = createJobManifest K env shim n2 op artifact"
  by (simp add: createJobManifest_def job_name_def)

lemma put_by_status:
  assumes "find_by f (f x) xs = Inr old" "distinct (map f xs)"
  shows "map (\<lambda>y. (f y, g y)) (put_by f x xs) = map (\<lambda>y. (f y, if f y = f x then g x else g y)) xs"
  using assms by (induction xs) (auto simp: put_by_def)

lemma same_name_same:
  assumes "find_by f n xs = Inr old" "distinct (map f xs)" "y \<in> set xs" "f y = n"
  shows "y = old"
proof -
  have "old \<in> set xs" "f old = n" using assms(1) by (auto simp: find_by_def find_Some_split split: option.splits)
  with assms(2-4) show ?thesis by (metis distinct_map inj_onD)
qed

text \<open>
  An uninstall job is not run a second time while the finished job of an earlier deletion exists (it
  has no owner, so it outlives the shim, and by default no time to live): the deployment for a
  new shim of the same name is accepted, and all jobs keep their names and their status.
\<close>

lemma uninstall_not_repeated:
  assumes "find_by node_Name (node_Name node) (srv_nodes c) = Inr nd" "om_Labels (node_meta nd) \<noteq> None"
    "createJobManifest mem_kube env shim nd UNINSTALL no_artifact = Inr job"
    "find_by (\<lambda>j. om_Name (job_meta j)) (om_Name (job_meta job)) (srv_jobs c) = Inr old" "job_Pod old = job_Pod job"
    "om_Name (job_meta job) \<notin> set (srv_refused c)" "distinct (map (\<lambda>j. om_Name (job_meta j)) (srv_jobs c))"
  shows "\<exists>c'. deployJobOnNode mem_kube env shim node UNINSTALL c = (Ret None, c')
    \<and> map (\<lambda>j. (om_Name (job_meta j), job_Conditions j)) (srv_jobs c') = map (\<lambda>j. (om_Name (job_meta j), job_Conditions j)) (srv_jobs c)"
proof -
  let ?n = "\<lambda>j. om_Name (job_meta j)" and ?job = "job\<lparr>job_Conditions := job_Conditions old\<rparr>"
  obtain r c1 where up: "updateNodeLabels mem_kube nd shim UNINSTALL c = (Ret r, c1)"
    using updateNodeLabels_Ret [OF assms(2), of mem_kube shim UNINSTALL c] by (elim exE)
  obtain e nd1 where r: "r = (e, nd1)" by fastforce
  have c1: "srv_jobs c1 = srv_jobs c" "srv_refused c1 = srv_refused c" and name: "node_Name nd1 = node_Name nd"
    using up assms(2) unfolding r
    by (auto simp: updateNodeLabels_def map_set_def mem_kube_def mem_UpdateNode_def bump_def Let_def
      split: option.splits sum.splits if_splits)
  have get: "k_GetNode mem_kube \<lparr>nn_Name = node_Name node, nn_Namespace = []\<rparr> c = (Inr nd, c)"
    using assms(1) by (simp add: mem_kube_def)
  have marshal: "k_MarshalJob mem_kube job = Inr (?n job)" by (simp add: mem_kube_def)
  have patch: "k_PatchJob mem_kube job (?n job) c1 = (None, c1\<lparr>srv_jobs := put_by ?n ?job (srv_jobs c)\<rparr>)"
    using assms(4-6) c1 by (simp add: mem_kube_def mem_PatchJob_def)
  have "createJobManifest mem_kube env shim nd1 UNINSTALL no_artifact = Inr job"
    by (rule trans [OF createJobManifest_name [OF name] assms(3)])
  then have "deployJobOnNode mem_kube env shim node UNINSTALL c = (Ret None, c1\<lparr>srv_jobs := put_by ?n ?job (srv_jobs c)\<rparr>)"
    by (simp add: deployJobOnNode_def get Let_def INSTALL_def label_and_patch_def patch_job_def marshal patch
      up [unfolded r UNINSTALL_def] UNINSTALL_def)
  moreover have "map (\<lambda>j. (?n j, job_Conditions j)) (put_by ?n ?job (srv_jobs c)) = map (\<lambda>j. (?n j, job_Conditions j)) (srv_jobs c)"
    using put_by_status [of ?n ?job "srv_jobs c" old job_Conditions] assms(4,7) same_name_same [OF assms(4,7)] by auto
  ultimately show ?thesis by (intro exI conjI) (assumption, simp)
qed

section \<open>Witnesses\<close>

text \<open>
  A shim is installed on two nodes. The job of the first one completes, and is reported by a run of the job
  reconciler, while the run of the shim reconciler serves the second node.
\<close>

type_synonym conf = "server \<times> (run \<times> answer list) list"

fun advance :: "(string \<Rightarrow> string) \<Rightarrow> nat \<Rightarrow> conf \<Rightarrow> conf" where
  "advance env i (c, rs) =
     (case rs ! i of (r, as) \<Rightarrow>
        (case next_call env r as of None \<Rightarrow> (c, rs)
         | Some call \<Rightarrow> (case serve call c of (a, c') \<Rightarrow> (c', rs[i := (r, as @ [a])]))))"

lemma length_advance: "length (snd (advance env i (c, rs))) = length rs"
  by (simp split: prod.split option.split)

definition with_conf :: "world \<Rightarrow> conf \<Rightarrow> world" where
  "with_conf w cf = w\<lparr>api := fst cf, runs := snd cf\<rparr>"

lemma reachable_advance:
  assumes "reachable env (with_conf w cf)" "i < length (snd cf)"
  shows "reachable env (with_conf w (advance env i cf))"
proof -
  obtain c rs r as where cf: "cf = (c, rs)" and i: "rs ! i = (r, as)" by (cases cf, cases "snd cf ! i") auto
  show ?thesis
  proof (cases "next_call env r as")
    case None
    with assms cf i show ?thesis by simp
  next
    case (Some call)
    obtain a c' where "serve call c = (a, c')" by fastforce
    with cluster_step.run_calls [of i "with_conf w cf" r as env call a c'] assms(2) Some cf i
    have "cluster_step env (with_conf w cf) (with_conf w (advance env i cf))" by (simp add: with_conf_def)
    with assms(1) show ?thesis by (rule reachable.step)
  qed
qed

lemma reachable_advances:
  "reachable env (with_conf w cf) \<Longrightarrow> \<forall>i \<in> set is. i < length (snd cf) \<Longrightarrow> reachable env (with_conf w (fold (advance env) is cf))"
proof (induction "is" arbitrary: cf)
  case (Cons i "is")
  from Cons.prems have "reachable env (with_conf w (advance env i cf))" by (intro reachable_advance) simp_all
  moreover have "length (snd (advance env i cf)) = length (snd cf)" by (cases cf) (metis length_advance snd_conv)
  ultimately show ?case using Cons.IH [of "advance env i cf"] Cons.prems by simp
qed simp

lemma length_advances: "length (snd (fold (advance env) is cf)) = length (snd cf)"
proof (induction "is" arbitrary: cf)
  case (Cons i "is")
  then show ?case using length_advance [of env i "fst cf" "snd cf"] by simp
qed simp

definition world0 :: world where
  "world0 = \<lparr>api = \<lparr>srv_shims = [demo_Shim ''spin''], srv_nodes = map (\<lambda>n. demo_Node n [(''arch'', ''amd64'')]) [''n1'', ''n2''],
     srv_jobs = [], srv_classes = [], srv_refused = []\<rparr>, completed = {}, runs = []\<rparr>"

definition no_env :: "string \<Rightarrow> string" where
  "no_env _ = []"

definition conf1 :: conf where
  "conf1 = fold (advance no_env) (replicate 9 0) (api world0, [(ShimRun \<lparr>nn_Name = ''spin'', nn_Namespace = []\<rparr>, [])])"

lemma conf1_runs: "length (snd conf1) = 1"
  unfolding conf1_def length_advances by simp

definition api2 :: server where
  "api2 = set_conditions ''n1-spin-install'' [\<lparr>jc_Type = ''Complete'', jc_Status = ''True''\<rparr>] (fst conf1)"

definition conf3 :: conf where
  "conf3 = fold (advance no_env) [1, 0, 1, 0, 1, 0] (api2, (JobRun \<lparr>nn_Name = ''n1-spin-install'', nn_Namespace = []\<rparr>, []) # snd conf1)"

definition world3 :: world where
  "world3 = with_conf (world0\<lparr>completed := completions api2\<rparr>) conf3"

lemma demo_reachable: "reachable no_env world3"
proof -
  let ?shim = "ShimRun \<lparr>nn_Name = ''spin'', nn_Namespace = []\<rparr>" and ?job = "JobRun \<lparr>nn_Name = ''n1-spin-install'', nn_Namespace = []\<rparr>"
    and ?w2 = "\<lparr>api = api2, completed = completions api2, runs = snd conf1\<rparr>"
  have "reachable no_env world0" by (rule reachable.start) (simp add: initial_def world0_def demo_Node_def new_meta_def)
  then have "reachable no_env (world0\<lparr>runs := (?shim, []) # runs world0\<rparr>)"
    by (rule reachable.step) (rule cluster_step.run_starts)
  then have "reachable no_env (with_conf world0 (api world0, [(?shim, [])]))" by (simp add: with_conf_def world0_def)
  then have "reachable no_env (with_conf world0 conf1)" unfolding conf1_def by (rule reachable_advances) simp
  then have "reachable no_env ((with_conf world0 conf1)\<lparr>api := api2, completed := completed (with_conf world0 conf1) \<union> completions api2\<rparr>)"
    by (rule reachable.step, intro cluster_step.job_status) (simp add: api2_def with_conf_def)
  then have "reachable no_env ?w2" by (simp add: with_conf_def world0_def)
  then have "reachable no_env (?w2\<lparr>runs := (?job, []) # runs ?w2\<rparr>)"
    by (rule reachable.step) (rule cluster_step.run_starts)
  then have "reachable no_env (with_conf (world0\<lparr>completed := completions api2\<rparr>) (api2, (?job, []) # snd conf1))"
    by (simp add: with_conf_def world0_def)
  then show ?thesis unfolding world3_def conf3_def by (rule reachable_advances) (simp add: conf1_runs)
qed

theorem provisioned_after_install_witness:
  "map (\<lambda>nd. label_of nd ''spin'') (srv_nodes (api world3)) = [''provisioned'', ''pending''] \<and> (''spin'', ''n1'') \<in> completed world3"
proof -
  have ev: "srv_nodes (fst conf3) \<noteq> []" "map_get (om_Labels (node_meta (hd (srv_nodes (fst conf3))))) ''spin'' = Some ''provisioned''"
    "node_Name (hd (srv_nodes (fst conf3))) = ''n1''" "map (\<lambda>nd. label_of nd ''spin'') (srv_nodes (fst conf3)) = [''provisioned'', ''pending'']"
    by code_simp+
  then have "hd (srv_nodes (fst conf3)) \<in> set (srv_nodes (api world3))" by (simp add: world3_def with_conf_def)
  from provisioned_after_install [OF demo_reachable this ev(2)] ev show ?thesis by (simp add: world3_def with_conf_def)
qed

definition old_job :: Job where
  "old_job = projr (createJobManifest mem_kube no_env (demo_Shim ''spin'') (demo_Node ''n1'' [(''arch'', ''amd64'')]) UNINSTALL no_artifact)"

definition api4 :: server where
  "api4 = (api world0)\<lparr>srv_jobs := [old_job\<lparr>job_Conditions := [\<lparr>jc_Type = ''Complete'', jc_Status = ''True''\<rparr>]\<rparr>]\<rparr>"

lemma uninstall_not_repeated_example:
  "\<exists>c'. deployJobOnNode mem_kube no_env (demo_Shim ''spin'') (demo_Node ''n1'' []) UNINSTALL api4 = (Ret None, c')
     \<and> map job_Conditions (srv_jobs c') = [[\<lparr>jc_Type = ''Complete'', jc_Status = ''True''\<rparr>]]"
proof -
  have job: "createJobManifest mem_kube no_env (demo_Shim ''spin'') (demo_Node ''n1'' [(''arch'', ''amd64'')]) UNINSTALL no_artifact = Inr old_job"
    by (simp add: old_job_def createJobManifest_def Let_def INSTALL_def UNINSTALL_def)
  have "\<exists>c'. deployJobOnNode mem_kube no_env (demo_Shim ''spin'') (demo_Node ''n1'' []) UNINSTALL api4 = (Ret None, c')
    \<and> map (\<lambda>j. (om_Name (job_meta j), job_Conditions j)) (srv_jobs c') = map (\<lambda>j. (om_Name (job_meta j), job_Conditions j)) (srv_jobs api4)"
    by (rule uninstall_not_repeated [OF _ _ job, where old = "old_job\<lparr>job_Conditions := [\<lparr>jc_Type = ''Complete'', jc_Status = ''True''\<rparr>]\<rparr>"])
       (simp_all add: api4_def world0_def find_by_def demo_Node_def)
  then obtain c' where run: "deployJobOnNode mem_kube no_env (demo_Shim ''spin'') (demo_Node ''n1'' []) UNINSTALL api4 = (Ret None, c')"
    and eq: "map (\<lambda>j. (om_Name (job_meta j), job_Conditions j)) (srv_jobs c')
      = map (\<lambda>j. (om_Name (job_meta j), job_Conditions j)) (srv_jobs api4)" by (elim exE conjE)
  from arg_cong [where f = "map snd", OF eq] have "map job_Conditions (srv_jobs c') = map job_Conditions (srv_jobs api4)"
    by (simp add: o_def)
  also have "\<dots> = [[\<lparr>jc_Type = ''Complete'', jc_Status = ''True''\<rparr>]]" by (simp add: api4_def)
  finally have "map job_Conditions (srv_jobs c') = [[\<lparr>jc_Type = ''Complete'', jc_Status = ''True''\<rparr>]]" .
  with run show ?thesis by (intro exI conjI)
qed

end
