(* ===== verification/Cluster_Runs.thy ===== *)
theory Cluster_Runs
  imports Cluster
begin

text \<open>
  The calls of a run, taken one by one from the replay, are those of the code: a run that nobody
  interrupts does in the cluster what the reconciler does on the server in memory.
\<close>

section \<open>Operations and their calls\<close>

text \<open>Calls with their answers, as the server gives them one after the other.\<close>

fun served :: "(call \<times> answer) list \<Rightarrow> server \<Rightarrow> server \<Rightarrow> bool" where
  "served [] c c' \<longleftrightarrow> c' = c"
| "served ((call, a) # l) c c' \<longleftrightarrow> (case serve call c of (a', c1) \<Rightarrow> a = a' \<and> served l c1 c')"

lemma served_append: "served l1 c c1 \<Longrightarrow> served l2 c1 c2 \<Longrightarrow> served (l1 @ l2) c c2"
  by (induction l1 c c1 rule: served.induct) (auto split: prod.splits)

text \<open>Nothing is asked after the first call that has no answer.\<close>

definition waits :: "(replay \<Rightarrow> 'r \<times> replay) \<Rightarrow> bool" where
  "waits g \<longleftrightarrow> (\<forall>st call. asked st = Some call \<longrightarrow> asked (snd (g st)) = Some call)"

definition replays :: "(call \<times> answer) list \<Rightarrow> 'r \<Rightarrow> (replay \<Rightarrow> 'r \<times> replay) \<Rightarrow> bool" where
  "replays l r g \<longleftrightarrow> (\<forall>rest. g \<lparr>answers = map snd l @ rest, asked = None\<rparr> = (r, \<lparr>answers = rest, asked = None\<rparr>))
     \<and> (\<forall>k < length l. asked (snd (g \<lparr>answers = take k (map snd l), asked = None\<rparr>)) = Some (fst (l ! k)))"

definition tracks :: "(server \<Rightarrow> 'r \<times> server) \<Rightarrow> (replay \<Rightarrow> 'r \<times> replay) \<Rightarrow> bool" where
  "tracks f g \<longleftrightarrow> waits g \<and> (\<forall>c. \<exists>l. served l c (snd (f c)) \<and> replays l (fst (f c)) g)"

lemma replays_bind:
  assumes "replays l1 r g" "replays l2 r2 (g2 r)" "\<And>r. waits (g2 r)"
  shows "replays (l1 @ l2) r2 (\<lambda>st. case g st of (r, st') \<Rightarrow> g2 r st')"
proof -
  have "asked (snd (case g \<lparr>answers = take k (map snd (l1 @ l2)), asked = None\<rparr> of (r, st') \<Rightarrow> g2 r st')) = Some (fst ((l1 @ l2) ! k))"
    if k: "k < length (l1 @ l2)" for k
  proof (cases "k < length l1")
    case True
    then have "asked (snd (g \<lparr>answers = take k (map snd (l1 @ l2)), asked = None\<rparr>)) = Some (fst (l1 ! k))"
      using assms(1) by (simp add: replays_def)
    with True assms(3) show ?thesis
      by (cases "g \<lparr>answers = take k (map snd l1), asked = None\<rparr>") (simp add: waits_def nth_append)
  next
    case False
    then have "g \<lparr>answers = take k (map snd (l1 @ l2)), asked = None\<rparr>
        = (r, \<lparr>answers = take (k - length l1) (map snd l2), asked = None\<rparr>)"
      using assms(1) by (simp add: replays_def)
    with False k assms(2) show ?thesis by (simp add: replays_def nth_append)
  qed
  with assms(1,2) show ?thesis by (simp add: replays_def)
qed

lemma tracks_bind:
  assumes "tracks f g" "\<And>r. tracks (f2 r) (g2 r)"
  shows "tracks (\<lambda>c. case f c of (r, c') \<Rightarrow> f2 r c') (\<lambda>st. case g st of (r, st') \<Rightarrow> g2 r st')"
  unfolding tracks_def
proof (intro conjI allI)
  show "waits (\<lambda>st. case g st of (r, st') \<Rightarrow> g2 r st')"
    using assms by (simp add: tracks_def waits_def split: prod.split) (metis snd_conv)
next
  fix c
  obtain r c1 where f: "f c = (r, c1)" by fastforce
  from assms(1) obtain l1 where l1: "served l1 c c1" "replays l1 r g"
    using f unfolding tracks_def by (metis fst_conv snd_conv)
  from assms(2) obtain l2 where l2: "served l2 c1 (snd (f2 r c1))" "replays l2 (fst (f2 r c1)) (g2 r)"
    unfolding tracks_def by blast
  have "waits (g2 r)" for r using assms(2) by (simp add: tracks_def)
  then have "replays (l1 @ l2) (fst (f2 r c1)) (\<lambda>st. case g st of (r, st') \<Rightarrow> g2 r st')"
    using l1(2) l2(2) by (intro replays_bind)
  with served_append [OF l1(1) l2(1)] f
  show "\<exists>l. served l c (snd (case f c of (r, c') \<Rightarrow> f2 r c'))
      \<and> replays l (fst (case f c of (r, c') \<Rightarrow> f2 r c')) (\<lambda>st. case g st of (r, st') \<Rightarrow> g2 r st')"
    by auto
qed

lemma tracks_ret: "tracks (\<lambda>c. (r, c)) (\<lambda>st. (r, st))"
  by (auto simp: tracks_def waits_def replays_def intro!: exI [of _ "[]"])

lemma tracks_def_of: "(\<And>c. f c = f' c) \<Longrightarrow> (\<And>st. g st = g' st) \<Longrightarrow> tracks f' g' \<Longrightarrow> tracks f g"
  by (simp add: tracks_def waits_def replays_def)

lemma tracks_map:
  assumes "tracks f g"
  shows "tracks (\<lambda>c. (h (fst (f c)), snd (f c))) (\<lambda>st. (h (fst (g st)), snd (g st)))"
proof -
  have "tracks (\<lambda>c. case f c of (r, c') \<Rightarrow> (h r, c')) (\<lambda>st. case g st of (r, st') \<Rightarrow> (h r, st'))"
    by (rule tracks_bind [OF assms tracks_ret])
  then show ?thesis by (simp add: case_prod_beta)
qed

lemma tracks_snd: "tracks f g \<Longrightarrow> tracks (\<lambda>c. (r, snd (f c))) (\<lambda>st. (r, snd (g st)))"
  by (rule tracks_map [where h = "\<lambda>_. r"])

lemma tracks_if: "tracks f1 g1 \<Longrightarrow> tracks f2 g2 \<Longrightarrow> tracks (\<lambda>c. if b then f1 c else f2 c) (\<lambda>st. if b then g1 st else g2 st)"
  by (cases b) simp_all

lemma tracks_case_sum:
  "(\<And>e. tracks (f1 e) (g1 e)) \<Longrightarrow> (\<And>x. tracks (f2 x) (g2 x))
     \<Longrightarrow> tracks (\<lambda>c. case r of Inl e \<Rightarrow> f1 e c | Inr x \<Rightarrow> f2 x c) (\<lambda>st. case r of Inl e \<Rightarrow> g1 e st | Inr x \<Rightarrow> g2 x st)"
  by (cases r) simp_all

lemma tracks_case_outcome:
  "(\<And>m. tracks (f1 m) (g1 m)) \<Longrightarrow> (\<And>x. tracks (f2 x) (g2 x))
     \<Longrightarrow> tracks (\<lambda>c. case r of Panic m \<Rightarrow> f1 m c | Ret x \<Rightarrow> f2 x c) (\<lambda>st. case r of Panic m \<Rightarrow> g1 m st | Ret x \<Rightarrow> g2 x st)"
  by (cases r) simp_all

lemma tracks_case_option:
  "tracks f1 g1 \<Longrightarrow> (\<And>x. tracks (f2 x) (g2 x))
     \<Longrightarrow> tracks (\<lambda>c. case r of None \<Rightarrow> f1 c | Some x \<Rightarrow> f2 x c) (\<lambda>st. case r of None \<Rightarrow> g1 st | Some x \<Rightarrow> g2 x st)"
  by (cases r) simp_all

lemma tracks_case_prod:
  "(\<And>x y. tracks (f x y) (g x y)) \<Longrightarrow> tracks (\<lambda>c. case p of (x, y) \<Rightarrow> f x y c) (\<lambda>st. case p of (x, y) \<Rightarrow> g x y st)"
  by (cases p) simp

lemmas tracks_intros = tracks_ret tracks_if tracks_case_sum tracks_case_outcome tracks_case_option tracks_case_prod

section \<open>The calls of the client\<close>

lemma tracks_call:
  assumes "\<And>c. serve call c = map_prod h id (f c)" "\<And>c r c'. f c = (r, c') \<Longrightarrow> sel (h r) = Some r"
  shows "tracks f (ask call sel err)"
  unfolding tracks_def
proof (intro conjI allI)
  show "waits (ask call sel err)" by (simp add: waits_def ask_def)
next
  fix c
  obtain r c' where f: "f c = (r, c')" by fastforce
  from assms(1) [of c] assms(2) [OF f] f
  show "\<exists>l. served l c (snd (f c)) \<and> replays l (fst (f c)) (ask call sel err)"
    by (intro exI [of _ "[(call, h r)]"]) (simp add: replays_def ask_def)
qed

lemma sel_shim_AnsShim: "(\<And>s. r = Inr s \<Longrightarrow> P s) \<Longrightarrow> sel_shim P (AnsShim r) = Some r"
  by (cases r) simp_all

lemma sel_node_AnsNode: "(\<And>nd. r = Inr nd \<Longrightarrow> P nd) \<Longrightarrow> sel_node P (AnsNode r) = Some r"
  by (cases r) simp_all

lemma tracks_GetShim: "tracks (k_GetShim mem_kube n) (k_GetShim replay_kube n)"
  by (simp add: replay_kube_def, rule tracks_call [where h = AnsShim]) (auto intro!: sel_shim_AnsShim dest: mem_kube.GetShim_name)

lemma tracks_UpdateShim: "tracks (k_UpdateShim mem_kube s) (k_UpdateShim replay_kube s)"
  by (simp add: replay_kube_def, rule tracks_call [where h = AnsShim]) (auto intro!: sel_shim_AnsShim dest: mem_kube.UpdateShim_same)

lemma tracks_GetNode: "tracks (k_GetNode mem_kube n) (k_GetNode replay_kube n)"
  by (simp add: replay_kube_def, rule tracks_call [where h = AnsNode]) (auto intro!: sel_node_AnsNode dest: mem_kube.GetNode_name)

lemma tracks_UpdateNode: "tracks (k_UpdateNode mem_kube nd) (k_UpdateNode replay_kube nd)"
  by (simp add: replay_kube_def, rule tracks_call [where h = AnsNode]) (auto intro!: sel_node_AnsNode dest: mem_kube.UpdateNode_same)

lemma tracks_GetJob: "tracks (k_GetJob mem_kube n) (k_GetJob replay_kube n)"
  by (simp add: replay_kube_def, rule tracks_call [where h = AnsJob]) simp_all

lemma tracks_GetRuntimeClass: "tracks (k_GetRuntimeClass mem_kube n) (k_GetRuntimeClass replay_kube n)"
  by (simp add: replay_kube_def, rule tracks_call [where h = AnsRuntimeClass]) simp_all

lemma tracks_ListNodes: "tracks (k_ListNodes mem_kube sel) (k_ListNodes replay_kube sel)"
  by (simp add: replay_kube_def, rule tracks_call [where h = AnsNodes]) simp_all

lemma tracks_PatchJob: "tracks (k_PatchJob mem_kube j data) (k_PatchJob replay_kube j data)"
  by (simp add: replay_kube_def, rule tracks_call [where h = AnsDone]) simp_all

lemma tracks_PatchRuntimeClass: "tracks (k_PatchRuntimeClass mem_kube rc data) (k_PatchRuntimeClass replay_kube rc data)"
  by (simp add: replay_kube_def, rule tracks_call [where h = AnsDone]) simp_all

text \<open>What does not go to the server is the same for both.\<close>

lemma replay_pure:
  "k_MarshalJob replay_kube = k_MarshalJob mem_kube" "k_MarshalRuntimeClass replay_kube = k_MarshalRuntimeClass mem_kube"
  "k_IsNotFound replay_kube = k_IsNotFound mem_kube" "k_IgnoreNotFound replay_kube = k_IgnoreNotFound mem_kube"
  "k_ContainsFinalizer replay_kube = k_ContainsFinalizer mem_kube" "k_AddFinalizer replay_kube = k_AddFinalizer mem_kube"
  "k_RemoveFinalizer replay_kube = k_RemoveFinalizer mem_kube" "k_OwnJob replay_kube = k_OwnJob mem_kube"
  "k_OwnRuntimeClass replay_kube = k_OwnRuntimeClass mem_kube"
  by (simp_all add: replay_kube_def)

lemma replay_manifests:
  "createJobManifest replay_kube = createJobManifest mem_kube"
  "createRuntimeClassManifest replay_kube = createRuntimeClassManifest mem_kube"
  by (simp_all only: fun_eq_iff createJobManifest_def createRuntimeClassManifest_def replay_pure simp_thms)

section \<open>The operations of the reconcilers\<close>

lemma tracks_updateNodeLabels: "tracks (updateNodeLabels mem_kube nd shim status) (updateNodeLabels replay_kube nd shim status)"
  by (rule tracks_def_of [OF updateNodeLabels_def updateNodeLabels_def], unfold Let_def)
     (intro tracks_intros tracks_bind [OF tracks_UpdateNode])

lemma tracks_patch_job: "tracks (patch_job mem_kube shim nd job) (patch_job replay_kube shim nd job)"
  by (rule tracks_def_of [OF patch_job_def patch_job_def], unfold replay_pure)
     (intro tracks_intros tracks_bind [OF tracks_PatchJob] tracks_bind [OF tracks_updateNodeLabels])

lemma tracks_label_and_patch:
  "tracks (label_and_patch mem_kube env shim nd status op artifact) (label_and_patch replay_kube env shim nd status op artifact)"
  by (rule tracks_def_of [OF label_and_patch_def label_and_patch_def], unfold replay_manifests)
     (intro tracks_intros tracks_bind [OF tracks_updateNodeLabels] tracks_patch_job)

lemma tracks_deployJobOnNode: "tracks (deployJobOnNode mem_kube env shim node op) (deployJobOnNode replay_kube env shim node op)"
  by (rule tracks_def_of [OF deployJobOnNode_def deployJobOnNode_def], unfold Let_def)
     (intro tracks_intros tracks_bind [OF tracks_GetNode] tracks_label_and_patch)

lemma tracks_rollout: "tracks (rollout mem_kube env shim nodes errs) (rollout replay_kube env shim nodes errs)"
proof (induction nodes arbitrary: errs)
  case (Cons node nodes)
  show ?case
    by (rule tracks_def_of [OF rollout.simps(2) rollout.simps(2)])
       (intro tracks_intros tracks_bind [OF tracks_deployJobOnNode] Cons)
qed (intro tracks_def_of [OF rollout.simps(1) rollout.simps(1)] tracks_ret)

lemma tracks_handleDeleteShim: "tracks (handleDeleteShim mem_kube env shim nodes) (handleDeleteShim replay_kube env shim nodes)"
proof (induction nodes)
  case (Cons node nodes)
  show ?case
    by (rule tracks_def_of [OF handleDeleteShim.simps(2) handleDeleteShim.simps(2)], unfold replay_pure)
       (intro tracks_intros tracks_bind [OF tracks_deployJobOnNode] Cons)
qed (intro tracks_def_of [OF handleDeleteShim.simps(1) handleDeleteShim.simps(1)] tracks_ret)

lemma tracks_recreateStrategyRollout:
  "tracks (recreateStrategyRollout mem_kube env shim nodes) (recreateStrategyRollout replay_kube env shim nodes)"
  by (rule tracks_def_of [OF recreateStrategyRollout_def recreateStrategyRollout_def])
     (intro tracks_intros tracks_bind [OF tracks_rollout])

lemma tracks_handleInstallShim: "tracks (handleInstallShim mem_kube env shim nodes) (handleInstallShim replay_kube env shim nodes)"
  by (rule tracks_def_of [OF handleInstallShim_def handleInstallShim_def], unfold Let_def)
     (intro tracks_intros tracks_recreateStrategyRollout)

lemma tracks_handleDeployRuntimeClass: "tracks (handleDeployRuntimeClass mem_kube shim) (handleDeployRuntimeClass replay_kube shim)"
  by (rule tracks_def_of [OF handleDeployRuntimeClass_def handleDeployRuntimeClass_def], unfold replay_manifests replay_pure)
     (intro tracks_intros tracks_bind [OF tracks_PatchRuntimeClass])

lemma tracks_getRuntimeClass: "tracks (getRuntimeClass mem_kube shim) (getRuntimeClass replay_kube shim)"
  by (rule tracks_def_of [OF getRuntimeClass_def getRuntimeClass_def])
     (intro tracks_intros tracks_bind [OF tracks_GetRuntimeClass])

lemma tracks_runtimeClassExists: "tracks (runtimeClassExists mem_kube shim) (runtimeClassExists replay_kube shim)"
  by (rule tracks_def_of [OF runtimeClassExists_def runtimeClassExists_def])
     (intro tracks_intros tracks_bind [OF tracks_getRuntimeClass])

lemma tracks_updateStatus: "tracks (updateStatus mem_kube shim nodes) (updateStatus replay_kube shim nodes)"
  by (rule tracks_def_of [OF updateStatus_def updateStatus_def], unfold Let_def)
     (intro tracks_bind [OF tracks_UpdateShim] tracks_bind [OF tracks_GetShim] tracks_intros)

lemma tracks_removeFinalizerFromShim: "tracks (removeFinalizerFromShim mem_kube shim) (removeFinalizerFromShim replay_kube shim)"
  by (rule tracks_def_of [OF removeFinalizerFromShim_def removeFinalizerFromShim_def], unfold Let_def replay_pure)
     (intro tracks_bind [OF tracks_UpdateShim] tracks_intros)

lemma tracks_ensureFinalizerForShim: "tracks (ensureFinalizerForShim mem_kube shim f) (ensureFinalizerForShim replay_kube shim f)"
  by (rule tracks_def_of [OF ensureFinalizerForShim_def ensureFinalizerForShim_def], unfold Let_def replay_pure)
     (intro tracks_bind [OF tracks_UpdateShim] tracks_intros)

lemma tracks_getNodeList:
  "tracks (getNodeListFromShimsNodeSelector mem_kube shim) (getNodeListFromShimsNodeSelector replay_kube shim)"
  by (rule tracks_def_of [OF getNodeListFromShimsNodeSelector_def getNodeListFromShimsNodeSelector_def])
     (intro tracks_bind [OF tracks_ListNodes] tracks_intros)

lemma tracks_reconcile_install: "tracks (reconcile_install mem_kube env shim nodes) (reconcile_install replay_kube env shim nodes)"
  by (rule tracks_def_of [OF reconcile_install_def reconcile_install_def])
     (intro tracks_bind [OF tracks_runtimeClassExists] tracks_case_prod tracks_bind tracks_intros
        tracks_handleDeployRuntimeClass tracks_handleInstallShim)

lemma tracks_reconcile_delete: "tracks (reconcile_delete mem_kube env shim nodes) (reconcile_delete replay_kube env shim nodes)"
  by (rule tracks_def_of [OF reconcile_delete_def reconcile_delete_def], unfold replay_pure)
     (intro tracks_bind [OF tracks_handleDeleteShim] tracks_bind [OF tracks_removeFinalizerFromShim] tracks_intros)

lemma tracks_reconcile_body: "tracks (reconcile_body mem_kube env shim) (reconcile_body replay_kube env shim)"
  by (rule tracks_def_of [OF reconcile_body_def reconcile_body_def])
     (intro tracks_bind [OF tracks_getNodeList] tracks_bind [OF tracks_updateStatus] tracks_bind [OF tracks_reconcile_install]
        tracks_reconcile_delete tracks_intros)

lemma tracks_Reconcile: "tracks (Reconcile mem_kube env req) (Reconcile replay_kube env req)"
  by (rule tracks_def_of [OF Reconcile_def Reconcile_def], unfold replay_pure)
     (intro tracks_bind [OF tracks_GetShim] tracks_bind [OF tracks_reconcile_body] tracks_snd tracks_ensureFinalizerForShim tracks_intros)

lemma tracks_getNode: "tracks (getNode mem_kube n) (getNode replay_kube n)"
  by (rule tracks_def_of [OF getNode_def getNode_def], unfold replay_pure)
     (intro tracks_bind [OF tracks_GetNode] tracks_intros)

lemma tracks_job_updateNodeLabels:
  "tracks (\<lambda>c. ignoring (job_updateNodeLabels mem_kube nd s status c)) (\<lambda>c. ignoring (job_updateNodeLabels replay_kube nd s status c))"
  unfolding ignoring_def job_updateNodeLabels_def
  by (intro tracks_bind tracks_UpdateNode tracks_intros)

lemma tracks_deleteNodeLabel: "tracks (deleteNodeLabel mem_kube nd s) (deleteNodeLabel replay_kube nd s)"
  by (rule tracks_def_of [OF deleteNodeLabel_def deleteNodeLabel_def])
     (intro tracks_bind [OF tracks_UpdateNode] tracks_intros)

lemma tracks_report: "tracks (report mem_kube job nd s) (report replay_kube job nd s)"
  by (rule tracks_def_of [OF report_def report_def], unfold Let_def)
     (intro tracks_if tracks_ret tracks_job_updateNodeLabels tracks_snd tracks_deleteNodeLabel)

lemma tracks_job_Reconcile: "tracks (job_Reconcile mem_kube req) (job_Reconcile replay_kube req)"
  by (rule tracks_def_of [OF job_Reconcile_def job_Reconcile_def], unfold replay_pure)
     (intro tracks_bind [OF tracks_GetJob] tracks_bind [OF tracks_getNode] tracks_report tracks_intros)

section \<open>Uninterrupted runs\<close>

lemma run_served:
  assumes "served l (api w) c'" "\<And>k. k < length l \<Longrightarrow> next_call env r (as @ take k (map snd l)) = Some (fst (l ! k))"
    "i < length (runs w)" "runs w ! i = (r, as)"
  shows "(cluster_step env)\<^sup>*\<^sup>* w (w\<lparr>api := c', runs := (runs w)[i := (r, as @ map snd l)]\<rparr>)"
  using assms
proof (induction l arbitrary: as w)
  case Nil
  then have "w\<lparr>api := c', runs := (runs w)[i := (r, as @ map snd [])]\<rparr> = w" by (metis append_Nil2 list.map(1) list_update_id
        served.simps(1) world.surjective world.update_convs(1) world.update_convs(3))
  then show ?case by simp
next
  case (Cons p l)
  obtain call a where p: "p = (call, a)" by fastforce
  with Cons.prems(1) obtain c1 where c1: "serve call (api w) = (a, c1)" "served l c1 c'" by (auto split: prod.splits)
  let ?w1 = "w\<lparr>api := c1, runs := (runs w)[i := (r, as @ [a])]\<rparr>"
  have "next_call env r as = Some call" using Cons.prems(2) [of 0] p by simp
  then have step: "cluster_step env w ?w1" using Cons.prems(3,4) c1(1) by (intro cluster_step.run_calls)
  have "next_call env r ((as @ [a]) @ take k (map snd l)) = Some (fst (l ! k))" if "k < length l" for k
    using Cons.prems(2) [of "Suc k"] that p by simp
  then have "(cluster_step env)\<^sup>*\<^sup>* ?w1 (?w1\<lparr>api := c', runs := (runs ?w1)[i := (r, (as @ [a]) @ map snd l)]\<rparr>)"
    using Cons.prems(3) c1(2) by (intro Cons.IH) simp_all
  with step show ?case by (simp add: p converse_rtranclp_into_rtranclp)
qed

lemma tracked_run:
  assumes "tracks f g" "\<And>as. next_call env r as = asked (snd (g \<lparr>answers = as, asked = None\<rparr>))"
  shows "\<exists>as. (cluster_step env)\<^sup>*\<^sup>* w (w\<lparr>api := snd (f (api w)), runs := (r, as) # runs w\<rparr>)
    \<and> g \<lparr>answers = as, asked = None\<rparr> = (fst (f (api w)), \<lparr>answers = [], asked = None\<rparr>)"
proof -
  from assms(1) obtain l where l: "served l (api w) (snd (f (api w)))" "replays l (fst (f (api w))) g"
    unfolding tracks_def by blast
  let ?w1 = "w\<lparr>runs := (r, []) # runs w\<rparr>"
  have "cluster_step env w ?w1" by (rule cluster_step.run_starts)
  moreover have "(cluster_step env)\<^sup>*\<^sup>* ?w1 (?w1\<lparr>api := snd (f (api w)), runs := (runs ?w1)[0 := (r, [] @ map snd l)]\<rparr>)"
    using l assms(2) by (intro run_served) (simp_all add: replays_def)
  ultimately have "(cluster_step env)\<^sup>*\<^sup>* w (w\<lparr>api := snd (f (api w)), runs := (r, map snd l) # runs w\<rparr>)"
    by (simp add: converse_rtranclp_into_rtranclp)
  moreover have "g \<lparr>answers = map snd l, asked = None\<rparr> = (fst (f (api w)), \<lparr>answers = [], asked = None\<rparr>)"
    using l(2) unfolding replays_def by (metis append_Nil2)
  ultimately show ?thesis by blast
qed

text \<open>
  The steps of the cluster are those of the code: a run of the shim reconciler that nobody interrupts
  leaves the server as \<open>Reconcile\<close> leaves it, returns the same, and has then no call left.
\<close>

lemma Reconcile_uninterrupted:
  "\<exists>as. (cluster_step env)\<^sup>*\<^sup>* w (w\<lparr>api := snd (Reconcile mem_kube env req (api w)), runs := (ShimRun req, as) # runs w\<rparr>)
    \<and> Reconcile replay_kube env req \<lparr>answers = as, asked = None\<rparr>
        = (fst (Reconcile mem_kube env req (api w)), \<lparr>answers = [], asked = None\<rparr>)"
  by (rule tracked_run [OF tracks_Reconcile]) simp

lemma job_Reconcile_uninterrupted:
  "\<exists>as. (cluster_step env)\<^sup>*\<^sup>* w (w\<lparr>api := snd (job_Reconcile mem_kube req (api w)), runs := (JobRun req, as) # runs w\<rparr>)
    \<and> job_Reconcile replay_kube req \<lparr>answers = as, asked = None\<rparr>
        = (fst (job_Reconcile mem_kube req (api w)), \<lparr>answers = [], asked = None\<rparr>)"
  by (rule tracked_run [OF tracks_job_Reconcile]) simp

end
