(* ===== verification/Node_Jobs.thy ===== *)
theory Node_Jobs
  imports Cluster_Runs
begin

text \<open>
  What single operations make of the server in memory: a node is relabelled, a job is sent to a node or to one node after
  the other, a finished job is reported. The theories on progress put these together; the job is an install job or
  an uninstall job.
\<close>

section \<open>Objects with distinct names\<close>

lemma find_by_Inr: "find_by f n xs = Inr x \<Longrightarrow> x \<in> set xs \<and> f x = n"
  by (auto simp: find_by_def find_Some_split split: option.splits)

lemma find_by_distinct: "distinct (map f xs) \<Longrightarrow> x \<in> set xs \<Longrightarrow> find_by f (f x) xs = Inr x"
  by (induction xs) (auto simp: find_by_def split: option.splits)

lemma find_by_fresh: "n \<notin> f ` set xs \<Longrightarrow> find_by f n xs = Inl ApiNotFound"
  by (induction xs) (auto simp: find_by_def split: option.splits)

lemma put_by_names: "map f (put_by f x xs) = map f xs"
  by (simp add: put_by_def)

lemma find_by_put_same: "find_by f (f x) xs = Inr old \<Longrightarrow> find_by f (f x) (put_by f x xs) = Inr x"
  by (induction xs) (auto simp: find_by_def put_by_def split: option.splits if_splits)

text \<open>The objects with a name in \<open>N\<close> are changed by \<open>g\<close>.\<close>

definition change :: "('a \<Rightarrow> string) \<Rightarrow> string set \<Rightarrow> ('a \<Rightarrow> 'a) \<Rightarrow> 'a list \<Rightarrow> 'a list" where
  "change f N g xs = map (\<lambda>x. if f x \<in> N then g x else x) xs"

lemma change_empty [simp]: "change f {} g xs = xs"
  by (simp add: change_def)

lemma change_names: "(\<And>x. f (g x) = f x) \<Longrightarrow> map f (change f N g xs) = map f xs"
  by (simp add: change_def)

lemma change_change: "(\<And>x. f (g x) = f x) \<Longrightarrow> M \<inter> N = {} \<Longrightarrow> change f M g (change f N g xs) = change f (M \<union> N) g xs"
  by (auto simp: change_def)

lemma change_comp: "(\<And>x. f (g x) = f x) \<Longrightarrow> change f N h (change f N g xs) = change f N (h \<circ> g) xs"
  by (auto simp: change_def)

lemma put_by_change: "distinct (map f xs) \<Longrightarrow> x \<in> set xs \<Longrightarrow> f (g x) = f x \<Longrightarrow> put_by f (g x) xs = change f {f x} g xs"
  by (auto simp: put_by_def change_def dest: distinct_map [THEN iffD1, THEN conjunct2, THEN inj_onD])

lemma change_others:
  assumes "distinct (map f (x # xs))" "set (x # xs) \<subseteq> set ys"
  shows "set xs \<subseteq> set (change f {f x} g ys)"
proof
  fix y assume y: "y \<in> set xs"
  have "f y \<noteq> f x" using assms(1) imageI [OF y, of f] by (metis distinct.simps(2) list.set_map list.simps(9))
  then show "y \<in> set (change f {f x} g ys)" using assms(2) y by (force simp: change_def)
qed

lemma filter_map_if: "\<forall>x \<in> set xs. P x \<longrightarrow> P (g x) \<Longrightarrow> filter P (map (\<lambda>x. if P x then g x else x) xs) = map g (filter P xs)"
  by (induction xs) auto

lemma change_filter:
  assumes "distinct (map f xs)" "\<forall>x \<in> set (filter P xs). P (g x)"
  shows "filter P (change f (f ` set (filter P xs)) g xs) = map g (filter P xs)"
proof -
  have "f x \<in> f ` set (filter P xs) \<longleftrightarrow> P x" if "x \<in> set xs" for x
    using that assms(1) by (auto simp: distinct_map dest: inj_onD)
  then have "change f (f ` set (filter P xs)) g xs = map (\<lambda>x. if P x then g x else x) xs" by (simp add: change_def)
  with filter_map_if [of xs P g] assms(2) show ?thesis by simp
qed

lemma find_by_append: "find_by f n xs = Inr x \<Longrightarrow> find_by f n (xs @ ys) = Inr x"
  by (induction xs) (auto simp: find_by_def split: option.splits if_splits)

section \<open>Labels\<close>

definition relabel :: "string option \<Rightarrow> string \<Rightarrow> Node \<Rightarrow> Node" where
  "relabel v name nd =
     (case labels_after v name (om_Labels (node_meta nd)) of
        Panic _ \<Rightarrow> nd
      | Ret m \<Rightarrow> (with_labels nd m)\<lparr>node_meta := bump (node_meta (with_labels nd m))\<rparr>)"

lemma relabel_simps [simp]:
  "node_Name (relabel v name nd) = node_Name nd" "OperatingSystem (relabel v name nd) = OperatingSystem nd"
  "Architecture (relabel v name nd) = Architecture nd"
  "om_Labels (node_meta (relabel v name nd)) = None \<longleftrightarrow> om_Labels (node_meta nd) = None"
  by (auto simp: relabel_def bump_def labels_after_def map_set_def map_delete_def split: outcome.split option.splits)

lemma labels_after_Ret: "labels \<noteq> None \<Longrightarrow> \<exists>m. labels_after v name labels = Ret m"
  by (auto simp: labels_after_def map_set_def split: option.split)

lemma relabel_get:
  assumes "om_Labels (node_meta nd) \<noteq> None"
  shows "map_get (om_Labels (node_meta (relabel v name nd))) k = (if k = name then v else map_get (om_Labels (node_meta nd)) k)"
proof -
  obtain m where m: "labels_after v name (om_Labels (node_meta nd)) = Ret m" using labels_after_Ret [OF assms] by blast
  from labels_after_get [OF m] show ?thesis by (simp add: relabel_def m bump_def)
qed

lemma selects_relabel: "name \<notin> fst ` set sel \<Longrightarrow> om_Labels (node_meta nd) \<noteq> None \<Longrightarrow> selects sel (relabel v name nd) = selects sel nd"
  by (induction sel) (auto simp: selects_def relabel_get)

lemma UpdateNode_mem:
  assumes "find_by node_Name (node_Name nd) (srv_nodes c) = Inr nd" "labels_after v name (om_Labels (node_meta nd)) = Ret m"
  shows "k_UpdateNode mem_kube (with_labels nd m) c
    = (Inr (relabel v name nd), c\<lparr>srv_nodes := put_by node_Name (relabel v name nd) (srv_nodes c)\<rparr>)"
  using assms by (simp add: mem_kube_def mem_UpdateNode_def relabel_def Let_def) (simp add: with_labels_def)

section \<open>Sending a job\<close>

text \<open>The label that a node gets when a job is sent, and the one that the completed job is reported with.\<close>

definition op_status :: "string \<Rightarrow> string" where
  "op_status op = (if op = INSTALL then ''pending'' else ''uninstall'')"

definition op_verdict :: "string \<Rightarrow> string option" where
  "op_verdict op = (if op = INSTALL then Some ''provisioned'' else None)"

definition sent_job :: "(string \<Rightarrow> string) \<Rightarrow> Shim \<Rightarrow> string \<Rightarrow> Node \<Rightarrow> Job" where
  "sent_job env shim op nd =
     projr (createJobManifest mem_kube env shim nd op (if op = INSTALL then projr (resolveArtifactForNode shim nd) else no_artifact))"

lemma mem_createJobManifest: "createJobManifest mem_kube env shim nd op a = Inr (projr (createJobManifest mem_kube env shim nd op a))"
  by (simp add: createJobManifest_def Let_def mem_kube_def)

abbreviation job_Name :: "Job \<Rightarrow> string" where "job_Name j \<equiv> om_Name (job_meta j)"

lemma sent_job_simps:
  "job_Name (sent_job env shim op nd) = job_name nd shim op" "pod_NodeName (job_Pod (sent_job env shim op nd)) = node_Name nd"
  "map_get (om_Labels (job_meta (sent_job env shim op nd))) ''spinkube.dev/shimName'' = Some (shim_Name shim)"
  "map_get (om_Annotations (job_meta (sent_job env shim op nd))) ''spinkube.dev/operation'' = Some op"
  using createJobManifest_cases [OF mem_kube.kube_helpers_axioms mem_createJobManifest] unfolding sent_job_def by blast+

text \<open>The node that is read is labelled, and the job is patched.\<close>

definition sends :: "Shim \<Rightarrow> string \<Rightarrow> Node \<Rightarrow> bool" where
  "sends shim op nd \<longleftrightarrow> (op = INSTALL \<and> \<not> isl (resolveArtifactForNode shim nd) \<or> op = UNINSTALL) \<and> om_Labels (node_meta nd) \<noteq> None"

lemma deploy_patches:
  assumes "find_by node_Name (node_Name node) (srv_nodes c) = Inr nd" "sends shim op nd"
  defines "nd' \<equiv> relabel (Some (op_status op)) (shim_Name shim) nd"
  shows "deployJobOnNode mem_kube env shim node op c
    = patch_job mem_kube shim nd' (sent_job env shim op nd) (c\<lparr>srv_nodes := put_by node_Name nd' (srv_nodes c)\<rparr>)"
proof -
  let ?a = "if op = INSTALL then projr (resolveArtifactForNode shim nd) else no_artifact"
  have labels: "om_Labels (node_meta nd) \<noteq> None"
    and op: "op = INSTALL \<and> \<not> isl (resolveArtifactForNode shim nd) \<or> op = UNINSTALL" using assms(2) by (simp_all add: sends_def)
  obtain m where m: "labels_after (Some (op_status op)) (shim_Name shim) (om_Labels (node_meta nd)) = Ret m"
    using labels_after_Ret [OF labels] by blast
  have job: "createJobManifest mem_kube env shim nd' op ?a = Inr (sent_job env shim op nd)"
    unfolding nd'_def sent_job_def createJobManifest_name [OF relabel_simps(1)] by (rule mem_createJobManifest)
  have get: "k_GetNode mem_kube \<lparr>nn_Name = node_Name node, nn_Namespace = []\<rparr> c = (Inr nd, c)"
    using assms(1) by (simp add: mem_kube_def)
  have own: "find_by node_Name (node_Name nd) (srv_nodes c) = Inr nd" using assms(1) find_by_Inr [OF assms(1)] by simp
  have "label_and_patch mem_kube env shim nd (op_status op) op ?a c
      = patch_job mem_kube shim nd' (sent_job env shim op nd) (c\<lparr>srv_nodes := put_by node_Name nd' (srv_nodes c)\<rparr>)"
    using m by (simp add: label_and_patch_def updateNodeLabels_def labels_after_def Let_def UpdateNode_mem [OF own m] job nd'_def [symmetric])
  moreover have "deployJobOnNode mem_kube env shim node op c = label_and_patch mem_kube env shim nd (op_status op) op ?a c"
    using op by (cases "resolveArtifactForNode shim nd")
      (auto simp: deployJobOnNode_def get op_status_def ProvisioningStatusPending_def INSTALL_def UNINSTALL_def)
  ultimately show ?thesis by simp
qed

text \<open>There is no job of the name yet, and the server takes it.\<close>

definition sendable :: "Shim \<Rightarrow> string \<Rightarrow> server \<Rightarrow> Node \<Rightarrow> bool" where
  "sendable shim op c nd \<longleftrightarrow> sends shim op nd
     \<and> job_name nd shim op \<notin> job_Name ` set (srv_jobs c) \<and> job_name nd shim op \<notin> set (srv_refused c)"

lemma deploy_mem:
  assumes "find_by node_Name (node_Name nd) (srv_nodes c) = Inr nd" "sendable shim op c nd"
  shows "deployJobOnNode mem_kube env shim nd op c
    = (Ret None, c\<lparr>srv_nodes := put_by node_Name (relabel (Some (op_status op)) (shim_Name shim) nd) (srv_nodes c),
        srv_jobs := sent_job env shim op nd # srv_jobs c\<rparr>)"
proof -
  have "job_name nd shim op \<notin> job_Name ` set (srv_jobs c)" "job_name nd shim op \<notin> set (srv_refused c)" and sends: "sends shim op nd"
    using assms(2) by (simp_all add: sendable_def)
  then show ?thesis unfolding deploy_patches [OF assms(1) sends]
    by (simp add: patch_job_def mem_kube_def mem_PatchJob_def sent_job_simps find_by_fresh)
qed

lemma sent_job_relabel: "sent_job env s op (relabel v name nd) = sent_job env s op nd"
proof -
  have "resolveArtifactForNode s (relabel v name nd) = resolveArtifactForNode s nd"
    unfolding resolveArtifactForNode_def relabel_simps by (rule refl)
  then show ?thesis by (simp add: sent_job_def createJobManifest_name [of "relabel v name nd" nd])
qed

section \<open>Jobs for one node after the other\<close>

definition sent :: "(string \<Rightarrow> string) \<Rightarrow> Shim \<Rightarrow> string \<Rightarrow> Node list \<Rightarrow> server \<Rightarrow> server" where
  "sent env shim op xs c =
     c\<lparr>srv_nodes := change node_Name (node_Name ` set xs) (relabel (Some (op_status op)) (shim_Name shim)) (srv_nodes c),
       srv_jobs := rev (map (sent_job env shim op) xs) @ srv_jobs c\<rparr>"

definition sweepable :: "Shim \<Rightarrow> string \<Rightarrow> server \<Rightarrow> Node list \<Rightarrow> bool" where
  "sweepable shim op c xs \<longleftrightarrow> distinct (map node_Name (srv_nodes c)) \<and> set xs \<subseteq> set (srv_nodes c) \<and> distinct (map node_Name xs)
     \<and> (\<forall>nd \<in> set xs. sendable shim op c nd) \<and> distinct (map (\<lambda>nd. job_name nd shim op) xs)"

lemma sent_Nil [simp]: "sent env shim op [] c = c"
  by (cases c) (simp add: sent_def)

lemma sent_Cons: "node_Name nd \<notin> node_Name ` set xs \<Longrightarrow> sent env shim op xs (sent env shim op [nd] c) = sent env shim op (nd # xs) c"
  by (simp add: sent_def change_change Un_commute)

lemma sweep_step:
  assumes "sweepable shim op c (nd # xs)"
  shows "deployJobOnNode mem_kube env shim nd op c = (Ret None, sent env shim op [nd] c)"
    "sweepable shim op (sent env shim op [nd] c) xs" "sent env shim op xs (sent env shim op [nd] c) = sent env shim op (nd # xs) c"
proof -
  let ?f = "relabel (Some (op_status op)) (shim_Name shim)"
  have sw: "distinct (map node_Name (srv_nodes c))" "set (nd # xs) \<subseteq> set (srv_nodes c)" "distinct (map node_Name (nd # xs))"
    "\<forall>x \<in> set (nd # xs). sendable shim op c x" "distinct (map (\<lambda>nd. job_name nd shim op) (nd # xs))"
    using assms by (simp_all add: sweepable_def)
  have nd: "nd \<in> set (srv_nodes c)" using sw(2) by simp
  then have put: "put_by node_Name (?f nd) (srv_nodes c) = change node_Name {node_Name nd} ?f (srv_nodes c)"
    by (rule put_by_change [OF sw(1)]) simp
  show "deployJobOnNode mem_kube env shim nd op c = (Ret None, sent env shim op [nd] c)"
    using deploy_mem [OF find_by_distinct [OF sw(1) nd], of shim op env] sw(4) put by (simp add: sent_def)
  have other: "job_name x shim op \<noteq> job_name nd shim op" if "x \<in> set xs" for x
    using sw(5) imageI [OF that, of "\<lambda>nd. job_name nd shim op"] by (metis (mono_tags) distinct.simps(2) list.set_map list.simps(9))
  have "sendable shim op (sent env shim op [nd] c) x" if "x \<in> set xs" for x
    using sw(4) that other [OF that] by (simp add: sendable_def sends_def sent_def sent_job_simps)
  then show "sweepable shim op (sent env shim op [nd] c) xs"
    using sw change_others [OF sw(3,2), of ?f] by (simp add: sweepable_def sent_def change_names)
  show "sent env shim op xs (sent env shim op [nd] c) = sent env shim op (nd # xs) c" using sw(3) by (intro sent_Cons) simp
qed

text \<open>The rollout and the deletion over nodes that all need the job.\<close>

lemma rollout_mem:
  "sweepable shim INSTALL c xs \<Longrightarrow> \<forall>nd \<in> set xs. needs_install shim nd
     \<Longrightarrow> rollout mem_kube env shim xs errs c = (Ret (errs @ map (\<lambda>_. None) xs), sent env shim INSTALL xs c)"
proof (induction xs arbitrary: errs c)
  case (Cons nd xs)
  from Cons.IH [OF sweep_step(2) [OF Cons.prems(1)]] Cons.prems(2) sweep_step(1,3) [OF Cons.prems(1)] show ?case by simp
qed simp

lemma handleDeleteShim_mem:
  "sweepable shim UNINSTALL c xs \<Longrightarrow> \<forall>nd \<in> set xs. has_label nd (shim_Name shim)
     \<Longrightarrow> handleDeleteShim mem_kube env shim xs c = (Ret None, sent env shim UNINSTALL xs c)"
proof (induction xs arbitrary: c)
  case (Cons nd xs)
  from Cons.IH [OF sweep_step(2) [OF Cons.prems(1)]] Cons.prems(2) sweep_step(1,3) [OF Cons.prems(1)] mem_kube.IgnoreNotFound_None
  show ?case by simp
qed simp

lemma rollout_filter: "rollout K env shim xs errs c = rollout K env shim (filter (needs_install shim) xs) errs c"
  by (induction xs arbitrary: errs c) (simp_all split: prod.split outcome.split)

lemma rollout_done: "\<forall>nd \<in> set xs. \<not> needs_install shim nd \<Longrightarrow> rollout K env shim xs errs c = (Ret errs, c)"
  by (induction xs) simp_all

lemma handleDeleteShim_filter:
  "handleDeleteShim K env shim xs c = handleDeleteShim K env shim (filter (\<lambda>nd. has_label nd (shim_Name shim)) xs) c"
  by (induction xs arbitrary: c) (simp_all split: prod.split outcome.split)

text \<open>A job depends on the name and the specification of the shim only.\<close>

lemma same_spec:
  assumes "shim_Name s' = shim_Name s" "Spec s' = Spec s"
  shows "needs_install s' nd = needs_install s nd" "job_name nd s' op = job_name nd s op" "sent_job env s' op nd = sent_job env s op nd"
    "sweepable s' op c xs = sweepable s op c xs" "sent env s' op xs c = sent env s op xs c"
proof -
  have 1: "resolveArtifactForNode s' nd = resolveArtifactForNode s nd" for nd
    unfolding resolveArtifactForNode_def assms by (rule refl)
  have 2: "job_name nd s' op = job_name nd s op" for nd unfolding job_name_def assms by (rule refl)
  have "createJobManifest mem_kube env s' nd op a = createJobManifest mem_kube env s nd op a" for nd a
    using assms by (simp add: createJobManifest_def setOperationConfiguration_def provisioner_def job_name_def Let_def mem_kube_def)
  then have 3: "sent_job env s' op nd = sent_job env s op nd" for nd by (simp add: sent_job_def 1)
  show "needs_install s' nd = needs_install s nd" unfolding needs_install_def assms by (rule refl)
  show "job_name nd s' op = job_name nd s op" "sent_job env s' op nd = sent_job env s op nd" by (rule 2 3)+
  have "sent_job env s' op = sent_job env s op" by (rule ext) (rule 3)
  then show "sent env s' op xs c = sent env s op xs c" by (simp add: sent_def assms(1))
  show "sweepable s' op c xs = sweepable s op c xs" by (simp add: sweepable_def sendable_def sends_def 1 2)
qed

lemma sweepable_only:
  "sweepable s op (c\<lparr>srv_shims := shs\<rparr>) xs = sweepable s op c xs" "sweepable s op (c\<lparr>srv_classes := rcs\<rparr>) xs = sweepable s op c xs"
  by (simp_all add: sweepable_def sendable_def sends_def)

section \<open>Reporting the jobs\<close>

abbreviation done_condition :: JobCondition where
  "done_condition \<equiv> \<lparr>jc_Type = ''Complete'', jc_Status = ''True''\<rparr>"

definition done_jobs :: "string list \<Rightarrow> Job list \<Rightarrow> Job list" where
  "done_jobs names js = map (\<lambda>j. if job_Name j \<in> set names then j\<lparr>job_Conditions := [done_condition]\<rparr> else j) js"

lemma complete_mem: "fold (\<lambda>n. set_conditions n [done_condition]) names c = c\<lparr>srv_jobs := done_jobs names (srv_jobs c)\<rparr>"
proof (induction names arbitrary: c)
  case (Cons n names)
  show ?case by (simp add: Cons) (auto simp: set_conditions_def done_jobs_def)
qed (cases c, simp add: done_jobs_def)

lemma done_verdict:
  "op = INSTALL \<or> op = UNINSTALL \<Longrightarrow> verdict ((sent_job env s op nd)\<lparr>job_Conditions := [done_condition]\<rparr>) = Some (op_verdict op)"
  using sent_job_simps(4) [of env s op nd] by (auto simp: verdict_def op_verdict_def INSTALL_def UNINSTALL_def)

lemma job_Reconcile_mem:
  assumes "find_by job_Name n (srv_jobs c) = Inr j" "map_get (om_Labels (job_meta j)) ''spinkube.dev/shimName'' = Some name"
    "verdict j = Some v" "find_by node_Name (pod_NodeName (job_Pod j)) (srv_nodes c) = Inr nd" "om_Labels (node_meta nd) \<noteq> None"
  shows "job_Reconcile mem_kube \<lparr>nn_Name = n, nn_Namespace = k\<rparr> c
    = (Ret None, c\<lparr>srv_nodes := put_by node_Name (relabel v name nd) (srv_nodes c)\<rparr>)"
proof -
  obtain m where m: "labels_after v name (om_Labels (node_meta nd)) = Ret m" using labels_after_Ret [OF assms(5)] by blast
  have job: "k_GetJob mem_kube \<lparr>nn_Name = n, nn_Namespace = k\<rparr> c = (Inr j, c)" using assms(1) by (simp add: mem_kube_def)
  have node: "getNode mem_kube (pod_NodeName (job_Pod j)) c = ((nd, None), c)" using assms(4) by (simp add: getNode_def mem_kube_def)
  have "find_by node_Name (node_Name nd) (srv_nodes c) = Inr nd" using assms(4) find_by_Inr [OF assms(4)] by simp
  from UpdateNode_mem [OF this m] show ?thesis
    by (simp add: job_Reconcile_def job assms(2) node report_verdict assms(3) m)
qed

text \<open>The jobs \<open>jn\<close> of the nodes \<open>xs\<close> are reported one after the other.\<close>

lemma reports_mem:
  assumes "distinct (map node_Name (srv_nodes c))" "set xs \<subseteq> set (srv_nodes c)" "distinct (map node_Name xs)"
    "\<forall>nd \<in> set xs. om_Labels (node_meta nd) \<noteq> None \<and> (\<exists>j. find_by job_Name (jn nd) (srv_jobs c) = Inr j
       \<and> map_get (om_Labels (job_meta j)) ''spinkube.dev/shimName'' = Some name \<and> verdict j = Some v \<and> pod_NodeName (job_Pod j) = node_Name nd)"
  shows "fold (\<lambda>nd c. snd (job_Reconcile mem_kube \<lparr>nn_Name = jn nd, nn_Namespace = k\<rparr> c)) xs c
    = c\<lparr>srv_nodes := change node_Name (node_Name ` set xs) (relabel v name) (srv_nodes c)\<rparr>"
  using assms
proof (induction xs arbitrary: c)
  case Nil
  then show ?case by (cases c) simp
next
  case (Cons nd xs)
  let ?f = "relabel v name"
  let ?c1 = "c\<lparr>srv_nodes := change node_Name {node_Name nd} ?f (srv_nodes c)\<rparr>"
  have nd: "nd \<in> set (srv_nodes c)" using Cons.prems(2) by simp
  from Cons.prems(4) obtain j where j: "find_by job_Name (jn nd) (srv_jobs c) = Inr j"
    "map_get (om_Labels (job_meta j)) ''spinkube.dev/shimName'' = Some name" "verdict j = Some v"
    "pod_NodeName (job_Pod j) = node_Name nd" "om_Labels (node_meta nd) \<noteq> None" by auto
  have "find_by node_Name (pod_NodeName (job_Pod j)) (srv_nodes c) = Inr nd"
    unfolding j(4) by (rule find_by_distinct [OF Cons.prems(1) nd])
  then have step: "snd (job_Reconcile mem_kube \<lparr>nn_Name = jn nd, nn_Namespace = k\<rparr> c) = ?c1"
    using job_Reconcile_mem [OF j(1,2,3) _ j(5)] put_by_change [OF Cons.prems(1) nd, of ?f] by simp
  have "fold (\<lambda>nd c. snd (job_Reconcile mem_kube \<lparr>nn_Name = jn nd, nn_Namespace = k\<rparr> c)) xs ?c1
      = ?c1\<lparr>srv_nodes := change node_Name (node_Name ` set xs) ?f (srv_nodes ?c1)\<rparr>"
    using Cons.prems(1,3,4) change_others [OF Cons.prems(3,2)] by (intro Cons.IH) (simp_all add: change_names)
  with step change_change [of node_Name ?f "node_Name ` set xs" "{node_Name nd}" "srv_nodes c"] Cons.prems(3)
  show ?case by (simp add: Un_commute)
qed

lemma done_job_found:
  assumes "distinct (map (\<lambda>nd. job_name nd s op) ns)" "nd \<in> set ns" "names = map (\<lambda>nd. job_name nd s op) ns"
  shows "find_by job_Name (job_name nd s op) (done_jobs names (rev (map (sent_job env s op) ns) @ js))
    = Inr ((sent_job env s op nd)\<lparr>job_Conditions := [done_condition]\<rparr>)"
proof -
  let ?h = "\<lambda>j. if job_Name j \<in> set names then j\<lparr>job_Conditions := [done_condition]\<rparr> else j"
  let ?j = "?h (sent_job env s op nd)"
  have j: "?j = (sent_job env s op nd)\<lparr>job_Conditions := [done_condition]\<rparr>" using assms(2,3) by (simp add: sent_job_simps)
  have "map job_Name (rev (map (?h \<circ> sent_job env s op) ns)) = rev names"
    by (simp add: rev_map [symmetric] assms(3) o_def sent_job_simps if_distrib [of job_Name] cong: if_cong)
  then have "distinct (map job_Name (rev (map (?h \<circ> sent_job env s op) ns)))" using assms(1,3) by simp
  from find_by_distinct [OF this, of ?j] assms(2)
  have "find_by job_Name (job_Name ?j) (rev (map (?h \<circ> sent_job env s op) ns)) = Inr ?j" by simp
  then have "find_by job_Name (job_Name ?j) (rev (map (?h \<circ> sent_job env s op) ns) @ map ?h js) = Inr ?j" by (rule find_by_append)
  then show ?thesis unfolding j by (simp add: sent_job_simps rev_map [symmetric] done_jobs_def)
qed

text \<open>Jobs are sent to the nodes \<open>ns\<close>, they complete and are reported.\<close>

definition served_node :: "string \<Rightarrow> string \<Rightarrow> Node \<Rightarrow> Node" where
  "served_node op name nd = relabel (op_verdict op) name (relabel (Some (op_status op)) name nd)"

lemma served_node_simps [simp]:
  "node_Name (served_node op name nd) = node_Name nd" "om_Labels (node_meta (served_node op name nd)) = None \<longleftrightarrow> om_Labels (node_meta nd) = None"
  by (simp_all add: served_node_def)

lemma served_node_get:
  "om_Labels (node_meta nd) \<noteq> None
     \<Longrightarrow> map_get (om_Labels (node_meta (served_node op name nd))) k = (if k = name then op_verdict op else map_get (om_Labels (node_meta nd)) k)"
  by (simp add: served_node_def relabel_get del: not_None_eq)

lemma selects_served: "name \<notin> fst ` set sel \<Longrightarrow> om_Labels (node_meta nd) \<noteq> None \<Longrightarrow> selects sel (served_node op name nd) = selects sel nd"
  by (simp add: served_node_def selects_relabel del: not_None_eq)

lemma sent_reported:
  assumes "sweepable s op c ns" "names = map (\<lambda>nd. job_name nd s op) ns" "op = INSTALL \<or> op = UNINSTALL"
  shows "fold (\<lambda>n c. snd (job_Reconcile mem_kube \<lparr>nn_Name = n, nn_Namespace = k\<rparr> c)) names
      (fold (\<lambda>n. set_conditions n [done_condition]) names (sent env s op ns c))
    = c\<lparr>srv_nodes := change node_Name (node_Name ` set ns) (served_node op (shim_Name s)) (srv_nodes c),
        srv_jobs := done_jobs names (rev (map (sent_job env s op) ns) @ srv_jobs c)\<rparr>"
proof -
  let ?g = "relabel (Some (op_status op)) (shim_Name s)" and ?h = "relabel (op_verdict op) (shim_Name s)"
  let ?js = "done_jobs names (rev (map (sent_job env s op) ns) @ srv_jobs c)"
  let ?c2 = "(sent env s op ns c)\<lparr>srv_jobs := ?js\<rparr>" and ?ns = "map ?g ns"
  have sw: "distinct (map node_Name (srv_nodes c))" "set ns \<subseteq> set (srv_nodes c)" "distinct (map node_Name ns)"
    "\<forall>nd \<in> set ns. om_Labels (node_meta nd) \<noteq> None" "distinct (map (\<lambda>nd. job_name nd s op) ns)"
    using assms(1) by (simp_all add: sweepable_def sendable_def sends_def)
  have job: "find_by job_Name (job_name nd s op) ?js = Inr ((sent_job env s op nd)\<lparr>job_Conditions := [done_condition]\<rparr>)"
    if "nd \<in> set ns" for nd by (rule done_job_found [OF sw(5) that assms(2)])
  have jn: "job_name (relabel v n nd) s op = job_name nd s op" for v n nd by (simp add: job_name_def)
  have names: "names = map (\<lambda>nd. job_name nd s op) ?ns" by (simp add: assms(2) jn)
  have "fold (\<lambda>nd c. snd (job_Reconcile mem_kube \<lparr>nn_Name = job_name nd s op, nn_Namespace = k\<rparr> c)) ?ns ?c2
      = ?c2\<lparr>srv_nodes := change node_Name (node_Name ` set ?ns) ?h (srv_nodes ?c2)\<rparr>"
  proof (rule reports_mem [where name = "shim_Name s"])
    show "distinct (map node_Name (srv_nodes ?c2))" using sw(1) by (simp add: sent_def change_names)
    show "set ?ns \<subseteq> set (srv_nodes ?c2)" using sw(2) by (auto simp: sent_def change_def)
    show "distinct (map node_Name ?ns)" using sw(3) by (simp add: o_def)
    show "\<forall>nd \<in> set ?ns. om_Labels (node_meta nd) \<noteq> None \<and> (\<exists>j. find_by job_Name (job_name nd s op) (srv_jobs ?c2) = Inr j
       \<and> map_get (om_Labels (job_meta j)) ''spinkube.dev/shimName'' = Some (shim_Name s) \<and> verdict j = Some (op_verdict op)
       \<and> pod_NodeName (job_Pod j) = node_Name nd)"
      using sw(4) by (simp add: jn job done_verdict [OF assms(3)] sent_job_simps del: not_None_eq)
  qed
  then have "fold (\<lambda>n c. snd (job_Reconcile mem_kube \<lparr>nn_Name = n, nn_Namespace = k\<rparr> c)) names ?c2
      = ?c2\<lparr>srv_nodes := change node_Name (node_Name ` set ?ns) ?h (srv_nodes ?c2)\<rparr>"
    by (simp only: names fold_map o_def)
  also have "\<dots> = c\<lparr>srv_nodes := change node_Name (node_Name ` set ns) (served_node op (shim_Name s)) (srv_nodes c), srv_jobs := ?js\<rparr>"
    by (simp add: sent_def image_image change_comp) (simp add: o_def served_node_def [abs_def])
  finally show ?thesis unfolding complete_mem by (simp add: sent_def)
qed

section \<open>A round\<close>

text \<open>A run of the shim reconciler, the jobs \<open>names\<close> complete and are reported, and the shim reconciler runs again.\<close>

definition job_round :: "(string \<Rightarrow> string) \<Rightarrow> NamespacedName \<Rightarrow> string list \<Rightarrow> server \<Rightarrow> server" where
  "job_round env req names c =
     (let c1 = snd (Reconcile mem_kube env req c);
          c2 = fold (\<lambda>n. set_conditions n [done_condition]) names c1;
          c3 = fold (\<lambda>n c. snd (job_Reconcile mem_kube \<lparr>nn_Name = n, nn_Namespace = nn_Namespace req\<rparr> c)) names c2
      in snd (Reconcile mem_kube env req c3))"

text \<open>It is an execution of the cluster.\<close>

lemma rounds_steps:
  assumes "api w = c"
  shows "\<exists>w'. (cluster_step env)\<^sup>*\<^sup>* w w' \<and> api w' = job_round env req names c"
proof -
  have reconcile: "\<exists>w'. (cluster_step env)\<^sup>*\<^sup>* w w' \<and> api w' = snd (Reconcile mem_kube env req (api w))" for w
    using tracked_run [OF tracks_Reconcile [of env req], where env = env and w = w and r = "ShimRun req"] by auto
  have job: "\<exists>w'. (cluster_step env)\<^sup>*\<^sup>* w w' \<and> api w' = snd (job_Reconcile mem_kube r (api w))" for w r
    using tracked_run [OF tracks_job_Reconcile [of r], where env = env and w = w and r = "JobRun r"] by auto
  have many: "\<exists>w'. (cluster_step env)\<^sup>*\<^sup>* w w' \<and> api w' = fold f xs (api w)"
    if "\<And>x w. \<exists>w'. (cluster_step env)\<^sup>*\<^sup>* w w' \<and> api w' = f x (api w)" for f :: "string \<Rightarrow> server \<Rightarrow> server" and xs w
  proof (induction xs arbitrary: w)
    case (Cons x xs)
    from that [of w x] obtain w1 where "(cluster_step env)\<^sup>*\<^sup>* w w1" "api w1 = f x (api w)" by blast
    with Cons [of w1] show ?case by (auto intro: rtranclp_trans)
  qed auto
  have complete: "\<exists>w'. (cluster_step env)\<^sup>*\<^sup>* w w' \<and> api w' = set_conditions n cs (api w)" for n cs w
    by (intro exI conjI, rule r_into_rtranclp, rule cluster_step.job_status [OF refl]) simp
  obtain w1 where w1: "(cluster_step env)\<^sup>*\<^sup>* w w1" "api w1 = snd (Reconcile mem_kube env req c)" using reconcile [of w] assms by blast
  obtain w2 where w2: "(cluster_step env)\<^sup>*\<^sup>* w1 w2" "api w2 = fold (\<lambda>n. set_conditions n [done_condition]) names (api w1)"
    using many [of "\<lambda>n. set_conditions n [done_condition]", OF complete, of w1 names] by blast
  obtain w3 where w3: "(cluster_step env)\<^sup>*\<^sup>* w2 w3"
    "api w3 = fold (\<lambda>n c. snd (job_Reconcile mem_kube \<lparr>nn_Name = n, nn_Namespace = nn_Namespace req\<rparr> c)) names (api w2)"
    using many [of "\<lambda>n c. snd (job_Reconcile mem_kube \<lparr>nn_Name = n, nn_Namespace = nn_Namespace req\<rparr> c)", OF job, of w2 names] by blast
  obtain w4 where w4: "(cluster_step env)\<^sup>*\<^sup>* w3 w4" "api w4 = snd (Reconcile mem_kube env req (api w3))" using reconcile [of w3] by blast
  have "api w4 = job_round env req names c" by (simp add: job_round_def Let_def w1(2) w2(2) w3(2) w4(2))
  with w1(1) w2(1) w3(1) w4(1) show ?thesis by (meson rtranclp_trans)
qed

end
