(* ===== verification/Go_Path.thy ===== *)
theory Go_Path
  imports Go_Strings
begin

text \<open>
  Go's \<open>path\<close> package (\<open>path/filepath\<close> coincides with it on Unix): \<open>Clean\<close>,
  \<open>Join\<close>, \<open>Base\<close> and \<open>Dir\<close>. \<open>Clean\<close> is the documented rewriting of a path,
  written as a stack machine over the segments of the path. \<open>canon\<close> is the absolute
  cleaned form of a path, the name under which a file system rooted at \<open>/\<close> keeps it.
\<close>

section \<open>Definitions\<close>

abbreviation slash :: char where
  "slash \<equiv> CHR 0x2F"

fun split_slash :: "string \<Rightarrow> string list" where
  "split_slash [] = [[]]"
| "split_slash (c # s) =
     (if c = slash then [] # split_slash s
      else (case split_slash s of [] \<Rightarrow> [[c]] | x # xs \<Rightarrow> (c # x) # xs))"

fun join_slash :: "string list \<Rightarrow> string" where
  "join_slash [] = []"
| "join_slash [x] = x"
| "join_slash (x # xs) = x @ slash # join_slash xs"

text \<open>One segment of the path against the stack of the segments kept so far.\<close>

definition push :: "bool \<Rightarrow> string \<Rightarrow> string list \<Rightarrow> string list" where
  "push rooted seg stack =
     (if seg = '''' \<or> seg = ''.'' then stack
      else if seg = ''..'' then
        (case stack of
           [] \<Rightarrow> if rooted then [] else [''..'']
         | t # rest \<Rightarrow> if t = ''..'' then ''..'' # stack else rest)
      else seg # stack)"

definition clean_segs :: "bool \<Rightarrow> string list \<Rightarrow> string list" where
  "clean_segs rooted segs = rev (fold (push rooted) segs [])"

definition path_Clean :: "path \<Rightarrow> path" where
  "path_Clean p =
     (if p = [] then ''.''
      else if hd p = slash then slash # join_slash (clean_segs True (split_slash p))
      else let r = join_slash (clean_segs False (split_slash p)) in if r = [] then ''.'' else r)"

definition path_Join :: "string list \<Rightarrow> path" where
  "path_Join es =
     (let es' = dropWhile (\<lambda>e. e = []) es in if es' = [] then [] else path_Clean (join_slash es'))"

definition path_Base :: "path \<Rightarrow> string" where
  "path_Base p =
     (if p = [] then ''.''
      else let q = rev (dropWhile (\<lambda>c. c = slash) (rev p)) in
        if q = [] then [slash] else rev (takeWhile (\<lambda>c. c \<noteq> slash) (rev q)))"

definition path_Dir :: "path \<Rightarrow> path" where
  "path_Dir p = path_Clean (rev (dropWhile (\<lambda>c. c \<noteq> slash) (rev p)))"

definition canon :: "path \<Rightarrow> path" where
  "canon p = path_Clean (slash # p)"

text \<open>A file name as a directory listing yields it.\<close>

definition file_name :: "string \<Rightarrow> bool" where
  "file_name s \<longleftrightarrow> slash \<notin> set s \<and> s \<noteq> '''' \<and> s \<noteq> ''.'' \<and> s \<noteq> ''..''"

section \<open>Splitting and joining\<close>

lemma split_slash_not_Nil [simp]: "split_slash s \<noteq> []"
  by (induction s) (auto split: list.splits)

lemma split_slash_no_slash: "x \<in> set (split_slash s) \<Longrightarrow> slash \<notin> set x"
  by (induction s arbitrary: x) (auto split: list.splits if_splits)

lemma split_slash_single: "slash \<notin> set s \<Longrightarrow> split_slash s = [s]"
  by (induction s) auto

lemma split_slash_append: "split_slash (s @ slash # t) = split_slash s @ split_slash t"
  by (induction s) (auto split: list.splits simp: append_eq_Cons_conv)

lemma join_slash_Cons: "xs \<noteq> [] \<Longrightarrow> join_slash (x # xs) = x @ slash # join_slash xs"
  by (cases xs) auto

lemma split_join:
  "xs \<noteq> [] \<Longrightarrow> split_slash (join_slash xs) = concat (map split_slash xs)"
  by (induction xs rule: join_slash.induct) (auto simp: split_slash_append)

lemma concat_split_no_slash:
  "(\<And>x. x \<in> set xs \<Longrightarrow> slash \<notin> set x) \<Longrightarrow> concat (map split_slash xs) = xs"
  by (induction xs) (auto simp: split_slash_single)

lemma join_slash_inj:
  assumes "join_slash xs = join_slash ys" and "xs \<noteq> []" and "ys \<noteq> []"
    and "\<And>x. x \<in> set xs \<Longrightarrow> slash \<notin> set x" and "\<And>y. y \<in> set ys \<Longrightarrow> slash \<notin> set y"
  shows "xs = ys"
  using assms by (metis split_join concat_split_no_slash)

lemma join_slash_snoc:
  "join_slash (xs @ [x]) = (if xs = [] then x else join_slash xs @ slash # x)"
  by (induction xs rule: join_slash.induct) auto

section \<open>The stack machine\<close>

lemma push_empty [simp]: "push r '''' st = st" and push_dot [simp]: "push r ''.'' st = st"
  by (simp_all add: push_def)

lemma push_name [simp]: "file_name s \<Longrightarrow> push r s st = s # st"
  by (simp add: push_def file_name_def)

text \<open>Every segment on the stack is a file name or \<open>..\<close>.\<close>

definition kept :: "string \<Rightarrow> bool" where
  "kept s \<longleftrightarrow> file_name s \<or> s = ''..''"

lemma push_kept:
  "list_all kept st \<Longrightarrow> slash \<notin> set seg \<Longrightarrow> list_all kept (push r seg st)"
  by (auto simp: push_def kept_def file_name_def split: list.splits)

lemma fold_push_kept:
  "list_all kept st \<Longrightarrow> \<forall>s \<in> set ss. slash \<notin> set s \<Longrightarrow> list_all kept (fold (push r) ss st)"
  by (induction ss arbitrary: st) (auto simp: push_kept)

lemma clean_segs_kept: "\<forall>s \<in> set ss. slash \<notin> set s \<Longrightarrow> s \<in> set (clean_segs r ss) \<Longrightarrow> kept s"
  using fold_push_kept [of "[]" ss r] by (auto simp: clean_segs_def list_all_iff)

lemma clean_split_no_slash: "s \<in> set (clean_segs r (split_slash p)) \<Longrightarrow> slash \<notin> set s"
proof -
  assume "s \<in> set (clean_segs r (split_slash p))"
  then have "kept s" by (rule clean_segs_kept [rotated]) (auto dest: split_slash_no_slash)
  then show ?thesis by (auto simp: kept_def file_name_def)
qed

lemma clean_segs_snoc_name:
  "file_name s \<Longrightarrow> clean_segs r (ss @ [s]) = clean_segs r ss @ [s]"
  by (simp add: clean_segs_def)

text \<open>Cleaning under a root what has been cleaned already changes nothing more.\<close>

lemma clean_segs_again:
  assumes "\<forall>s \<in> set ss. slash \<notin> set s"
  shows "clean_segs True (clean_segs r ss) = clean_segs True ss"
  using assms
proof (induction ss rule: rev_induct)
  case Nil
  show ?case by (simp add: clean_segs_def)
next
  case (snoc s ss)
  define F where "F = fold (push r) ss []"
  define T where "T = fold (push True) ss []"
  have IH: "fold (push True) (rev F) [] = T"
    using snoc by (simp add: clean_segs_def F_def T_def)
  have kF: "list_all kept F" using snoc.prems by (auto simp: F_def intro: fold_push_kept)
  have "fold (push True) (rev (push r s F)) [] = push True s T"
  proof (cases "s = ''..''")
    case False
    then show ?thesis using IH by (auto simp: push_def)
  next
    case True
    show ?thesis
    proof (cases F)
      case Nil
      then have "T = []" using IH by simp
      with Nil True show ?thesis by (auto simp: push_def)
    next
      case (Cons a F')
      show ?thesis
      proof (cases "a = ''..''")
        case True
        with Cons \<open>s = ''..''\<close> IH show ?thesis by (auto simp: push_def)
      next
        case False
        then have a: "file_name a" using kF Cons by (simp add: kept_def)
        then have "T = a # fold (push True) (rev F') []" using IH Cons by simp
        with Cons False \<open>s = ''..''\<close> show ?thesis by (auto simp: push_def)
      qed
    qed
  qed
  then show ?case by (simp add: clean_segs_def F_def T_def)
qed

lemma clean_segs_Nil [simp]: "clean_segs r [] = []"
  by (simp add: clean_segs_def)

lemma clean_segs_drop_empty: "clean_segs r ([] # ss) = clean_segs r ss"
  by (simp add: clean_segs_def)

lemma clean_segs_all_empty: "\<forall>s \<in> set ss. s = [] \<Longrightarrow> clean_segs r ss = []"
  by (induction ss) (auto simp: clean_segs_def)

section \<open>Canonical paths\<close>

lemma canon_eq: "canon p = slash # join_slash (clean_segs True (split_slash p))"
  by (simp add: canon_def path_Clean_def clean_segs_drop_empty)

lemma split_slash_join_clean:
  "clean_segs True (split_slash (join_slash (clean_segs r (split_slash p))))
   = clean_segs True (split_slash p)"
proof (cases "clean_segs r (split_slash p) = []")
  case True
  have "clean_segs True (clean_segs r (split_slash p)) = clean_segs True (split_slash p)"
    by (rule clean_segs_again) (auto dest: split_slash_no_slash)
  with True show ?thesis by (simp add: clean_segs_def)
next
  case False
  then have "split_slash (join_slash (clean_segs r (split_slash p))) = clean_segs r (split_slash p)"
    by (simp add: split_join concat_split_no_slash clean_split_no_slash)
  then show ?thesis by (simp add: clean_segs_again split_slash_no_slash)
qed

lemma canon_Clean [simp]: "canon (path_Clean p) = canon p"
proof -
  have dot: "canon ''.'' = [slash]" and nil: "canon [] = [slash]" by (simp_all add: canon_eq clean_segs_def)
  have "join_slash (clean_segs False (split_slash p)) = [] \<Longrightarrow> canon p = [slash]"
    using split_slash_join_clean [of False p] by (simp add: canon_eq clean_segs_def)
  then show ?thesis
    by (auto simp: path_Clean_def Let_def dot nil)
       (simp_all add: canon_eq split_slash_join_clean clean_segs_drop_empty)
qed

lemma canon_Join: "canon (path_Join es) = slash # join_slash (clean_segs True (concat (map split_slash es)))"
proof -
  define es' where "es' = dropWhile (\<lambda>e. e = []) es"
  have *: "clean_segs True (concat (map split_slash es)) = clean_segs True (concat (map split_slash es'))"
    unfolding es'_def by (induction es) (auto simp: clean_segs_drop_empty)
  show ?thesis
  proof (cases "es' = []")
    case True
    with * show ?thesis by (simp add: path_Join_def es'_def [symmetric] canon_eq clean_segs_def)
  next
    case False
    then have "canon (path_Join es) = canon (join_slash es')"
      by (simp add: path_Join_def es'_def [symmetric])
    with False * show ?thesis by (simp add: canon_eq split_join)
  qed
qed

text \<open>The base name of a joined path is its last element.\<close>

lemma takeWhile_name:
  assumes "file_name s"
  shows "takeWhile (\<lambda>c. c \<noteq> slash) (rev s) = rev s"
    and "takeWhile (\<lambda>c. c \<noteq> slash) (rev s @ slash # t) = rev s"
proof -
  have "c \<noteq> slash" if "c \<in> set (rev s)" for c
    using assms that by (auto simp: file_name_def)
  note * = takeWhile_append2 [of "rev s" "\<lambda>c. c \<noteq> slash", OF this]
  show "takeWhile (\<lambda>c. c \<noteq> slash) (rev s) = rev s" using * [of "[]"] by simp
  show "takeWhile (\<lambda>c. c \<noteq> slash) (rev s @ slash # t) = rev s" using * by simp
qed

lemma path_Base_snoc:
  assumes "file_name s"
  shows "path_Base s = s" and "path_Base (p @ slash # s) = s"
proof -
  from assms obtain c t where "rev s = c # t" and c: "c \<noteq> slash"
    by (cases "rev s") (auto simp: file_name_def)
  then have drop: "dropWhile (\<lambda>c. c = slash) (rev s) = rev s"
    and drop': "dropWhile (\<lambda>c. c = slash) (rev s @ u) = rev s @ u" for u by simp_all
  have ne: "s \<noteq> []" using assms by (simp add: file_name_def)
  show "path_Base s = s"
    unfolding path_Base_def Let_def drop takeWhile_name(1) [OF assms] rev_rev_ident
    using ne by (simp add: takeWhile_name [OF assms] del: takeWhile_eq_all_conv)
  show "path_Base (p @ slash # s) = s"
    unfolding path_Base_def Let_def rev_append rev.simps append_assoc append.simps drop' rev_rev_ident
    by (simp add: takeWhile_name [OF assms] ne)
qed

lemma path_Join_shape:
  assumes "file_name s"
  shows "path_Join (es @ [s]) = s \<or> (\<exists>q. path_Join (es @ [s]) = q @ slash # s)"
proof -
  have ne: "s \<noteq> []" and ns: "slash \<notin> set s" using assms by (simp_all add: file_name_def)
  have "\<exists>us. dropWhile (\<lambda>e. e = []) (es @ [s]) = us @ [s]"
    using ne by (induction es) auto
  then obtain us where us: "dropWhile (\<lambda>e. e = []) (es @ [s]) = us @ [s]" ..
  define p where "p = join_slash (us @ [s])"
  have "split_slash p = concat (map split_slash us) @ [s]"
    using ns by (simp add: p_def split_join split_slash_single)
  then have c: "clean_segs r (split_slash p) = clean_segs r (concat (map split_slash us)) @ [s]" for r
    by (simp add: clean_segs_snoc_name assms)
  have "path_Clean p = s \<or> (\<exists>q. path_Clean p = q @ slash # s)"
    using ne unfolding path_Clean_def c Let_def join_slash_snoc
    by (auto simp: p_def join_slash_snoc)
  then show ?thesis by (simp add: path_Join_def p_def us)
qed

lemma path_Base_Join: "file_name s \<Longrightarrow> path_Base (path_Join (es @ [s])) = s"
  using path_Join_shape [of s es] path_Base_snoc [of s] by auto

text \<open>
  Different names, or the same name at different depths, below one directory are different
  files.
\<close>

lemma canon_Join_names:
  assumes "list_all file_name ns"
  shows "canon (path_Join (p # ns)) = slash # join_slash (clean_segs True (split_slash p) @ ns)"
proof -
  have "concat (map split_slash ns) = ns"
    using assms by (intro concat_split_no_slash) (auto simp: list_all_iff file_name_def)
  moreover have "clean_segs True (ss @ ns) = clean_segs True ss @ ns" for ss
    using assms by (induction ns arbitrary: ss rule: rev_induct)
      (auto simp: clean_segs_snoc_name simp flip: append_assoc)
  ultimately show ?thesis by (simp add: canon_Join)
qed

lemma canon_Join_eq_iff:
  assumes "list_all file_name ns" and "list_all file_name ms" and "ns \<noteq> []" and "ms \<noteq> []"
  shows "canon (path_Join (p # ns)) = canon (path_Join (p # ms)) \<longleftrightarrow> ns = ms"
proof
  assume "canon (path_Join (p # ns)) = canon (path_Join (p # ms))"
  then have "join_slash (clean_segs True (split_slash p) @ ns) = join_slash (clean_segs True (split_slash p) @ ms)"
    by (simp add: canon_Join_names assms)
  then have "clean_segs True (split_slash p) @ ns = clean_segs True (split_slash p) @ ms"
    by (rule join_slash_inj)
       (use assms in \<open>auto simp: list_all_iff file_name_def dest: clean_split_no_slash\<close>)
  then show "ns = ms" by simp
qed simp

text \<open>
  \<open>under q p\<close>: the file \<open>q\<close> is \<open>p\<close> itself or one of the directories on the way to
  \<open>p\<close>.
\<close>

definition segs :: "path \<Rightarrow> string list" where
  "segs p = clean_segs True (split_slash p)"

definition under :: "path \<Rightarrow> path \<Rightarrow> bool" where
  "under q p = prefix (segs q) (segs p)"

lemma segs_no_slash: "s \<in> set (segs p) \<Longrightarrow> slash \<notin> set s"
  by (auto simp: segs_def dest: clean_split_no_slash)

lemma segs_name: "s \<in> set (segs p) \<Longrightarrow> s \<noteq> []"
  using clean_segs_kept [of "split_slash p" s True]
  by (auto simp: segs_def kept_def file_name_def dest: split_slash_no_slash)

lemma canon_segs: "canon p = slash # join_slash (segs p)"
  by (simp add: canon_eq segs_def)

lemma join_names_inj:
  assumes "join_slash xs = join_slash ys"
    and xs: "\<forall>x \<in> set xs. slash \<notin> set x \<and> x \<noteq> []" and ys: "\<forall>y \<in> set ys. slash \<notin> set y \<and> y \<noteq> []"
  shows "xs = ys"
proof -
  have ne: "zs = [] \<longleftrightarrow> join_slash zs = []" if "\<forall>z \<in> set zs. slash \<notin> set z \<and> z \<noteq> []" for zs
    using that by (cases zs rule: join_slash.cases) auto
  show ?thesis
  proof (cases "xs = []")
    case True
    then show ?thesis using ne [OF xs] ne [OF ys] assms(1) by simp
  next
    case False
    then have "ys \<noteq> []" using ne [OF xs] ne [OF ys] assms(1) by simp
    with False assms show ?thesis by (intro join_slash_inj) auto
  qed
qed

lemma segs_names: "\<forall>s \<in> set (segs p). slash \<notin> set s \<and> s \<noteq> []"
  by (auto dest: segs_no_slash segs_name)

lemma segs_canon [simp]: "segs (canon p) = segs p"
  by (simp add: canon_segs) (simp add: segs_def clean_segs_drop_empty split_slash_join_clean)

lemma canon_inj: "canon p = canon q \<longleftrightarrow> segs p = segs q"
  using join_names_inj [OF _ segs_names segs_names] by (auto simp: canon_segs)

lemma under_refl [simp]: "under p p"
  by (simp add: under_def)

lemma canon_canon [simp]: "canon (canon p) = canon p"
  by (simp add: canon_segs [of "canon p"]) (simp add: canon_segs)

lemma under_canon [simp]: "under (canon q) p = under q p" "under q (canon p) = under q p"
  by (simp_all add: under_def)

lemma not_under_canon: "\<not> under q p \<Longrightarrow> canon q \<noteq> canon p"
  by (auto simp: canon_inj under_def)

lemma segs_Join:
  assumes "list_all file_name ns"
  shows "segs (path_Join (p # ns)) = segs p @ ns"
proof (rule join_names_inj)
  show "join_slash (segs (path_Join (p # ns))) = join_slash (segs p @ ns)"
    using canon_Join_names [OF assms, of p] by (simp add: canon_segs segs_def)
  show "\<forall>s \<in> set (segs p @ ns). slash \<notin> set s \<and> s \<noteq> []"
    using segs_names [of p] assms by (auto simp: list_all_iff file_name_def)
qed (rule segs_names)

text \<open>Below the root there is no \<open>..\<close> left.\<close>

lemma segs_file_names: "list_all file_name (segs p)"
proof -
  have push: "list_all file_name (push True seg st)" if "list_all file_name st" "slash \<notin> set seg" for seg st
    using that by (auto simp: push_def file_name_def split: list.splits)
  have "list_all file_name (fold (push True) ss st)" if "list_all file_name st" "\<forall>s \<in> set ss. slash \<notin> set s" for ss st
    using that by (induction ss arbitrary: st) (auto simp: push)
  from this [of "[]" "split_slash p"] show ?thesis by (auto simp: segs_def clean_segs_def list_all_iff dest: split_slash_no_slash)
qed

lemma segs_Join_canon: "segs (path_Join [r, canon p]) = segs r @ segs p"
proof -
  have split: "concat (map split_slash ns) = ns" if "list_all file_name ns" for ns
    using that by (intro concat_split_no_slash) (auto simp: list_all_iff file_name_def)
  have empty: "clean_segs True (xs @ [] # ys) = clean_segs True (xs @ ys)" for xs ys by (simp add: clean_segs_def)
  have "clean_segs True (split_slash r @ split_slash (join_slash (segs p))) = clean_segs True (split_slash r @ segs p)"
    using empty [of "split_slash r" "[]"] split [OF segs_file_names [of p]] by (cases "segs p = []") (simp_all add: split_join)
  then have "canon (path_Join [r, canon p]) = canon (path_Join (r # segs p))"
    by (simp add: canon_Join split [OF segs_file_names] canon_segs [of p] empty)
  then show ?thesis unfolding canon_inj by (simp add: segs_Join segs_file_names)
qed

lemma path_Dir_snoc:
  assumes "slash \<notin> set s"
  shows "path_Dir (p @ slash # s) = path_Clean (p @ [slash])" and "path_Dir s = ''.''"
proof -
  have d: "dropWhile (\<lambda>c. c \<noteq> slash) (rev s @ t) = dropWhile (\<lambda>c. c \<noteq> slash) t" for t
    using assms by (intro dropWhile_append2) auto
  show "path_Dir (p @ slash # s) = path_Clean (p @ [slash])"
    by (simp add: path_Dir_def d)
  show "path_Dir s = ''.''" using d [of "[]"] by (simp add: path_Dir_def path_Clean_def)
qed

lemma segs_Clean [simp]: "segs (path_Clean p) = segs p"
  by (rule canon_inj [THEN iffD1, OF canon_Clean])

lemma segs_Dir_Join:
  assumes "file_name s"
  shows "segs (path_Join (es @ [s])) = segs (path_Dir (path_Join (es @ [s]))) @ [s]"
proof -
  have ns: "slash \<notin> set s" using assms by (simp add: file_name_def)
  have dot: "segs ''.'' = []" by (simp add: segs_def clean_segs_def)
  have "segs (q @ slash # s) = segs (q @ [slash]) @ [s]" for q
    using assms ns by (simp add: segs_def split_slash_append split_slash_single clean_segs_snoc_name)
      (simp add: clean_segs_def)
  moreover have "segs s = [s]"
    using assms ns by (simp add: segs_def split_slash_single clean_segs_def)
  ultimately show ?thesis
    using path_Join_shape [OF assms, of es] path_Dir_snoc [OF ns] dot by auto
qed

end
