(* ===== verification/Afero.thy ===== *)
theory Afero
  imports Go_Path
begin

text \<open>
  The file-system interface \<open>afero.Fs\<close> of the node installer. The package is not part of
  the repository: its operations are a record of functions over an abstract world
  \<open>'w\<close>, which the definitions of the installer take as a parameter, and what the source
  relies on is the locale \<open>afero_fs\<close>. Every operation may fail at any time; the laws only
  say what holds when it reports success, and that an operation on one file leaves the others
  alone. A reference implementation \<open>mem_fs\<close>, a file system in memory with a read-only
  switch, satisfies the laws; the witnesses of the development run on it.
\<close>

section \<open>The interface\<close>

record file_info =
  fi_Name :: string
  fi_IsDir :: bool

datatype oflag = O_RDONLY | O_WRONLY | O_RDWR | O_CREATE | O_TRUNC | O_APPEND

text \<open>
  A file handle is named by its path: the source never opens a file twice at a time.
  \<open>fs_Blocks\<close> is what reading an open file to its end delivers: the blocks and the read
  error, if any, that ends them instead of EOF. \<open>fs_Write\<close> writes at the end of an open
  file and returns the number of bytes written.
\<close>

record 'w afero =
  fs_Stat :: "path \<Rightarrow> 'w \<Rightarrow> error + file_info"
  fs_ReadFile :: "path \<Rightarrow> 'w \<Rightarrow> error + bytes"
  fs_ReadDir :: "path \<Rightarrow> 'w \<Rightarrow> error + file_info list"
  fs_Blocks :: "path \<Rightarrow> 'w \<Rightarrow> bytes list \<times> error option"
  fs_OpenFile :: "path \<Rightarrow> oflag list \<Rightarrow> nat \<Rightarrow> 'w \<Rightarrow> error option \<times> 'w"
  fs_Create :: "path \<Rightarrow> 'w \<Rightarrow> error option \<times> 'w"
  fs_Write :: "path \<Rightarrow> bytes \<Rightarrow> 'w \<Rightarrow> (nat \<times> error option) \<times> 'w"
  fs_Sync :: "path \<Rightarrow> 'w \<Rightarrow> error option \<times> 'w"
  fs_Close :: "path \<Rightarrow> 'w \<Rightarrow> error option \<times> 'w"
  fs_MkdirAll :: "path \<Rightarrow> nat \<Rightarrow> 'w \<Rightarrow> error option \<times> 'w"
  fs_WriteFile :: "path \<Rightarrow> bytes \<Rightarrow> nat \<Rightarrow> 'w \<Rightarrow> error option \<times> 'w"
  fs_Remove :: "path \<Rightarrow> 'w \<Rightarrow> error option \<times> 'w"

locale afero_fs =
  fixes fs :: "'w afero"
  assumes read_WriteFile:
      "fs_WriteFile fs p b m w = (None, w') \<Longrightarrow> fs_ReadFile fs p w' = Inr b"
    and read_OpenTrunc:
      "fs_OpenFile fs p [O_RDWR, O_CREATE, O_TRUNC] m w = (None, w') \<Longrightarrow> fs_ReadFile fs p w' = Inr []"
    and read_OpenAppend:
      "fs_OpenFile fs p [O_APPEND, O_WRONLY] m w = (r, w') \<Longrightarrow> fs_ReadFile fs q w' = fs_ReadFile fs q w"
    and read_OpenRead:
      "fs_OpenFile fs p [O_RDONLY] m w = (r, w') \<Longrightarrow> w' = w"
    and read_Create:
      "fs_Create fs p w = (None, w') \<Longrightarrow> fs_ReadFile fs p w' = Inr []"
    and read_Write:
      "fs_Write fs p b w = ((n, None), w') \<Longrightarrow> fs_ReadFile fs p w = Inr c
        \<Longrightarrow> fs_ReadFile fs p w' = Inr (c @ b)"
    and write_complete:
      "fs_Write fs p b w = ((n, None), w') \<Longrightarrow> n = length b"
    and read_Blocks:
      "fs_Blocks fs p w = (bs, None) \<Longrightarrow> fs_ReadFile fs p w = Inr (concat bs)"
    and read_Sync: "fs_Sync fs p w = (r, w') \<Longrightarrow> fs_ReadFile fs q w' = fs_ReadFile fs q w"
    and read_Close: "fs_Close fs p w = (r, w') \<Longrightarrow> fs_ReadFile fs q w' = fs_ReadFile fs q w"
    and read_Remove:
      "fs_Remove fs p w = (r, w') \<Longrightarrow> (case r of None \<Rightarrow> True | Some e \<Rightarrow> is_ErrNotExist e)
        \<Longrightarrow> \<exists>e. fs_ReadFile fs p w' = Inl e \<and> is_ErrNotExist e"
    and frame_WriteFile:
      "fs_WriteFile fs p b m w = (r, w') \<Longrightarrow> \<not> under q p \<Longrightarrow> fs_ReadFile fs q w' = fs_ReadFile fs q w"
    and frame_OpenFile:
      "fs_OpenFile fs p fl m w = (r, w') \<Longrightarrow> \<not> under q p \<Longrightarrow> fs_ReadFile fs q w' = fs_ReadFile fs q w"
    and frame_Create:
      "fs_Create fs p w = (r, w') \<Longrightarrow> \<not> under q p \<Longrightarrow> fs_ReadFile fs q w' = fs_ReadFile fs q w"
    and frame_Write:
      "fs_Write fs p b w = (r2, w') \<Longrightarrow> \<not> under q p \<Longrightarrow> fs_ReadFile fs q w' = fs_ReadFile fs q w"
    and frame_MkdirAll:
      "fs_MkdirAll fs p m w = (r, w') \<Longrightarrow> \<not> under q p \<Longrightarrow> fs_ReadFile fs q w' = fs_ReadFile fs q w"
    and frame_Remove:
      "fs_Remove fs p w = (r, w') \<Longrightarrow> \<not> under q p \<Longrightarrow> fs_ReadFile fs q w' = fs_ReadFile fs q w"

text \<open>
  The node installer works on two file systems: the root file system of its container, which
  holds the downloaded assets, and the file system of the host, which is the part of the former below the
  path where the host is mounted. The assets are in a directory of their own (the job mounts it elsewhere), so what the
  installer does on the host shows in the root file system, but does not change what reading a file below
  \<open>assets\<close> delivers.
\<close>

locale installer_fs = afero_fs host
  for host :: "'w afero" +
  fixes root :: "'w afero" and assets :: path
  assumes root_OpenRead:
      "fs_OpenFile root p [O_RDONLY] m w = (r, w') \<Longrightarrow> w' = w"
    and sep_MkdirAll:
      "fs_MkdirAll host p m w = (r, w') \<Longrightarrow> under assets q \<Longrightarrow> fs_Blocks root q w' = fs_Blocks root q w"
    and sep_OpenFile:
      "fs_OpenFile host p fl m w = (r, w') \<Longrightarrow> under assets q \<Longrightarrow> fs_Blocks root q w' = fs_Blocks root q w"
    and sep_Write:
      "fs_Write host p b w = (r2, w') \<Longrightarrow> under assets q \<Longrightarrow> fs_Blocks root q w' = fs_Blocks root q w"
    and sep_WriteFile:
      "fs_WriteFile host p b m w = (r, w') \<Longrightarrow> under assets q \<Longrightarrow> fs_Blocks root q w' = fs_Blocks root q w"
    and sep_Close:
      "fs_Close host p w = (r, w') \<Longrightarrow> under assets q \<Longrightarrow> fs_Blocks root q w' = fs_Blocks root q w"

section \<open>The reference implementation\<close>

text \<open>
  Files and directories are kept under their canonical paths. The switch \<open>mem_ro\<close> makes
  every writing operation fail, as \<open>afero.NewReadOnlyFs\<close> does.
\<close>

record mem =
  mem_files :: "(path \<times> bytes) list"
  mem_dirs :: "path list"
  mem_ro :: bool

definition mem_get :: "path \<Rightarrow> mem \<Rightarrow> bytes option" where
  "mem_get p m = map_of (mem_files m) (canon p)"

definition mem_put :: "path \<Rightarrow> bytes \<Rightarrow> mem \<Rightarrow> mem" where
  "mem_put p b m = m\<lparr>mem_files := AList.update (canon p) b (mem_files m)\<rparr>"

definition mem_del :: "path \<Rightarrow> mem \<Rightarrow> mem" where
  "mem_del p m = m\<lparr>mem_files := AList.delete (canon p) (mem_files m)\<rparr>"

definition mem_isdir :: "path \<Rightarrow> mem \<Rightarrow> bool" where
  "mem_isdir p m = (\<exists>d \<in> set (mem_dirs m). under p d)"

definition EROFS :: error where "EROFS = FsError ''operation not permitted''"
definition EISDIR :: error where "EISDIR = FsError ''is a directory''"

definition mem_ReadFile :: "path \<Rightarrow> mem \<Rightarrow> error + bytes" where
  "mem_ReadFile p m =
     (case mem_get p m of
        Some b \<Rightarrow> Inr b
      | None \<Rightarrow> if mem_isdir p m then Inl EISDIR else Inl ErrNotExist)"

definition mem_Stat :: "path \<Rightarrow> mem \<Rightarrow> error + file_info" where
  "mem_Stat p m =
     (case mem_get p m of
        Some b \<Rightarrow> Inr \<lparr>fi_Name = path_Base (canon p), fi_IsDir = False\<rparr>
      | None \<Rightarrow> if mem_isdir p m then Inr \<lparr>fi_Name = path_Base (canon p), fi_IsDir = True\<rparr>
               else Inl ErrNotExist)"

definition mem_ReadDir :: "path \<Rightarrow> mem \<Rightarrow> error + file_info list" where
  "mem_ReadDir p m =
     (if mem_isdir p m
      then Inr (map (\<lambda>s. \<lparr>fi_Name = s, fi_IsDir = False\<rparr>)
                 (sort (map path_Base (filter (\<lambda>q. canon (path_Dir q) = canon p) (map fst (mem_files m))))))
      else Inl ErrNotExist)"

definition mem_OpenFile :: "path \<Rightarrow> oflag list \<Rightarrow> nat \<Rightarrow> mem \<Rightarrow> error option \<times> mem" where
  "mem_OpenFile p fl mode m =
     (if fl \<noteq> [O_RDONLY] \<and> mem_ro m then (Some EROFS, m)
      else (case mem_get p m of
         Some b \<Rightarrow> (None, if O_TRUNC \<in> set fl then mem_put p [] m else m)
       | None \<Rightarrow>
           if mem_isdir p m then (if fl = [O_RDONLY] then (None, m) else (Some EISDIR, m))
           else if O_CREATE \<in> set fl then (None, mem_put p [] m)
           else (Some ErrNotExist, m)))"

definition mem_Write :: "path \<Rightarrow> bytes \<Rightarrow> mem \<Rightarrow> (nat \<times> error option) \<times> mem" where
  "mem_Write p b m =
     (if mem_ro m then ((0, Some EROFS), m)
      else (case mem_get p m of
         Some c \<Rightarrow> ((length b, None), mem_put p (c @ b) m)
       | None \<Rightarrow> ((0, Some ErrNotExist), m)))"

definition mem_WriteFile :: "path \<Rightarrow> bytes \<Rightarrow> nat \<Rightarrow> mem \<Rightarrow> error option \<times> mem" where
  "mem_WriteFile p b mode m =
     (if mem_ro m then (Some EROFS, m)
      else if mem_isdir p m then (Some EISDIR, m)
      else (None, mem_put p b m))"

definition mem_MkdirAll :: "path \<Rightarrow> nat \<Rightarrow> mem \<Rightarrow> error option \<times> mem" where
  "mem_MkdirAll p mode m =
     (if mem_ro m then (Some EROFS, m)
      else if mem_get p m \<noteq> None then (Some (FsError ''not a directory''), m)
      else (None, m\<lparr>mem_dirs := canon p # mem_dirs m\<rparr>))"

definition mem_Remove :: "path \<Rightarrow> mem \<Rightarrow> error option \<times> mem" where
  "mem_Remove p m =
     (if mem_ro m then (Some EROFS, m)
      else (case mem_get p m of
         Some b \<Rightarrow> if mem_isdir p m then (Some EISDIR, m) else (None, mem_del p m)
       | None \<Rightarrow> if mem_isdir p m then (Some EISDIR, m) else (Some ErrNotExist, m)))"

definition mem_Blocks :: "path \<Rightarrow> mem \<Rightarrow> bytes list \<times> error option" where
  "mem_Blocks p m =
     (case mem_ReadFile p m of Inr b \<Rightarrow> ([b], None) | Inl e \<Rightarrow> ([], Some e))"

definition mem_fs :: "mem afero" where
  "mem_fs =
     \<lparr>fs_Stat = mem_Stat, fs_ReadFile = mem_ReadFile, fs_ReadDir = mem_ReadDir, fs_Blocks = mem_Blocks,
      fs_OpenFile = mem_OpenFile,
      fs_Create = (\<lambda>p. mem_OpenFile p [O_RDWR, O_CREATE, O_TRUNC] 438),
      fs_Write = mem_Write, fs_Sync = (\<lambda>p m. (None, m)), fs_Close = (\<lambda>p m. (None, m)),
      fs_MkdirAll = mem_MkdirAll, fs_WriteFile = mem_WriteFile, fs_Remove = mem_Remove\<rparr>"

text \<open>
  A file system on one component of a pair of worlds: the container's own root file system on
  the first, the host's on the second.
\<close>

definition on_fst :: "'a afero \<Rightarrow> ('a \<times> 'b) afero" where
  "on_fst fs =
     \<lparr>fs_Stat = (\<lambda>p w. fs_Stat fs p (fst w)), fs_ReadFile = (\<lambda>p w. fs_ReadFile fs p (fst w)),
      fs_ReadDir = (\<lambda>p w. fs_ReadDir fs p (fst w)), fs_Blocks = (\<lambda>p w. fs_Blocks fs p (fst w)),
      fs_OpenFile = (\<lambda>p fl m w. apsnd (\<lambda>a. (a, snd w)) (fs_OpenFile fs p fl m (fst w))),
      fs_Create = (\<lambda>p w. apsnd (\<lambda>a. (a, snd w)) (fs_Create fs p (fst w))),
      fs_Write = (\<lambda>p b w. apsnd (\<lambda>a. (a, snd w)) (fs_Write fs p b (fst w))),
      fs_Sync = (\<lambda>p w. apsnd (\<lambda>a. (a, snd w)) (fs_Sync fs p (fst w))),
      fs_Close = (\<lambda>p w. apsnd (\<lambda>a. (a, snd w)) (fs_Close fs p (fst w))),
      fs_MkdirAll = (\<lambda>p m w. apsnd (\<lambda>a. (a, snd w)) (fs_MkdirAll fs p m (fst w))),
      fs_WriteFile = (\<lambda>p b m w. apsnd (\<lambda>a. (a, snd w)) (fs_WriteFile fs p b m (fst w))),
      fs_Remove = (\<lambda>p w. apsnd (\<lambda>a. (a, snd w)) (fs_Remove fs p (fst w)))\<rparr>"

definition on_snd :: "'b afero \<Rightarrow> ('a \<times> 'b) afero" where
  "on_snd fs =
     \<lparr>fs_Stat = (\<lambda>p w. fs_Stat fs p (snd w)), fs_ReadFile = (\<lambda>p w. fs_ReadFile fs p (snd w)),
      fs_ReadDir = (\<lambda>p w. fs_ReadDir fs p (snd w)), fs_Blocks = (\<lambda>p w. fs_Blocks fs p (snd w)),
      fs_OpenFile = (\<lambda>p fl m w. apsnd (Pair (fst w)) (fs_OpenFile fs p fl m (snd w))),
      fs_Create = (\<lambda>p w. apsnd (Pair (fst w)) (fs_Create fs p (snd w))),
      fs_Write = (\<lambda>p b w. apsnd (Pair (fst w)) (fs_Write fs p b (snd w))),
      fs_Sync = (\<lambda>p w. apsnd (Pair (fst w)) (fs_Sync fs p (snd w))),
      fs_Close = (\<lambda>p w. apsnd (Pair (fst w)) (fs_Close fs p (snd w))),
      fs_MkdirAll = (\<lambda>p m w. apsnd (Pair (fst w)) (fs_MkdirAll fs p m (snd w))),
      fs_WriteFile = (\<lambda>p b m w. apsnd (Pair (fst w)) (fs_WriteFile fs p b m (snd w))),
      fs_Remove = (\<lambda>p w. apsnd (Pair (fst w)) (fs_Remove fs p (snd w)))\<rparr>"

section \<open>The laws hold\<close>

lemma mem_get_put: "mem_get q (mem_put p b m) = (if canon q = canon p then Some b else mem_get q m)"
  by (simp add: mem_get_def mem_put_def update_conv')

lemma mem_get_del: "mem_get q (mem_del p m) = (if canon q = canon p then None else mem_get q m)"
  by (simp add: mem_get_def mem_del_def delete_conv')

lemma mem_isdir_put [simp]:
  "mem_isdir q (mem_put p b m) = mem_isdir q m" "mem_isdir q (mem_del p m) = mem_isdir q m"
  by (simp_all add: mem_isdir_def mem_put_def mem_del_def)

lemma mem_isdir_mkdir [simp]:
  "mem_isdir q (m\<lparr>mem_dirs := p # mem_dirs m\<rparr>) \<longleftrightarrow> under q p \<or> mem_isdir q m"
  "mem_get q (m\<lparr>mem_dirs := ds\<rparr>) = mem_get q m"
  by (auto simp: mem_isdir_def mem_get_def)

lemma mem_errors [simp]: "\<not> is_ErrNotExist EROFS" "\<not> is_ErrNotExist EISDIR"
  by (simp_all add: EROFS_def EISDIR_def)

lemmas mem_defs = mem_ReadFile_def mem_Stat_def mem_ReadDir_def mem_OpenFile_def mem_Write_def
  mem_WriteFile_def mem_MkdirAll_def mem_Remove_def mem_Blocks_def

lemmas mem_get_simps = mem_get_put mem_get_del not_under_canon

interpretation mem: afero_fs mem_fs
  by unfold_locales
     (auto simp: mem_fs_def mem_defs mem_get_simps split: option.splits if_splits sum.splits)

text \<open>The laws lift to a component of a pair of worlds.\<close>

lemma apsnd_Pair_iff: "apsnd (Pair a) x = (r, w') \<longleftrightarrow> x = (r, snd w') \<and> fst w' = a"
  by (cases x; cases w') auto

lemma afero_fs_on_snd:
  assumes "afero_fs fs"
  shows "afero_fs (on_snd fs)"
proof -
  note laws = afero_fs.read_WriteFile [OF assms] afero_fs.read_OpenTrunc [OF assms]
    afero_fs.read_OpenAppend [OF assms] afero_fs.read_OpenRead [OF assms] afero_fs.read_Create [OF assms]
    afero_fs.read_Write [OF assms] afero_fs.write_complete [OF assms] afero_fs.read_Blocks [OF assms]
    afero_fs.read_Sync [OF assms] afero_fs.read_Close [OF assms] afero_fs.read_Remove [OF assms]
    afero_fs.frame_WriteFile [OF assms] afero_fs.frame_OpenFile [OF assms] afero_fs.frame_Create [OF assms]
    afero_fs.frame_Write [OF assms] afero_fs.frame_MkdirAll [OF assms] afero_fs.frame_Remove [OF assms]
  show ?thesis
    by unfold_locales (auto simp: on_snd_def apsnd_Pair_iff prod_eq_iff intro: laws)
qed

lemma apsnd_fst_iff: "apsnd (\<lambda>a. (a, b)) x = (r, w') \<longleftrightarrow> x = (r, fst w') \<and> snd w' = b"
  by (cases x; cases w') auto

interpretation host_mem: afero_fs "on_snd mem_fs :: ('a \<times> mem) afero"
  by (rule afero_fs_on_snd) (rule mem.afero_fs_axioms)

lemma mem_OpenRead_world [simp]: "snd (fs_OpenFile mem_fs p [O_RDONLY] m w) = w"
  by (rule mem.read_OpenRead [OF prod.collapse [symmetric]])

interpretation installer_mem: installer_fs "on_snd mem_fs" "on_fst mem_fs :: (mem \<times> mem) afero" assets for assets
  by unfold_locales (auto simp: on_snd_def on_fst_def apsnd_Pair_iff apsnd_fst_iff prod_eq_iff)

text \<open>A root file system without files, for what does not read the assets.\<close>

definition empty_root :: "'w afero" where
  "empty_root =
     \<lparr>fs_Stat = (\<lambda>p w. Inl ErrNotExist), fs_ReadFile = (\<lambda>p w. Inl ErrNotExist), fs_ReadDir = (\<lambda>p w. Inl ErrNotExist),
      fs_Blocks = (\<lambda>p w. ([], Some ErrNotExist)), fs_OpenFile = (\<lambda>p fl m w. (Some ErrNotExist, w)),
      fs_Create = (\<lambda>p w. (Some EROFS, w)), fs_Write = (\<lambda>p b w. ((0, Some EROFS), w)), fs_Sync = (\<lambda>p w. (Some EROFS, w)),
      fs_Close = (\<lambda>p w. (Some EROFS, w)), fs_MkdirAll = (\<lambda>p m w. (Some EROFS, w)), fs_WriteFile = (\<lambda>p b m w. (Some EROFS, w)),
      fs_Remove = (\<lambda>p w. (Some EROFS, w))\<rparr>"

lemma empty_root_installer: "afero_fs host \<Longrightarrow> installer_fs host empty_root assets"
  by (simp add: installer_fs_def installer_fs_axioms_def empty_root_def)

section \<open>A mounted host\<close>

text \<open>
  \<open>afero.NewBasePathFs\<close>: every name is taken relative to a base path, and the operation is one of the file system
  below. (A name that leads out of the base by \<open>..\<close> is taken as if the base was the root of all paths; the
  installer uses none.)
\<close>

definition base_path :: "'w afero \<Rightarrow> path \<Rightarrow> 'w afero" where
  "base_path fs r =
     (let at = (\<lambda>p. path_Join [r, canon p]) in
      \<lparr>fs_Stat = (\<lambda>p. fs_Stat fs (at p)), fs_ReadFile = (\<lambda>p. fs_ReadFile fs (at p)), fs_ReadDir = (\<lambda>p. fs_ReadDir fs (at p)),
       fs_Blocks = (\<lambda>p. fs_Blocks fs (at p)), fs_OpenFile = (\<lambda>p. fs_OpenFile fs (at p)), fs_Create = (\<lambda>p. fs_Create fs (at p)),
       fs_Write = (\<lambda>p. fs_Write fs (at p)), fs_Sync = (\<lambda>p. fs_Sync fs (at p)), fs_Close = (\<lambda>p. fs_Close fs (at p)),
       fs_MkdirAll = (\<lambda>p. fs_MkdirAll fs (at p)), fs_WriteFile = (\<lambda>p. fs_WriteFile fs (at p)), fs_Remove = (\<lambda>p. fs_Remove fs (at p))\<rparr>)"

text \<open>
  The root file system of a container: the files below \<open>r\<close> are those of a volume that is mounted there, the host.
\<close>

definition below :: "path \<Rightarrow> path \<Rightarrow> path" where
  "below r p = slash # join_slash (drop (length (segs r)) (segs p))"

definition mount_fs :: "path \<Rightarrow> 'a afero \<Rightarrow> 'b afero \<Rightarrow> ('a \<times> 'b) afero" where
  "mount_fs r a b =
     \<lparr>fs_Stat = (\<lambda>p. if under r p then fs_Stat (on_snd b) (below r p) else fs_Stat (on_fst a) p),
      fs_ReadFile = (\<lambda>p. if under r p then fs_ReadFile (on_snd b) (below r p) else fs_ReadFile (on_fst a) p),
      fs_ReadDir = (\<lambda>p. if under r p then fs_ReadDir (on_snd b) (below r p) else fs_ReadDir (on_fst a) p),
      fs_Blocks = (\<lambda>p. if under r p then fs_Blocks (on_snd b) (below r p) else fs_Blocks (on_fst a) p),
      fs_OpenFile = (\<lambda>p. if under r p then fs_OpenFile (on_snd b) (below r p) else fs_OpenFile (on_fst a) p),
      fs_Create = (\<lambda>p. if under r p then fs_Create (on_snd b) (below r p) else fs_Create (on_fst a) p),
      fs_Write = (\<lambda>p. if under r p then fs_Write (on_snd b) (below r p) else fs_Write (on_fst a) p),
      fs_Sync = (\<lambda>p. if under r p then fs_Sync (on_snd b) (below r p) else fs_Sync (on_fst a) p),
      fs_Close = (\<lambda>p. if under r p then fs_Close (on_snd b) (below r p) else fs_Close (on_fst a) p),
      fs_MkdirAll = (\<lambda>p. if under r p then fs_MkdirAll (on_snd b) (below r p) else fs_MkdirAll (on_fst a) p),
      fs_WriteFile = (\<lambda>p. if under r p then fs_WriteFile (on_snd b) (below r p) else fs_WriteFile (on_fst a) p),
      fs_Remove = (\<lambda>p. if under r p then fs_Remove (on_snd b) (below r p) else fs_Remove (on_fst a) p)\<rparr>"

lemma at_mount [simp]: "under r (path_Join [r, canon p])" "below r (path_Join [r, canon p]) = canon p"
  unfolding under_def below_def segs_Join_canon by (simp_all add: canon_segs [of p])

lemma mem_get_canon [simp]: "mem_get (canon p) m = mem_get p m" "mem_put (canon p) b m = mem_put p b m" "mem_del (canon p) m = mem_del p m"
  "mem_isdir (canon p) m = mem_isdir p m"
  by (simp_all add: mem_get_def mem_put_def mem_del_def mem_isdir_def)

lemma mem_op_canon:
  "mem_Stat (canon p) = mem_Stat p" "mem_ReadFile (canon p) = mem_ReadFile p" "mem_ReadDir (canon p) = mem_ReadDir p"
  "mem_Blocks (canon p) = mem_Blocks p" "mem_OpenFile (canon p) = mem_OpenFile p" "mem_Write (canon p) = mem_Write p"
  "mem_MkdirAll (canon p) = mem_MkdirAll p" "mem_WriteFile (canon p) = mem_WriteFile p" "mem_Remove (canon p) = mem_Remove p"
  by (simp_all add: mem_defs fun_eq_iff split: option.splits)

text \<open>The base path file system of the mount point is the file system of the volume.\<close>

lemma base_of_mount: "base_path (mount_fs r a mem_fs) r = on_snd mem_fs"
  by (simp add: base_path_def mount_fs_def on_snd_def mem_fs_def mem_op_canon Let_def)

lemma mount_outside:
  assumes "\<not> under r p"
  shows "fs_Blocks (mount_fs r a b) p = fs_Blocks (on_fst a) p" "fs_OpenFile (mount_fs r a b) p = fs_OpenFile (on_fst a) p"
    "fs_Stat (mount_fs r a b) p = fs_Stat (on_fst a) p" "fs_ReadDir (mount_fs r a b) p = fs_ReadDir (on_fst a) p"
  using assms by (simp_all add: mount_fs_def)

text \<open>What is written on the host is written to the container's root file system, but not among the assets.\<close>

lemma mounted_installer:
  assumes "\<not> under r assets" "\<not> under assets r"
  shows "installer_fs (base_path (mount_fs r mem_fs mem_fs) r) (mount_fs r mem_fs mem_fs :: (mem \<times> mem) afero) assets"
  unfolding base_of_mount
proof -
  have out: "\<not> under r q" if "under assets q" for q
    using assms that by (auto simp: under_def dest: prefix_same_cases)
  show "installer_fs (on_snd mem_fs) (mount_fs r mem_fs mem_fs :: (mem \<times> mem) afero) assets"
    by unfold_locales (auto simp: mount_outside out mount_fs_def on_snd_def on_fst_def apsnd_Pair_iff apsnd_fst_iff prod_eq_iff split: if_splits)
qed

end
