(* ===== verification/Lock_State.thy ===== *)
theory Lock_State
  imports Go_Json Afero
begin

text \<open>
  \<open>internal/state\<close>: the lock file \<open>rcm-lock.json\<close> in which the node installer records
  the shims it has installed. \<open>state_Shim\<close> and \<open>State\<close> are the Go structs of
  \<open>shim.go\<close> and \<open>state.go\<close>; the operations follow the source. The JSON encoding is the
  one of \<open>Go_Json\<close>, down to the bytes of the file. The main result is that writing a state
  and reading it back yields the same entries.
\<close>

section \<open>Shims\<close>

record state_Shim =
  Sha256 :: bytes
  Path :: path

definition Shim_json :: "state_Shim \<Rightarrow> json" where
  "Shim_json s = JObj [(''sha256'', JStr (hex_encode (Sha256 s))), (''path'', JStr (Path s))]"

definition Shim_MarshalJSON :: "state_Shim \<Rightarrow> bytes" where
  "Shim_MarshalJSON s = json_print compact 0 (Shim_json s)"

text \<open>
  Decoding into the auxiliary struct with the string fields \<open>sha256\<close> and \<open>path\<close>: field
  names match without regard to case, a null leaves a field alone, any other value that is not
  a string is a type error, which is reported after the remaining fields have been decoded.
\<close>

definition type_error :: error where
  "type_error = JsonError ''cannot unmarshal''"

definition decode_field :: "string \<times> json \<Rightarrow> error option \<times> string \<times> string \<Rightarrow> error option \<times> string \<times> string" where
  "decode_field kv acc =
     (case acc of (err, sha, p) \<Rightarrow>
        let name = fold_name (fst kv) in
        if name = ''SHA256'' then
          (case snd kv of
             JStr s \<Rightarrow> (err, s, p)
           | JNull \<Rightarrow> acc
           | _ \<Rightarrow> (Some type_error, sha, p))
        else if name = ''PATH'' then
          (case snd kv of
             JStr s \<Rightarrow> (err, sha, s)
           | JNull \<Rightarrow> acc
           | _ \<Rightarrow> (Some type_error, sha, p))
        else acc)"

definition decode_aux :: "json \<Rightarrow> error option \<times> string \<times> string" where
  "decode_aux j =
     (case j of
        JObj ms \<Rightarrow> fold decode_field ms (None, [], [])
      | JNull \<Rightarrow> (None, [], [])
      | _ \<Rightarrow> (Some type_error, [], []))"

text \<open>
  \<open>UnmarshalJSON\<close> assigns the path before it decodes the digest, so the path is set even
  when the digest is malformed.
\<close>

definition Shim_of_json :: "json \<Rightarrow> state_Shim \<Rightarrow> error option \<times> state_Shim" where
  "Shim_of_json j s =
     (case decode_aux j of
        (Some e, _) \<Rightarrow> (Some e, s)
      | (None, sha, p) \<Rightarrow>
          let s1 = s\<lparr>Path := p\<rparr> in
          (case hex_decode sha of
             Inl e \<Rightarrow> (Some e, s1)
           | Inr b \<Rightarrow> (None, s1\<lparr>Sha256 := b\<rparr>)))"

definition Shim_UnmarshalJSON :: "bytes \<Rightarrow> state_Shim \<Rightarrow> error option \<times> state_Shim" where
  "Shim_UnmarshalJSON data s =
     (case json_parse data of
        None \<Rightarrow> (Some (JsonError ''syntax error''), s)
      | Some j \<Rightarrow> Shim_of_json j s)"

definition zero_Shim :: state_Shim where
  "zero_Shim = \<lparr>Sha256 = [], Path = []\<rparr>"

section \<open>The state\<close>

text \<open>
  \<open>Shims\<close> maps names to pointers; a nil pointer is \<open>None\<close>.
\<close>

record 'w State =
  Shims :: "state_Shim option gomap"
  st_fs :: "'w afero"
  lockFilePath :: path

text \<open>
  Decoding the map: a null entry is a nil pointer; an entry that does not decode ends the
  decoding with its error.
\<close>

fun decode_entries :: "(string \<times> state_Shim option) list \<Rightarrow> (string \<times> json) list
    \<Rightarrow> error option \<times> (string \<times> state_Shim option) list" where
  "decode_entries m [] = (None, m)"
| "decode_entries m ((k, v) # es) =
     (if v = JNull then decode_entries (AList.update k None m) es
      else (case Shim_of_json v zero_Shim of
         (Some e, _) \<Rightarrow> (Some e, m)
       | (None, s) \<Rightarrow> decode_entries (AList.update k (Some s) m) es))"

text \<open>
  Decoding the top-level object: the first component is an error that ends the decoding at
  once, the second one a type error that is reported at the end.
\<close>

fun decode_state :: "error option \<Rightarrow> state_Shim option gomap \<Rightarrow> (string \<times> json) list
    \<Rightarrow> error option \<times> state_Shim option gomap" where
  "decode_state saved m [] = (saved, m)"
| "decode_state saved m ((k, v) # ms) =
     (if fold_name k = ''SHIMS'' then
        (case v of
           JNull \<Rightarrow> decode_state saved None ms
         | JObj es \<Rightarrow>
             (case decode_entries (entries m) es of
                (Some e, m') \<Rightarrow> (Some e, Some m')
              | (None, m') \<Rightarrow> decode_state saved (Some m') ms)
         | _ \<Rightarrow> decode_state (Some type_error) m ms)
      else decode_state saved m ms)"

definition State_Unmarshal :: "bytes \<Rightarrow> 'w State \<Rightarrow> error option \<times> 'w State" where
  "State_Unmarshal data st =
     (case json_parse data of
        None \<Rightarrow> (Some (JsonError ''syntax error''), st)
      | Some (JObj ms) \<Rightarrow>
          (case decode_state None (Shims st) ms of (err, m) \<Rightarrow> (err, st\<lparr>Shims := m\<rparr>))
      | Some JNull \<Rightarrow> (None, st)
      | Some _ \<Rightarrow> (Some type_error, st))"

definition new_State :: "'w afero \<Rightarrow> path \<Rightarrow> 'w State" where
  "new_State fs rcmPath =
     \<lparr>Shims = Some [], st_fs = fs, lockFilePath = path_Join [rcmPath, ''rcm-lock.json'']\<rparr>"

text \<open>\<open>Get\<close> returns a state, or nil, and an error.\<close>

definition Get :: "'w afero \<Rightarrow> path \<Rightarrow> 'w \<Rightarrow> 'w State option \<times> error option" where
  "Get fs rcmPath w =
     (let out = new_State fs rcmPath in
      case fs_ReadFile fs (lockFilePath out) w of
        Inr content \<Rightarrow>
          (case State_Unmarshal content out of (err, out') \<Rightarrow> (Some out', err))
      | Inl err \<Rightarrow> if \<not> is_ErrNotExist err then (None, Some err) else (Some out, None))"

definition ShimChanged :: "'w State \<Rightarrow> string \<Rightarrow> bytes \<Rightarrow> path \<Rightarrow> bool outcome" where
  "ShimChanged l shimName sha256 path =
     (case map_get (Shims l) shimName of
        None \<Rightarrow> Ret True
      | Some None \<Rightarrow> Panic ''nil pointer dereference''
      | Some (Some shim) \<Rightarrow> Ret (Sha256 shim \<noteq> sha256 \<or> Path shim \<noteq> path))"

definition UpdateShim :: "'w State \<Rightarrow> string \<Rightarrow> state_Shim \<Rightarrow> 'w State outcome" where
  "UpdateShim l shimName shim =
     (case map_set (Shims l) shimName (Some shim) of
        Panic m \<Rightarrow> Panic m
      | Ret m \<Rightarrow> Ret (l\<lparr>Shims := m\<rparr>))"

definition RemoveShim :: "'w State \<Rightarrow> string \<Rightarrow> 'w State" where
  "RemoveShim l shimName = l\<lparr>Shims := map_delete (Shims l) shimName\<rparr>"

text \<open>
  \<open>json.MarshalIndent(l, "", " ")\<close>: the map is encoded with its keys in order, a nil map
  and a nil pointer as null. Encoding these types cannot fail.
\<close>

definition Shims_json :: "state_Shim option gomap \<Rightarrow> json" where
  "Shims_json m =
     (case m of
        None \<Rightarrow> JNull
      | Some kvs \<Rightarrow>
          JObj (map (\<lambda>(k, s). (k, case s of None \<Rightarrow> JNull | Some x \<Rightarrow> Shim_json x)) (sort_key fst kvs)))"

definition State_MarshalIndent :: "'w State \<Rightarrow> bytes" where
  "State_MarshalIndent l = json_print indented 0 (JObj [(''shims'', Shims_json (Shims l))])"

definition State_Write :: "'w State \<Rightarrow> 'w \<Rightarrow> error option \<times> 'w" where
  "State_Write l w = fs_WriteFile (st_fs l) (lockFilePath l) (State_MarshalIndent l) 420 w"

text \<open>
  States whose strings survive the encoding: distinct keys, keys and paths in well-formed
  UTF-8. (Digests are written in hexadecimal and may be any bytes.)
\<close>

definition storable :: "state_Shim option gomap \<Rightarrow> bool" where
  "storable m \<longleftrightarrow> map_wf m
     \<and> list_all (\<lambda>(k, s). valid_utf8 k \<and> (case s of None \<Rightarrow> True | Some x \<Rightarrow> valid_utf8 (Path x))) (entries m)"

section \<open>Encoding and decoding a shim\<close>

lemma ascii_hex_encode: "ascii (hex_encode s)"
proof (induction s)
  case (Cons c s)
  have "byte_in 0 127 (hex_digit n)" if "n < 16" for n
    using that by (auto simp: hex_digit_def byte_in_def)
  with Cons of_char_div16 [of c] show ?case by simp
qed simp

lemma fold_name_fields [simp]:
  "fold_name ''sha256'' = ''SHA256''" "fold_name ''path'' = ''PATH''" "fold_name ''shims'' = ''SHIMS''"
  by (simp_all add: upper_def byte_in_def char_of_def bit_Suc_0_iff)

lemma decode_aux_Shim: "decode_aux (Shim_json s) = (None, hex_encode (Sha256 s), Path s)"
  by (simp add: decode_aux_def Shim_json_def decode_field_def del: fold_name.simps)

lemma Shim_of_json_Shim: "Shim_of_json (Shim_json s) z = (None, s)"
  by (simp add: Shim_of_json_def decode_aux_Shim hex_decode_encode Let_def)

lemma Shim_json_encodable: "valid_utf8 (Path s) \<Longrightarrow> encodable (Shim_json s)"
  using ascii_valid_utf8 [of "''sha256''"] ascii_valid_utf8 [of "''path''"]
  by (simp add: Shim_json_def ascii_valid_utf8 ascii_hex_encode byte_in_def)

lemma Shim_json_depth [simp]: "depth (Shim_json s) = 1"
  by (simp add: Shim_json_def)

section \<open>Encoding and decoding the state\<close>

lemma depth_JObj_le:
  "\<forall>kv \<in> set ms. depth (snd kv) \<le> n \<Longrightarrow> depth (JObj ms) \<le> Suc n"
  by (induction ms rule: rev_induct) auto

lemma entry_json_depth: "depth (case s of None \<Rightarrow> JNull | Some x \<Rightarrow> Shim_json x) \<le> 1"
  by (cases s) auto

lemma decode_entries_encoded:
  "distinct (map fst (m @ kvs)) \<Longrightarrow>
   decode_entries m (map (\<lambda>(k, s). (k, case s of None \<Rightarrow> JNull | Some x \<Rightarrow> Shim_json x)) kvs)
     = (None, m @ kvs)"
proof (induction kvs arbitrary: m)
  case (Cons kv kvs)
  obtain k s where kv: "kv = (k, s)" by (cases kv)
  from Cons.prems kv have upd: "AList.update k v m = m @ [(k, v)]" for v
    by (induction m) auto
  have "Shim_json x \<noteq> JNull" for x by (simp add: Shim_json_def)
  with Cons.IH [of "m @ [kv]"] Cons.prems upd show ?case
    by (cases s) (simp_all add: kv Shim_of_json_Shim)
qed simp

lemma Shims_json_encodable: "storable m \<Longrightarrow> encodable (Shims_json m)"
  by (cases m)
     (auto simp: Shims_json_def storable_def list_all_iff Shim_json_encodable split: option.splits)

lemma Shims_json_depth: "depth (Shims_json m) \<le> 2"
proof (cases m)
  case (Some kvs)
  then show ?thesis
    using depth_JObj_le [of "map (\<lambda>(k, s). (k, case s of None \<Rightarrow> JNull | Some x \<Rightarrow> Shim_json x)) (sort_key fst kvs)" 1]
      entry_json_depth by (fastforce simp: Shims_json_def simp del: depth.simps)
qed (simp add: Shims_json_def)

text \<open>Reading back yields the same map, with its entries in the order of the keys.\<close>

definition sorted_map :: "'a gomap \<Rightarrow> 'a gomap" where
  "sorted_map m = map_option (sort_key fst) m"

lemma set_sorted_map [simp]: "set (entries (sorted_map m)) = set (entries m)"
  by (cases m) (simp_all add: sorted_map_def)

lemma sorted_map_None [simp]: "sorted_map m = None \<longleftrightarrow> m = None"
  by (simp add: sorted_map_def)

lemma map_wf_sorted: "map_wf m \<Longrightarrow> map_wf (sorted_map m)"
proof (cases m)
  case (Some kvs)
  assume "map_wf m"
  with Some show ?thesis
    unfolding map_wf_def sorted_map_def
    by (simp add: distinct_map [of fst "sort_key fst kvs"]) (simp add: distinct_map)
qed (simp add: map_wf_def sorted_map_def)

lemma map_get_sorted:
  assumes "map_wf m"
  shows "map_get (sorted_map m) k = map_get m k"
proof -
  have "map_of (entries (sorted_map m)) = map_of (entries m)"
    using assms map_wf_sorted [OF assms] by (intro map_of_same_set) (simp_all add: map_wf_def)
  then show ?thesis by (simp add: map_get_def)
qed

lemma storable_sorted: "storable m \<Longrightarrow> storable (sorted_map m)"
  by (simp add: storable_def map_wf_sorted list_all_iff)

lemma decode_Shims_json:
  assumes "storable m"
  shows "decode_state None (Some []) [(''shims'', Shims_json m)] = (None, sorted_map m)"
proof (cases m)
  case (Some kvs)
  let ?s = "sort_key fst kvs"
  have "distinct (map fst ?s)"
    using map_wf_sorted [of m] assms Some by (simp add: storable_def map_wf_def sorted_map_def)
  then show ?thesis
    using decode_entries_encoded [of "[]" ?s]
    by (simp add: Some Shims_json_def sorted_map_def del: fold_name.simps)
qed (simp add: Shims_json_def sorted_map_def del: fold_name.simps)

lemma Unmarshal_MarshalIndent:
  assumes "storable (Shims st)" "Shims st0 = Some []"
  shows "State_Unmarshal (State_MarshalIndent st) st0 = (None, st0\<lparr>Shims := sorted_map (Shims st)\<rparr>)"
proof -
  have "valid_utf8 ''shims''" by (rule ascii_valid_utf8) (simp add: byte_in_def)
  then have "json_parse (State_MarshalIndent st) = Some (JObj [(''shims'', Shims_json (Shims st))])"
    unfolding State_MarshalIndent_def
    using assms(1) Shims_json_encodable Shims_json_depth [of "Shims st"]
    by (intro json_roundtrip blank_indented) (auto simp: max_depth_def)
  with decode_Shims_json [OF assms(1)] assms(2) show ?thesis
    by (simp add: State_Unmarshal_def)
qed

section \<open>Operations\<close>

text \<open>The state a client of the lock file works with: a map that is not nil, without nil entries.\<close>

definition usable :: "'w State \<Rightarrow> bool" where
  "usable st \<longleftrightarrow> storable (Shims st) \<and> Shims st \<noteq> None \<and> None \<notin> snd ` set (entries (Shims st))"

lemma usable_new [simp]: "usable (new_State fs rcm)"
  by (simp add: usable_def new_State_def storable_def map_wf_def)

lemma usable_not_nil: "usable st \<Longrightarrow> map_get (Shims st) k \<noteq> Some None"
  by (force simp: usable_def map_get_def dest!: map_of_SomeD)

lemma ShimChanged_usable:
  "usable st \<Longrightarrow> ShimChanged st k h p = Ret (map_get (Shims st) k \<noteq> Some (Some \<lparr>Sha256 = h, Path = p\<rparr>))"
  using usable_not_nil [of st k]
  by (auto simp: ShimChanged_def split: option.splits)

lemma set_update_subset: "set (AList.update k v m) \<subseteq> insert (k, v) (set m)"
  by (induction m) auto

lemma set_delete_subset: "set (AList.delete k m) \<subseteq> set m"
  by (induction m) auto

lemma UpdateShim_usable:
  assumes "usable st" "valid_utf8 k" "valid_utf8 (Path s)"
  shows "\<exists>st'. UpdateShim st k s = Ret st' \<and> usable st' \<and> st_fs st' = st_fs st
    \<and> lockFilePath st' = lockFilePath st
    \<and> (\<forall>x. map_get (Shims st') x = (if x = k then Some (Some s) else map_get (Shims st) x))"
proof -
  from assms(1) obtain kvs where kvs: "Shims st = Some kvs" by (auto simp: usable_def)
  let ?st = "st\<lparr>Shims := Some (AList.update k (Some s) kvs)\<rparr>"
  have "e = (k, Some s) \<or> e \<in> set kvs" if "e \<in> set (AList.update k (Some s) kvs)" for e
    using that set_update_subset by fast
  then have "usable ?st"
    using assms kvs by (fastforce simp: usable_def storable_def map_wf_def distinct_update list_all_iff)
  then show ?thesis
    by (simp add: UpdateShim_def map_set_def kvs map_get_def update_conv')
qed

lemma RemoveShim_usable:
  "usable st \<Longrightarrow> usable (RemoveShim st k)"
  using set_delete_subset [of k "entries (Shims st)"]
  by (cases "Shims st")
     (auto simp: RemoveShim_def usable_def storable_def map_wf_def map_delete_def distinct_delete
       list_all_iff image_iff)

lemma RemoveShim_get: "map_get (Shims (RemoveShim st k)) x = (if x = k then None else map_get (Shims st) x)"
  by (simp add: RemoveShim_def map_get_delete)

lemma RemoveShim_simps [simp]:
  "st_fs (RemoveShim st k) = st_fs st" "lockFilePath (RemoveShim st k) = lockFilePath st"
  by (simp_all add: RemoveShim_def)

lemma usable_sorted: "usable st \<Longrightarrow> usable (st\<lparr>Shims := sorted_map (Shims st)\<rparr>)"
  by (simp add: usable_def storable_sorted)

text \<open>
  What a reader of the lock file sees: the abstract state of the component is a finite map from
  runtime names to digests and paths.
\<close>

definition lock_path :: "path \<Rightarrow> path" where
  "lock_path rcm = path_Join [rcm, ''rcm-lock.json'']"

definition recorded :: "'w afero \<Rightarrow> path \<Rightarrow> 'w \<Rightarrow> string \<rightharpoonup> state_Shim" where
  "recorded fs rcm w k =
     (case Get fs rcm w of
        (Some st, None) \<Rightarrow> (case map_get (Shims st) k of Some (Some s) \<Rightarrow> Some s | _ \<Rightarrow> None)
      | _ \<Rightarrow> None)"

lemma Get_cong:
  "fs_ReadFile fs (lock_path rcm) w' = fs_ReadFile fs (lock_path rcm) w \<Longrightarrow> Get fs rcm w' = Get fs rcm w"
  by (simp add: Get_def lock_path_def new_State_def Let_def)

lemma Get_fields:
  "Get fs rcm w = (Some st, e) \<Longrightarrow> st_fs st = fs \<and> lockFilePath st = lock_path rcm"
  by (auto simp: Get_def lock_path_def new_State_def Let_def State_Unmarshal_def
    split: sum.splits prod.splits option.splits json.splits if_splits)

lemma recorded_Get:
  "Get fs rcm w = (Some st, None) \<Longrightarrow> usable st
    \<Longrightarrow> map_get (Shims st) k = map_option Some (recorded fs rcm w k)"
  using usable_not_nil [of st k] by (auto simp: recorded_def split: option.splits)

context afero_fs
begin

lemma Get_after_Write:
  assumes "storable (Shims st)" "State_Write st w = (None, w')"
    and "st_fs st = fs" "lockFilePath st = lock_path rcm"
  shows "Get fs rcm w' = (Some (st\<lparr>Shims := sorted_map (Shims st)\<rparr>), None)"
proof -
  have "fs_ReadFile fs (lock_path rcm) w' = Inr (State_MarshalIndent st)"
    using assms(2) unfolding State_Write_def assms(3,4) by (rule read_WriteFile)
  with Unmarshal_MarshalIndent [OF assms(1), of "new_State fs rcm"] assms(3,4) show ?thesis
    by (simp add: Get_def new_State_def Let_def lock_path_def)
qed

lemma recorded_after_Write:
  assumes "usable st" "State_Write st w = (None, w')"
    and "st_fs st = fs" "lockFilePath st = lock_path rcm"
  shows "map_option Some (recorded fs rcm w' k) = map_get (Shims st) k"
proof -
  have "storable (Shims st)" using assms(1) by (simp add: usable_def)
  have "map_get (sorted_map (Shims st)) k = map_option Some (recorded fs rcm w' k)"
    using recorded_Get [OF Get_after_Write [OF \<open>storable (Shims st)\<close> assms(2-4)]
      usable_sorted [OF assms(1)]] by simp
  then show ?thesis
    using \<open>storable (Shims st)\<close> by (simp add: map_get_sorted storable_def)
qed

end

text \<open>
  C3. Writing the state and reading it back gives the same entries: after a successful
  \<open>State.Write\<close>, \<open>state.Get\<close> on the same directory succeeds and every name is mapped to
  the digest and path that were written, with the bytes of the JSON file in between.
\<close>

theorem State_Write_Get:
  assumes "afero_fs fs" "storable (Shims st)" "st_fs st = fs"
    and "lockFilePath st = lock_path rcm" "State_Write st w = (None, w')"
  shows "\<exists>st'. Get fs rcm w' = (Some st', None) \<and> (\<forall>k. map_get (Shims st') k = map_get (Shims st) k)"
  using afero_fs.Get_after_Write [OF assms(1,2,5,3,4)] assms(2)
  by (auto simp: map_get_sorted storable_def)

text \<open>A witness: a state with one shim, on the file system in memory.\<close>

definition demo_state :: "mem State" where
  "demo_state =
     \<lparr>Shims = Some [(''spin'', Some \<lparr>Sha256 = ''ab'', Path = ''/bin/spin''\<rparr>)], st_fs = mem_fs,
      lockFilePath = path_Join [''/opt/rcm'', ''rcm-lock.json'']\<rparr>"

definition empty_mem :: mem where
  "empty_mem = \<lparr>mem_files = [], mem_dirs = [], mem_ro = False\<rparr>"

lemma demo_state_Write: "fst (State_Write demo_state empty_mem) = None"
  by (simp add: State_Write_def demo_state_def mem_fs_def mem_WriteFile_def empty_mem_def mem_isdir_def)

lemma demo_state_storable: "storable (Shims demo_state)"
  by (auto simp: storable_def demo_state_def map_wf_def byte_in_def intro!: ascii_valid_utf8)

theorem State_Write_Get_witness:
  "\<exists>st'. Get mem_fs ''/opt/rcm'' (snd (State_Write demo_state empty_mem)) = (Some st', None)
     \<and> (\<forall>k. map_get (Shims st') k = map_get (Shims demo_state) k)"
  using State_Write_Get [OF mem.afero_fs_axioms demo_state_storable, of "''/opt/rcm''" empty_mem]
    demo_state_Write
  by (simp add: demo_state_def prod_eq_iff lock_path_def)

end
