(* ===== verification/Go_Sha256.thy ===== *)
theory Go_Sha256
  imports RCM_Prelude "HOL-Library.Word"
begin

text \<open>
  \<open>crypto/sha256\<close>: the digest \<open>sha256.New().Sum(nil)\<close> of the bytes written to the
  hash, as FIPS 180-4 defines it, on 32-bit words. The source writes a stream in blocks; the
  digest depends on their concatenation only, so the hash is a function of all bytes written.
\<close>

unbundle bit_operations_syntax

section \<open>Definitions\<close>

type_synonym w32 = "32 word"

definition round_constants :: "w32 list" where
  "round_constants =
    [1116352408, 1899447441, 3049323471, 3921009573, 961987163, 1508970993,
     2453635748, 2870763221, 3624381080, 310598401, 607225278, 1426881987,
     1925078388, 2162078206, 2614888103, 3248222580, 3835390401, 4022224774,
     264347078, 604807628, 770255983, 1249150122, 1555081692, 1996064986,
     2554220882, 2821834349, 2952996808, 3210313671, 3336571891, 3584528711,
     113926993, 338241895, 666307205, 773529912, 1294757372, 1396182291,
     1695183700, 1986661051, 2177026350, 2456956037, 2730485921, 2820302411,
     3259730800, 3345764771, 3516065817, 3600352804, 4094571909, 275423344,
     430227734, 506948616, 659060556, 883997877, 958139571, 1322822218,
     1537002063, 1747873779, 1955562222, 2024104815, 2227730452, 2361852424,
     2428436474, 2756734187, 3204031479, 3329325298]"

record hash_state =
  ha :: w32  hb :: w32  hc :: w32  hd' :: w32
  he :: w32  hf :: w32  hg :: w32  hh :: w32

definition initial_hash :: hash_state where
  "initial_hash =
    \<lparr>ha = 0x6a09e667, hb = 0xbb67ae85, hc = 0x3c6ef372, hd' = 0xa54ff53a,
     he = 0x510e527f, hf = 0x9b05688c, hg = 0x1f83d9ab, hh = 0x5be0cd19\<rparr>"

definition rotr :: "nat \<Rightarrow> w32 \<Rightarrow> w32" where
  "rotr n x = drop_bit n x OR push_bit (32 - n) x"

definition small_sigma0 :: "w32 \<Rightarrow> w32" where
  "small_sigma0 x = rotr 7 x XOR rotr 18 x XOR drop_bit 3 x"

definition small_sigma1 :: "w32 \<Rightarrow> w32" where
  "small_sigma1 x = rotr 17 x XOR rotr 19 x XOR drop_bit 10 x"

definition big_sigma0 :: "w32 \<Rightarrow> w32" where
  "big_sigma0 x = rotr 2 x XOR rotr 13 x XOR rotr 22 x"

definition big_sigma1 :: "w32 \<Rightarrow> w32" where
  "big_sigma1 x = rotr 6 x XOR rotr 11 x XOR rotr 25 x"

text \<open>The message schedule, kept in reverse: the newest word first.\<close>

fun expand :: "nat \<Rightarrow> w32 list \<Rightarrow> w32 list" where
  "expand 0 ws = ws"
| "expand (Suc n) ws =
     expand n ((small_sigma1 (ws ! 1) + ws ! 6 + small_sigma0 (ws ! 14) + ws ! 15) # ws)"

definition schedule :: "w32 list \<Rightarrow> w32 list" where
  "schedule block = rev (expand 48 (rev block))"

definition sha_round :: "w32 \<times> w32 \<Rightarrow> hash_state \<Rightarrow> hash_state" where
  "sha_round kw s =
     (let ch = (he s AND hf s) XOR (NOT (he s) AND hg s);
          maj = (ha s AND hb s) XOR (ha s AND hc s) XOR (hb s AND hc s);
          t1 = hh s + big_sigma1 (he s) + ch + fst kw + snd kw;
          t2 = big_sigma0 (ha s) + maj
      in \<lparr>ha = t1 + t2, hb = ha s, hc = hb s, hd' = hc s,
          he = hd' s + t1, hf = he s, hg = hf s, hh = hg s\<rparr>)"

definition sha_block :: "w32 list \<Rightarrow> hash_state \<Rightarrow> hash_state" where
  "sha_block block s =
     (let r = fold sha_round (zip round_constants (schedule block)) s
      in \<lparr>ha = ha s + ha r, hb = hb s + hb r, hc = hc s + hc r, hd' = hd' s + hd' r,
          he = he s + he r, hf = hf s + hf r, hg = hg s + hg r, hh = hh s + hh r\<rparr>)"

definition be_bytes :: "nat \<Rightarrow> int \<Rightarrow> bytes" where
  "be_bytes k n = map (\<lambda>i. char_of (n div 256 ^ i)) (rev [0..<k])"

definition pad :: "bytes \<Rightarrow> bytes" where
  "pad m = m @ CHR 0x80 # replicate ((119 - length m mod 64) mod 64) (CHR 0x00) @ be_bytes 8 (8 * int (length m))"

fun words_of :: "bytes \<Rightarrow> w32 list" where
  "words_of (a # b # c # d # s) =
     (of_char a * 0x1000000 + of_char b * 0x10000 + of_char c * 0x100 + of_char d) # words_of s"
| "words_of _ = []"

fun blocks_of :: "nat \<Rightarrow> w32 list \<Rightarrow> w32 list list" where
  "blocks_of 0 ws = []"
| "blocks_of (Suc n) ws = take 16 ws # blocks_of n (drop 16 ws)"

definition hash_bytes :: "hash_state \<Rightarrow> bytes" where
  "hash_bytes s =
     concat (map (\<lambda>w. be_bytes 4 (uint w)) [ha s, hb s, hc s, hd' s, he s, hf s, hg s, hh s])"

definition sha256_Sum :: "bytes \<Rightarrow> bytes" where
  "sha256_Sum m =
     (let p = pad m in hash_bytes (fold sha_block (blocks_of (length p div 64) (words_of p)) initial_hash))"

section \<open>Shape of the digest\<close>

lemma length_be_bytes [simp]: "length (be_bytes k n) = k"
  by (simp add: be_bytes_def)

lemma length_sha256_Sum: "length (sha256_Sum m) = 32"
  by (simp add: sha256_Sum_def hash_bytes_def Let_def)

text \<open>The padded message is a whole number of 64-byte blocks and starts with the message.\<close>

lemma length_pad: "length (pad m) mod 64 = 0"
proof -
  define q r where "q = length m div 64" and "r = length m mod 64"
  then have m: "length m = 64 * q + r" and r: "r < 64" by simp_all
  have "length (pad m) = 64 * q + (r + 9 + (119 - r) mod 64)"
    using r by (simp add: pad_def m)
  moreover have "(119 - r) mod 64 = (if r \<le> 55 then 55 - r else 119 - r)"
  proof (cases "r \<le> 55")
    case True
    then have "119 - r = (55 - r) + 64" by simp
    then have "(119 - r) mod 64 = (55 - r) mod 64" by (simp only: mod_add_self2)
    with True show ?thesis by simp
  qed (use r in simp)
  ultimately have "length (pad m) = 64 * (q + 1) \<or> length (pad m) = 64 * (q + 2)"
    using r by auto
  then show ?thesis by auto
qed

end
