(* ===== verification/Shim_Install.thy ===== *)
theory Shim_Install
  imports Lock_State Go_Sha256
begin

text \<open>
  \<open>internal/shim\<close>: installing a shim binary on the host and removing it again.
  \<open>Install\<close> and \<open>Uninstall\<close> follow \<open>install.go\<close> and \<open>uninstall.go\<close> call by call on
  the two file systems of \<open>Afero\<close>; the digest is the SHA-256 of \<open>Go_Sha256\<close>. The abstract
  state is the map \<open>recorded\<close> of \<open>Lock_State\<close> together with the binaries on the host:
  the lemmas show that the operations update it as a map update and a map deletion.
\<close>

section \<open>The configuration\<close>

record 'w shim_Config =
  rootFs :: "'w afero"
  hostFs :: "'w afero"
  assetPath :: path
  rcmPath :: path

definition shim_NewConfig :: "'w afero \<Rightarrow> 'w afero \<Rightarrow> path \<Rightarrow> path \<Rightarrow> 'w shim_Config" where
  "shim_NewConfig root host asset rcm =
     \<lparr>rootFs = root, hostFs = host, assetPath = asset, rcmPath = rcm\<rparr>"

definition RuntimeName :: "string \<Rightarrow> string" where
  "RuntimeName bin = TrimPrefix bin ''containerd-shim-''"

section \<open>Install\<close>

text \<open>
  \<open>io.Copy(io.MultiWriter(dstFile, shimSha256), srcFile)\<close>: every non-empty block is written
  to the file first and, if that write was complete, to the hash. The result is the error, and
  the bytes the hash has seen.
\<close>

definition ErrShortWrite :: error where
  "ErrShortWrite = FsError ''short write''"

fun io_Copy :: "'w afero \<Rightarrow> path \<Rightarrow> bytes list \<Rightarrow> error option \<Rightarrow> bytes \<Rightarrow> 'w
    \<Rightarrow> error option \<times> bytes \<times> 'w" where
  "io_Copy fs dst [] readErr hashed w = (readErr, hashed, w)"
| "io_Copy fs dst (b # bs) readErr hashed w =
     (if b = [] then io_Copy fs dst bs readErr hashed w
      else (case fs_Write fs dst b w of
         ((n, Some e), w') \<Rightarrow> (Some e, hashed, w')
       | ((n, None), w') \<Rightarrow>
           if n \<noteq> length b then (Some ErrShortWrite, hashed, w')
           else io_Copy fs dst bs readErr (hashed @ b) w'))"

type_synonym install_result = "(path \<times> bool \<times> error option) outcome"

definition record_shim :: "'w State \<Rightarrow> string \<Rightarrow> path \<Rightarrow> bytes \<Rightarrow> error option \<Rightarrow> 'w \<Rightarrow> install_result \<times> 'w" where
  "record_shim st runtimeName dstFilePath digest err w =
     (case ShimChanged st runtimeName digest dstFilePath of
        Panic m \<Rightarrow> (Panic m, w)
      | Ret False \<Rightarrow> (Ret (dstFilePath, False, err), w)
      | Ret True \<Rightarrow>
          (case UpdateShim st runtimeName \<lparr>Sha256 = digest, Path = dstFilePath\<rparr> of
             Panic m \<Rightarrow> (Panic m, w)
           | Ret st' \<Rightarrow>
               (case State_Write st' w of
                  (Some e, w') \<Rightarrow> (Ret ([], False, Some e), w')
                | (None, w') \<Rightarrow> (Ret (dstFilePath, True, err), w'))))"

definition Install :: "'w shim_Config \<Rightarrow> string \<Rightarrow> 'w \<Rightarrow> install_result \<times> 'w" where
  "Install c shimName w =
     (let shimPath = path_Join [assetPath c, shimName];
          dstFilePath = path_Join [rcmPath c, ''bin'', shimName]
      in case fs_OpenFile (rootFs c) shimPath [O_RDONLY] 0 w of
        (Some e, w1) \<Rightarrow> (Ret ([], False, Some e), w1)
      | (None, w1) \<Rightarrow>
      (case fs_MkdirAll (hostFs c) (path_Dir dstFilePath) 509 w1 of
        (Some e, w2) \<Rightarrow> (Ret (dstFilePath, False, Some e), w2)
      | (None, w2) \<Rightarrow>
      (case fs_OpenFile (hostFs c) dstFilePath [O_RDWR, O_CREATE, O_TRUNC] 493 w2 of
        (Some e, w3) \<Rightarrow> (Ret ([], False, Some e), w3)
      | (None, w3) \<Rightarrow>
      (case Get (hostFs c) (rcmPath c) w3 of
        (_, Some e) \<Rightarrow> (Ret ([], False, Some e), w3)
      | (None, None) \<Rightarrow> (Panic ''nil pointer dereference'', w3)
      | (Some st, None) \<Rightarrow>
      (case fs_Blocks (rootFs c) shimPath w3 of (blocks, readErr) \<Rightarrow>
       case io_Copy (hostFs c) dstFilePath blocks readErr [] w3 of (err, hashed, w4) \<Rightarrow>
         record_shim st (RuntimeName shimName) dstFilePath (sha256_Sum hashed) err w4)))))"

section \<open>Uninstall\<close>

definition Uninstall :: "'w shim_Config \<Rightarrow> string \<Rightarrow> 'w \<Rightarrow> (path \<times> error option) outcome \<times> 'w" where
  "Uninstall c shimName w =
     (case Get (hostFs c) (rcmPath c) w of
        (_, Some e) \<Rightarrow> (Ret ([], Some e), w)
      | (None, None) \<Rightarrow> (Panic ''nil pointer dereference'', w)
      | (Some st, None) \<Rightarrow>
          (case map_get (Shims st) shimName of
             None \<Rightarrow> (Ret ([], Some (Msg (''shim '' @ shimName @ '' not installed''))), w)
           | Some None \<Rightarrow> (Panic ''nil pointer dereference'', w)
           | Some (Some s) \<Rightarrow>
               (case fs_Remove (hostFs c) (Path s) w of (err, w1) \<Rightarrow>
                  if (case err of None \<Rightarrow> False | Some e \<Rightarrow> \<not> is_ErrNotExist e)
                  then (Ret ([], Some (Msg (''shim binary at '' @ Path s @ '' does not exist, nothing to delete''))), w1)
                  else (case State_Write (RemoveShim st shimName) w1 of
                     (Some e, w2) \<Rightarrow> (Ret ([], Some e), w2)
                   | (None, w2) \<Rightarrow> (Ret (Path s, None), w2)))))"

text \<open>\<open>Uninstall\<close> does not look at the assets.\<close>

lemma Uninstall_root: "Uninstall (shim_NewConfig root host assets rcm) k w = Uninstall (shim_NewConfig root' host assets' rcm) k w"
  unfolding Uninstall_def shim_NewConfig_def shim_Config.simps by (rule refl)

section \<open>The two paths\<close>

definition bin_path :: "path \<Rightarrow> string \<Rightarrow> path" where
  "bin_path rcm s = path_Join [rcm, ''bin'', s]"

lemma file_name_consts [simp]: "file_name ''bin''" "file_name ''rcm-lock.json''"
  by (simp_all add: file_name_def)

lemma segs_bin: "file_name s \<Longrightarrow> segs (bin_path rcm s) = segs rcm @ [''bin'', s]"
  by (simp add: bin_path_def segs_Join)

lemma segs_lock: "segs (lock_path rcm) = segs rcm @ [''rcm-lock.json'']"
  by (simp add: lock_path_def segs_Join)

lemma lock_bin_apart [simp]:
  assumes "file_name s"
  shows "\<not> under (lock_path rcm) (bin_path rcm s)" "\<not> under (bin_path rcm s) (lock_path rcm)"
    "\<not> under (lock_path rcm) (path_Dir (bin_path rcm s))"
    "\<not> under (bin_path rcm s) (path_Dir (bin_path rcm s))"
proof -
  have "segs (path_Dir (bin_path rcm s)) = segs rcm @ [''bin'']"
    using segs_Dir_Join [OF assms, of "[rcm, ''bin'']"] segs_bin [OF assms, of rcm]
    by (simp add: bin_path_def)
  then show "\<not> under (lock_path rcm) (path_Dir (bin_path rcm s))"
    and "\<not> under (bin_path rcm s) (path_Dir (bin_path rcm s))"
    by (simp_all add: under_def segs_lock segs_bin assms)
  show "\<not> under (lock_path rcm) (bin_path rcm s)" "\<not> under (bin_path rcm s) (lock_path rcm)"
    by (simp_all add: under_def segs_lock segs_bin assms)
qed

lemma bin_path_apart:
  "file_name s \<Longrightarrow> file_name t \<Longrightarrow> s \<noteq> t \<Longrightarrow> \<not> under (bin_path rcm t) (bin_path rcm s)"
  by (simp add: under_def segs_bin)

section \<open>Copying\<close>

context afero_fs
begin

lemma io_Copy_ok:
  "io_Copy fs p bs re h w = (None, h', w') \<Longrightarrow> fs_ReadFile fs p w = Inr c
    \<Longrightarrow> re = None \<and> h' = h @ concat bs \<and> fs_ReadFile fs p w' = Inr (c @ concat bs)"
proof (induction bs arbitrary: h w c)
  case (Cons b bs)
  show ?case
  proof (cases "b = []")
    case False
    then obtain n w1 where wr: "fs_Write fs p b w = ((n, None), w1)" "n = length b"
      and rest: "io_Copy fs p bs re (h @ b) w1 = (None, h', w')"
      using Cons.prems(1) by (auto split: prod.splits option.splits if_splits)
    from Cons.IH [OF rest read_Write [OF wr(1) Cons.prems(2)]] show ?thesis by simp
  qed (use Cons in simp)
qed simp

lemma io_Copy_frame:
  "io_Copy fs p bs re h w = (e, h', w') \<Longrightarrow> \<not> under q p \<Longrightarrow> fs_ReadFile fs q w' = fs_ReadFile fs q w"
  by (induction bs arbitrary: h w)
     (auto split: if_splits prod.splits option.splits dest: frame_Write)

end

section \<open>The lock file as an abstract map\<close>

definition lock_ok :: "'w afero \<Rightarrow> path \<Rightarrow> 'w \<Rightarrow> bool" where
  "lock_ok fs rcm w = (case Get fs rcm w of (Some st, None) \<Rightarrow> usable st | _ \<Rightarrow> False)"

lemma lock_ok_iff: "lock_ok fs rcm w \<longleftrightarrow> (\<exists>st. Get fs rcm w = (Some st, None) \<and> usable st)"
  by (auto simp: lock_ok_def split: prod.splits option.splits)

lemma recorded_cong:
  assumes "fs_ReadFile fs (lock_path rcm) w' = fs_ReadFile fs (lock_path rcm) w"
  shows "recorded fs rcm w' = recorded fs rcm w" "lock_ok fs rcm w' = lock_ok fs rcm w"
  using Get_cong [OF assms] by (auto simp: recorded_def lock_ok_def)

lemma map_option_Some_eq: "map_option Some x = Some (Some y) \<longleftrightarrow> x = Some y"
  by auto

lemma ShimChanged_recorded:
  "Get fs rcm w = (Some st, None) \<Longrightarrow> usable st
    \<Longrightarrow> ShimChanged st k h p = Ret (recorded fs rcm w k \<noteq> Some \<lparr>Sha256 = h, Path = p\<rparr>)"
  by (simp add: ShimChanged_usable recorded_Get map_option_Some_eq)

context afero_fs
begin

lemma Write_recorded:
  assumes "usable st" "State_Write st w = (None, w')" "st_fs st = fs" "lockFilePath st = lock_path rcm"
  shows "lock_ok fs rcm w'" "map_option Some (recorded fs rcm w' k) = map_get (Shims st) k"
    "\<not> under q (lock_path rcm) \<Longrightarrow> fs_ReadFile fs q w' = fs_ReadFile fs q w"
proof -
  have "storable (Shims st)" using assms(1) by (simp add: usable_def)
  then show "lock_ok fs rcm w'"
    using Get_after_Write [OF _ assms(2-4)] usable_sorted [OF assms(1)] by (simp add: lock_ok_def)
  show "map_option Some (recorded fs rcm w' k) = map_get (Shims st) k"
    by (rule recorded_after_Write [OF assms])
  show "\<not> under q (lock_path rcm) \<Longrightarrow> fs_ReadFile fs q w' = fs_ReadFile fs q w"
    using assms(2) frame_WriteFile unfolding State_Write_def assms(3,4) by blast
qed

lemma record_shim_cases:
  assumes get: "Get fs rcm w = (Some st, None)" and st: "usable st"
    and names: "valid_utf8 k" "valid_utf8 p"
    and run: "record_shim st k p d err w = (r, w')"
  obtains (write_error) e where "r = Ret ([], False, Some e)"
  | (recorded) "r = Ret (p, recorded fs rcm w k \<noteq> Some \<lparr>Sha256 = d, Path = p\<rparr>, err)"
      "recorded fs rcm w' = (recorded fs rcm w)(k \<mapsto> \<lparr>Sha256 = d, Path = p\<rparr>)" "lock_ok fs rcm w'"
      "\<forall>q. \<not> under q (lock_path rcm) \<longrightarrow> fs_ReadFile fs q w' = fs_ReadFile fs q w"
proof (cases "recorded fs rcm w k = Some \<lparr>Sha256 = d, Path = p\<rparr>")
  case True
  then have "r = Ret (p, False, err)" "w' = w"
    using run by (simp_all add: record_shim_def ShimChanged_recorded [OF get st])
  with True get st show thesis by (intro recorded) (auto simp: lock_ok_def)
next
  case False
  note fields = Get_fields [OF get]
  obtain st' where st': "UpdateShim st k \<lparr>Sha256 = d, Path = p\<rparr> = Ret st'" "usable st'"
      "st_fs st' = fs" "lockFilePath st' = lock_path rcm"
      "\<And>x. map_get (Shims st') x = (if x = k then Some (Some \<lparr>Sha256 = d, Path = p\<rparr>) else map_get (Shims st) x)"
    using UpdateShim_usable [OF st names(1), of "\<lparr>Sha256 = d, Path = p\<rparr>"] names(2) fields by auto
  show thesis
  proof (cases "fst (State_Write st' w)")
    case None
    then have wr: "State_Write st' w = (None, w')" and r: "r = Ret (p, True, err)"
      using run False st'(1) by (auto simp: record_shim_def ShimChanged_recorded [OF get st] split: prod.splits)
    note wrote = Write_recorded [OF st'(2) wr st'(3,4)]
    have "recorded fs rcm w' x = ((recorded fs rcm w)(k \<mapsto> \<lparr>Sha256 = d, Path = p\<rparr>)) x" for x
      using wrote(2) [of x] st'(5) [of x] recorded_Get [OF get st, of x]
      by (cases "recorded fs rcm w' x"; cases "recorded fs rcm w x") (auto split: if_splits)
    with r False wrote(1,3) show thesis by (intro recorded) auto
  next
    case (Some e)
    then show thesis
      using run False st'(1) by (intro write_error [of e]) (auto simp: record_shim_def ShimChanged_recorded [OF get st] split: prod.splits)
  qed
qed

end

section \<open>The installer's two file systems\<close>

text \<open>
  A host on which the shims of \<open>assets\<close> are installed below \<open>rcm\<close>. \<open>shim_names\<close> are the
  names the JSON of the lock file can represent.
\<close>

definition shim_file :: "path \<Rightarrow> string \<Rightarrow> bool" where
  "shim_file rcm s \<longleftrightarrow> file_name s \<and> valid_utf8 (RuntimeName s) \<and> valid_utf8 (bin_path rcm s)"

definition asset_path :: "path \<Rightarrow> string \<Rightarrow> path" where
  "asset_path assets s = path_Join [assets, s]"

lemma not_under_Dir_bin:
  assumes "file_name s" "\<not> under q (bin_path rcm s)"
  shows "\<not> under q (path_Dir (bin_path rcm s))"
  using assms segs_Dir_Join [OF assms(1), of "[rcm, ''bin'']"]
  by (auto simp: bin_path_def under_def)

locale shim_host = installer_fs host root assets
  for host root :: "'w afero" and assets :: path +
  fixes rcm :: path
begin

lemma asset_below [simp]: "file_name s \<Longrightarrow> under assets (asset_path assets s)"
  by (simp add: asset_path_def under_def segs_Join)

abbreviation cfg :: "'w shim_Config" where
  "cfg \<equiv> shim_NewConfig root host assets rcm"

text \<open>
  A run of \<open>Install\<close> either stops before the copy, or copies and then records: the file
  system it records in differs from the first one in the binary only.
\<close>

lemma Install_prepare:
  assumes fn: "file_name s" and lock: "lock_ok host rcm w" and run: "Install cfg s w = (r, w')"
  obtains (failed) q e where "r = Ret (q, False, Some e)"
  | (prepared) st bs re err h w3 w4 where
      "Get host rcm w = (Some st, None)" "usable st" "fs_Blocks root (asset_path assets s) w = (bs, re)"
      "fs_ReadFile host (bin_path rcm s) w3 = Inr []"
      "io_Copy host (bin_path rcm s) bs re [] w3 = (err, h, w4)"
      "record_shim st (RuntimeName s) (bin_path rcm s) (sha256_Sum h) err w4 = (r, w')"
      "\<And>q. \<not> under q (bin_path rcm s) \<Longrightarrow> fs_ReadFile host q w4 = fs_ReadFile host q w"
proof -
  let ?a = "asset_path assets s" and ?b = "bin_path rcm s"
  note run' = run [unfolded Install_def Let_def shim_NewConfig_def shim_Config.simps, folded asset_path_def bin_path_def]
  obtain e1 w1 where opn: "fs_OpenFile root ?a [O_RDONLY] 0 w = (e1, w1)" by fastforce
  then have w1: "w1 = w" by (rule root_OpenRead)
  obtain e2 w2 where mk: "fs_MkdirAll host (path_Dir ?b) 509 w = (e2, w2)" by fastforce
  obtain e3 w3 where trunc: "fs_OpenFile host ?b [O_RDWR, O_CREATE, O_TRUNC] 493 w2 = (e3, w3)" by fastforce
  show thesis
  proof (cases "e1 = None \<and> e2 = None \<and> e3 = None")
    case False
    then show thesis
      using run' opn mk trunc w1 by (auto split: option.splits intro: failed)
  next
    case True
    have frame3: "fs_ReadFile host q w3 = fs_ReadFile host q w" if "\<not> under q ?b" for q
      using frame_MkdirAll [OF mk not_under_Dir_bin [OF fn that]] frame_OpenFile [OF trunc that] by simp
    obtain st where get: "Get host rcm w = (Some st, None)" and st: "usable st"
      using lock by (auto simp: lock_ok_iff)
    have get3: "Get host rcm w3 = (Some st, None)"
      using Get_cong [of host rcm w3 w] frame3 fn get by simp
    have sep: "fs_Blocks root ?a w3 = fs_Blocks root ?a w"
      using sep_OpenFile [OF trunc asset_below [OF fn]] sep_MkdirAll [OF mk asset_below [OF fn]] by simp
    obtain bs re where blocks: "fs_Blocks root ?a w = (bs, re)" by fastforce
    obtain err h w4 where copy: "io_Copy host ?b bs re [] w3 = (err, h, w4)"
      by (cases "io_Copy host ?b bs re [] w3") auto
    have "record_shim st (RuntimeName s) ?b (sha256_Sum h) err w4 = (r, w')"
      using run' opn mk trunc True w1 get3 blocks sep copy by simp
    moreover have "fs_ReadFile host ?b w3 = Inr []" using read_OpenTrunc trunc True by simp
    ultimately show thesis
      using prepared [OF get st blocks _ copy] io_Copy_frame [OF copy] frame3 by simp
  qed
qed

lemma Install_cases:
  assumes s: "shim_file rcm s" and lock: "lock_ok host rcm w" and run: "Install cfg s w = (r, w')"
  obtains (failed) q e where "r = Ret (q, False, Some e)"
  | (copied) h err where
      "r = Ret (bin_path rcm s,
          recorded host rcm w (RuntimeName s) \<noteq> Some \<lparr>Sha256 = sha256_Sum h, Path = bin_path rcm s\<rparr>, err)"
      "recorded host rcm w' = (recorded host rcm w)(RuntimeName s \<mapsto> \<lparr>Sha256 = sha256_Sum h, Path = bin_path rcm s\<rparr>)"
      "lock_ok host rcm w'"
      "err = None \<Longrightarrow> (\<exists>bs. fs_Blocks root (asset_path assets s) w = (bs, None) \<and> h = concat bs)
        \<and> fs_ReadFile host (bin_path rcm s) w' = Inr h"
      "\<And>q. \<not> under q (lock_path rcm) \<Longrightarrow> \<not> under q (bin_path rcm s)
        \<Longrightarrow> fs_ReadFile host q w' = fs_ReadFile host q w"
proof -
  have fn: "file_name s" and names: "valid_utf8 (RuntimeName s)" "valid_utf8 (bin_path rcm s)"
    using s by (simp_all add: shim_file_def)
  from fn lock run show thesis
  proof (cases rule: Install_prepare)
    case (prepared st bs re err h w3 w4)
    have lock4: "Get host rcm w4 = (Some st, None)" "recorded host rcm w4 = recorded host rcm w"
      using Get_cong [of host rcm w4 w] recorded_cong [of host rcm w4 w] prepared(1,7) fn by simp_all
    from lock4(1) prepared(2) names prepared(6) show thesis
    proof (cases rule: record_shim_cases)
      case recorded
      have "re = None" "h = concat bs" "fs_ReadFile host (bin_path rcm s) w4 = Inr h" if "err = None"
        using io_Copy_ok [of "bin_path rcm s" bs re "[]" w3 h w4 "[]"] prepared(4,5) that by auto
      with recorded prepared lock4(2) fn show thesis by (intro copied [of h err]) auto
    qed (rule failed)
  qed (rule failed)
qed

lemma sep_io_Copy:
  "io_Copy host p bs re h w = (e, h', w') \<Longrightarrow> under assets q \<Longrightarrow> fs_Blocks root q w' = fs_Blocks root q w"
  by (induction bs arbitrary: h w) (auto split: if_splits prod.splits option.splits dest: sep_Write)

lemma sep_record_shim:
  assumes "st_fs st = host" "record_shim st k p d err w = (r, w')" "under assets q"
  shows "fs_Blocks root q w' = fs_Blocks root q w"
proof -
  have "fs_Blocks root q w2 = fs_Blocks root q w1" if "st_fs st' = host" "State_Write st' w1 = (e, w2)" for st' w1 w2 e
    using sep_WriteFile [OF _ assms(3)] that(2) unfolding State_Write_def that(1) by blast
  moreover have "st_fs st' = host" if "UpdateShim st k s = Ret st'" for s st'
    using that assms(1) by (auto simp: UpdateShim_def split: outcome.splits)
  ultimately show ?thesis
    using assms(2) unfolding record_shim_def
    by (simp split: outcome.splits bool.splits prod.splits option.splits) blast+
qed

lemma sep_Install:
  assumes "Install cfg s w = (r, w')" "under assets q"
  shows "fs_Blocks root q w' = fs_Blocks root q w"
  using assms(1)
  by (auto simp: Install_def Let_def shim_NewConfig_def split: prod.splits option.splits
    dest!: sep_MkdirAll [OF _ assms(2)] sep_OpenFile [OF _ assms(2)] sep_io_Copy [OF _ assms(2)] root_OpenRead
      sep_record_shim [OF Get_fields [THEN conjunct1] _ assms(2)])

text \<open>The same for \<open>Uninstall\<close>, when the recorded binary is not the lock file itself.\<close>

lemma Uninstall_cases:
  assumes lock: "lock_ok host rcm w" and run: "Uninstall cfg k w = (r, w')"
    and apart: "\<And>x. recorded host rcm w k = Some x
      \<Longrightarrow> \<not> under (lock_path rcm) (Path x) \<and> \<not> under (Path x) (lock_path rcm)"
  obtains (missing) "recorded host rcm w k = None" "w' = w"
      "r = Ret ([], Some (Msg (''shim '' @ k @ '' not installed'')))"
  | (failed) x e where "recorded host rcm w k = Some x" "r = Ret ([], Some e)"
  | (removed) x e where "recorded host rcm w k = Some x" "r = Ret (Path x, None)"
      "recorded host rcm w' = (recorded host rcm w)(k := None)" "lock_ok host rcm w'"
      "fs_ReadFile host (Path x) w' = Inl e" "is_ErrNotExist e"
      "\<And>q. \<not> under q (lock_path rcm) \<Longrightarrow> \<not> under q (Path x) \<Longrightarrow> fs_ReadFile host q w' = fs_ReadFile host q w"
proof -
  obtain st where get: "Get host rcm w = (Some st, None)" and st: "usable st"
    using lock by (auto simp: lock_ok_iff)
  note run' = run [unfolded Uninstall_def shim_NewConfig_def shim_Config.simps get prod.case option.case
    recorded_Get [OF get st]]
  show thesis
  proof (cases "recorded host rcm w k")
    case None
    then show thesis using run' by (intro missing) simp_all
  next
    case (Some x)
    obtain e1 w1 where rm: "fs_Remove host (Path x) w = (e1, w1)" by fastforce
    obtain e2 w2 where wr: "State_Write (RemoveShim st k) w1 = (e2, w2)" by fastforce
    show thesis
    proof (cases "(case e1 of None \<Rightarrow> True | Some e \<Rightarrow> is_ErrNotExist e) \<and> e2 = None")
      case False
      then show thesis using run' Some rm wr
        by (auto split: option.splits if_splits intro: failed [OF Some])
    next
      case True
      then have r: "r = Ret (Path x, None)" "w' = w2" and wr': "State_Write (RemoveShim st k) w1 = (None, w')"
        using run' Some rm wr by (auto split: option.splits if_splits)
      note wrote = Write_recorded [OF RemoveShim_usable [OF st] wr', of rcm, unfolded RemoveShim_simps]
      note fields = Get_fields [OF get]
      obtain e where e: "fs_ReadFile host (Path x) w1 = Inl e" "is_ErrNotExist e"
        using read_Remove [OF rm] True by blast
      have "recorded host rcm w' y = ((recorded host rcm w)(k := None)) y" for y
        using wrote(2) [of y] fields recorded_Get [OF get st, of y]
        by (cases "recorded host rcm w' y"; cases "recorded host rcm w y") (auto simp: RemoveShim_get split: if_splits)
      with wrote(1,3) fields e apart [OF Some] frame_Remove [OF rm] r Some show thesis
        by (intro removed [of x e]) auto
    qed
  qed
qed

end

section \<open>The contract of the component\<close>

text \<open>
  What the node installer relies on: the operations act on a map \<open>reg\<close> from runtime names to
  shims like a map update and a map deletion, and keep its invariant \<open>ok\<close>. \<open>wanted\<close> is the record
  that the asset of a name calls for; installing does not change the assets.
\<close>

locale shim_store =
  fixes ok :: "'w \<Rightarrow> bool"
    and reg :: "'w \<Rightarrow> string \<rightharpoonup> state_Shim"
    and wanted :: "'w \<Rightarrow> string \<rightharpoonup> state_Shim"
    and valid :: "string \<Rightarrow> bool"
    and inst :: "string \<Rightarrow> 'w \<Rightarrow> install_result \<times> 'w"
    and uninst :: "string \<Rightarrow> 'w \<Rightarrow> (path \<times> error option) outcome \<times> 'w"
  assumes inst_no_panic: "valid s \<Longrightarrow> ok w \<Longrightarrow> inst s w = (r, w') \<Longrightarrow> \<exists>p ch e. r = Ret (p, ch, e)"
    and inst_update:
      "valid s \<Longrightarrow> ok w \<Longrightarrow> inst s w = (Ret (p, ch, None), w')
        \<Longrightarrow> ok w' \<and> wanted w' = wanted w \<and> (\<exists>x. wanted w s = Some x \<and> Path x = p
          \<and> reg w' = (reg w)(RuntimeName s \<mapsto> x) \<and> ch = (reg w (RuntimeName s) \<noteq> Some x))"
    and uninst_delete:
      "ok w \<Longrightarrow> uninst k w = (Ret (p, None), w')
        \<Longrightarrow> ok w' \<and> (\<exists>x. reg w k = Some x \<and> Path x = p) \<and> reg w' = (reg w)(k := None)"
    and uninst_missing:
      "ok w \<Longrightarrow> reg w k = None \<Longrightarrow> \<exists>e. uninst k w = (Ret ([], Some e), w)"
begin

lemma inst_then_uninst:
  assumes "valid s" "ok w" "inst s w = (Ret (p, ch, None), w1)"
    and "uninst (RuntimeName s) w1 = (Ret (q, None), w2)"
  shows "q = p \<and> reg w2 = (reg w)(RuntimeName s := None) \<and> ok w2"
proof -
  from inst_update [OF assms(1-3)] obtain x where x: "ok w1" "Path x = p"
    "reg w1 = (reg w)(RuntimeName s \<mapsto> x)" by blast
  from uninst_delete [OF x(1) assms(4)] x show ?thesis by auto
qed

lemma uninst_twice:
  assumes "ok w" "uninst k w = (Ret (p, None), w1)"
  shows "\<exists>e. uninst k w1 = (Ret ([], Some e), w1)"
  using uninst_delete [OF assms] uninst_missing [of w1 k] by simp

end

text \<open>The record that the asset of a shim calls for, if it is the name of a file and the asset can be read.\<close>

definition wanted_shim :: "'w afero \<Rightarrow> path \<Rightarrow> path \<Rightarrow> 'w \<Rightarrow> string \<rightharpoonup> state_Shim" where
  "wanted_shim root assets rcm w s =
     (if file_name s
      then (case fs_Blocks root (asset_path assets s) w of
              (bs, None) \<Rightarrow> Some \<lparr>Sha256 = sha256_Sum (concat bs), Path = bin_path rcm s\<rparr>
            | (_, Some e) \<Rightarrow> None)
      else None)"

lemma wanted_Path: "wanted_shim root assets rcm w s = Some x \<Longrightarrow> Path x = bin_path rcm s"
  by (auto simp: wanted_shim_def split: if_splits prod.splits option.splits)

lemma wanted_cong:
  "(\<And>s. fs_Blocks root (asset_path assets s) w' = fs_Blocks root (asset_path assets s) w)
    \<Longrightarrow> wanted_shim root assets rcm w' = wanted_shim root assets rcm w"
  by (simp add: wanted_shim_def fun_eq_iff)

text \<open>
  The invariant of the host: the lock file is readable and every recorded binary is a file of
  the directory \<open>bin\<close>.
\<close>

definition in_bin :: "path \<Rightarrow> path \<Rightarrow> bool" where
  "in_bin rcm p \<longleftrightarrow> file_name (path_Base p) \<and> p = bin_path rcm (path_Base p)"

definition host_ok :: "'w afero \<Rightarrow> path \<Rightarrow> 'w \<Rightarrow> bool" where
  "host_ok fs rcm w \<longleftrightarrow> lock_ok fs rcm w \<and> (\<forall>x \<in> ran (recorded fs rcm w). in_bin rcm (Path x))"

lemma in_bin_bin_path: "file_name s \<Longrightarrow> in_bin rcm (bin_path rcm s)"
  using path_Base_Join [of s "[rcm, ''bin'']"] by (simp add: in_bin_def bin_path_def)

lemma in_bin_apart: "in_bin rcm p \<Longrightarrow> \<not> under (lock_path rcm) p \<and> \<not> under p (lock_path rcm)"
  by (metis in_bin_def lock_bin_apart(1,2))

lemma ran_upd_subset: "ran (m(k \<mapsto> v)) \<subseteq> insert v (ran m)" "ran (m(k := None)) \<subseteq> ran m"
  by (auto simp: ran_def)

context shim_host
begin

lemma Install_host_ok:
  assumes "shim_file rcm s" "host_ok host rcm w" "Install cfg s w = (Ret (p, ch, None), w')"
  shows "host_ok host rcm w'"
  using assms(1) assms(2) [unfolded host_ok_def, THEN conjunct1] assms(3)
proof (cases rule: Install_cases)
  case (copied h err)
  then show ?thesis
    using assms(1,2) ran_upd_subset(1) in_bin_bin_path [of s rcm]
    by (fastforce simp: host_ok_def shim_file_def)
qed simp

lemma Uninstall_host_ok:
  assumes "host_ok host rcm w" "Uninstall cfg k w = (Ret (p, None), w')"
  shows "host_ok host rcm w' \<and> (\<exists>x. recorded host rcm w k = Some x \<and> Path x = p)
    \<and> recorded host rcm w' = (recorded host rcm w)(k := None)
    \<and> (\<exists>e. fs_ReadFile host p w' = Inl e \<and> is_ErrNotExist e)"
proof -
  have "\<not> under (lock_path rcm) (Path x) \<and> \<not> under (Path x) (lock_path rcm)"
    if "recorded host rcm w k = Some x" for x
    using assms(1) that by (intro in_bin_apart) (auto simp: host_ok_def intro: ranI)
  moreover have "lock_ok host rcm w" using assms(1) by (simp add: host_ok_def)
  ultimately obtain x e where "recorded host rcm w k = Some x" "p = Path x" "lock_ok host rcm w'"
      "recorded host rcm w' = (recorded host rcm w)(k := None)"
      "fs_ReadFile host (Path x) w' = Inl e" "is_ErrNotExist e"
    using Uninstall_cases [OF _ assms(2)] by (metis outcome.inject option.distinct(1) prod.inject)
  then show ?thesis
    using assms(1) ran_upd_subset(2) [of "recorded host rcm w" k] by (auto simp: host_ok_def)
qed

end

sublocale shim_host \<subseteq> store: shim_store "host_ok host rcm" "recorded host rcm" "wanted_shim root assets rcm"
  "shim_file rcm"
  "Install cfg" "Uninstall cfg"
proof
  fix s w r w' assume a: "shim_file rcm s" "host_ok host rcm w" "Install cfg s w = (r, w')"
  have "lock_ok host rcm w" using a(2) by (simp add: host_ok_def)
  from a(1) this a(3) show "\<exists>p ch e. r = Ret (p, ch, e)"
    by (cases rule: Install_cases) blast+
next
  fix s w p ch w' assume a: "shim_file rcm s" "host_ok host rcm w" "Install cfg s w = (Ret (p, ch, None), w')"
  have "lock_ok host rcm w" using a(2) by (simp add: host_ok_def)
  from a(1) this a(3) have "\<exists>x. wanted_shim root assets rcm w s = Some x \<and> Path x = p
      \<and> recorded host rcm w' = (recorded host rcm w)(RuntimeName s \<mapsto> x)
      \<and> ch = (recorded host rcm w (RuntimeName s) \<noteq> Some x)"
  proof (cases rule: Install_cases)
    case (copied h err)
    then show ?thesis
      using a(1) by (intro exI [of _ "\<lparr>Sha256 = sha256_Sum h, Path = bin_path rcm s\<rparr>"]) (auto simp: wanted_shim_def shim_file_def)
  qed auto
  moreover have "wanted_shim root assets rcm w' = wanted_shim root assets rcm w"
    using sep_Install [OF a(3) asset_below] by (auto simp: wanted_shim_def fun_eq_iff)
  ultimately show "host_ok host rcm w' \<and> wanted_shim root assets rcm w' = wanted_shim root assets rcm w
      \<and> (\<exists>x. wanted_shim root assets rcm w s = Some x \<and> Path x = p
      \<and> recorded host rcm w' = (recorded host rcm w)(RuntimeName s \<mapsto> x)
      \<and> ch = (recorded host rcm w (RuntimeName s) \<noteq> Some x))"
    using Install_host_ok [OF a] by blast
next
  fix w k p w' assume "host_ok host rcm w" "Uninstall cfg k w = (Ret (p, None), w')"
  from Uninstall_host_ok [OF this]
  show "host_ok host rcm w' \<and> (\<exists>x. recorded host rcm w k = Some x \<and> Path x = p)
      \<and> recorded host rcm w' = (recorded host rcm w)(k := None)" by blast
next
  fix w k assume "host_ok host rcm w" "recorded host rcm w k = None"
  moreover obtain r w' where "Uninstall cfg k w = (r, w')" by fastforce
  ultimately show "\<exists>e. Uninstall cfg k w = (Ret ([], Some e), w)"
    by (auto simp: host_ok_def elim: Uninstall_cases)
qed

context shim_host
begin

lemma Install_again:
  assumes s: "shim_file rcm s" and lock: "host_ok host rcm w"
    and run1: "Install cfg s w = (Ret (p, c1, None), w1)"
    and run2: "Install cfg s w1 = (Ret (q, c2, None), w2)"
  shows "\<not> c2 \<and> q = p \<and> recorded host rcm w2 = recorded host rcm w1
    \<and> fs_ReadFile host p w2 = fs_ReadFile host p w1"
proof -
  have lock1: "lock_ok host rcm w1" "lock_ok host rcm w"
    using Install_host_ok [OF s lock run1] lock by (simp_all add: host_ok_def)
  have same: "fs_Blocks root (asset_path assets s) w1 = fs_Blocks root (asset_path assets s) w"
    using sep_Install [OF run1 asset_below] s by (simp add: shim_file_def)
  from s lock1(2) run1 show ?thesis
  proof (cases rule: Install_cases)
    case first: (copied h err)
    from s lock1(1) run2 show ?thesis
    proof (cases rule: Install_cases)
      case (copied h' err')
      then have "h' = h" using first same by auto
      then show ?thesis using first copied by auto
    qed simp
  qed simp
qed

lemma Install_then_Uninstall:
  assumes s: "shim_file rcm s" and lock: "host_ok host rcm w"
    and inst: "Install cfg s w = (Ret (p, c, None), w1)"
    and uninst: "Uninstall cfg (RuntimeName s) w1 = (Ret (q, None), w2)"
  shows "q = p \<and> recorded host rcm w2 = (recorded host rcm w)(RuntimeName s := None) \<and> host_ok host rcm w2
    \<and> (\<exists>e. fs_ReadFile host p w2 = Inl e \<and> is_ErrNotExist e)"
  using store.inst_then_uninst [OF s lock inst uninst]
    Uninstall_host_ok [OF Install_host_ok [OF s lock inst] uninst] by blast

end

lemma shim_host_iff: "shim_host host root assets \<longleftrightarrow> installer_fs host root assets"
  by (simp add: shim_host_def)

interpretation rcm_mem: shim_host "on_snd mem_fs" "on_fst mem_fs :: (mem \<times> mem) afero" assets rcm
  for assets rcm
  by (simp add: shim_host_iff installer_mem.installer_fs_axioms)

section \<open>Installing on a healthy host succeeds\<close>

text \<open>
  On the reference file systems, a shim whose asset exists is installed: the run reports
  no error. The host must be writable and have no directory in place of a file or file in
  place of a directory.
\<close>

definition host_ready :: "path \<Rightarrow> string \<Rightarrow> mem \<Rightarrow> bool" where
  "host_ready rcm s m \<longleftrightarrow> \<not> mem_ro m \<and> mem_get (path_Dir (bin_path rcm s)) m = None
     \<and> \<not> mem_isdir (bin_path rcm s) m \<and> \<not> mem_isdir (lock_path rcm) m"

lemma mem_ro_simps [simp]:
  "mem_ro (mem_put p b m) = mem_ro m" "mem_ro (mem_del p m) = mem_ro m"
  by (simp_all add: mem_put_def mem_del_def)

lemma io_Copy_mem:
  "\<not> mem_ro m \<Longrightarrow> mem_get p m = Some c \<Longrightarrow> bs = [b] \<Longrightarrow>
   io_Copy (on_snd mem_fs) p bs None h (r, m) = (None, h @ b, (r, if b = [] then m else mem_put p (c @ b) m))"
  by (simp add: on_snd_def mem_fs_def mem_Write_def)

lemma Dir_bin_apart: "file_name s \<Longrightarrow> canon (path_Dir (bin_path rcm s)) \<noteq> canon (bin_path rcm s)"
  "file_name s \<Longrightarrow> canon (path_Dir (bin_path rcm s)) \<noteq> canon (lock_path rcm)"
  using lock_bin_apart(3,4) [of s rcm] not_under_canon by metis+

lemma record_shim_mem:
  assumes "usable st" "st_fs st = on_snd mem_fs" "lockFilePath st = lock_path rcm"
    and "valid_utf8 k" "valid_utf8 p" "\<not> mem_ro m" "\<not> mem_isdir (lock_path rcm) m"
  shows "\<exists>ch m'. record_shim st k p d err (r, m) = (Ret (p, ch, err), (r, m'))
    \<and> (m' = m \<or> (\<exists>x. m' = mem_put (lock_path rcm) x m))"
proof -
  obtain st' where "UpdateShim st k \<lparr>Sha256 = d, Path = p\<rparr> = Ret st'"
      "st_fs st' = on_snd mem_fs" "lockFilePath st' = lock_path rcm"
    using UpdateShim_usable [OF assms(1,4), of "\<lparr>Sha256 = d, Path = p\<rparr>"] assms(2,3,5) by auto
  moreover from this have "State_Write st' (r, m) = (None, (r, mem_put (lock_path rcm) (State_MarshalIndent st') m))"
    using assms(6,7) by (simp add: State_Write_def on_snd_def mem_fs_def mem_WriteFile_def)
  ultimately show ?thesis
    by (cases "ShimChanged st k d p = Ret True")
       (auto simp: record_shim_def ShimChanged_usable [OF assms(1)])
qed

lemma host_ready_put:
  assumes "file_name s" "host_ready rcm s m" "p = bin_path rcm s \<or> p = lock_path rcm"
  shows "host_ready rcm s (mem_put p b m)"
  using assms Dir_bin_apart [OF assms(1), of rcm] by (auto simp: host_ready_def mem_get_put)

lemma mem_Install_succeeds:
  assumes s: "shim_file rcm s" and lock: "lock_ok (on_snd mem_fs) rcm (r, m)"
    and ready: "host_ready rcm s m" and asset: "mem_get (asset_path assets s) r = Some b"
  shows "\<exists>ch m'. Install (shim_NewConfig (on_fst mem_fs) (on_snd mem_fs) assets rcm) s (r, m)
      = (Ret (bin_path rcm s, ch, None), (r, m')) \<and> host_ready rcm s m'
      \<and> (\<forall>q. mem_isdir q m' \<longleftrightarrow> under q (path_Dir (bin_path rcm s)) \<or> mem_isdir q m)"
proof -
  let ?a = "asset_path assets s" and ?b = "bin_path rcm s"
  have fn: "file_name s" and names: "valid_utf8 (RuntimeName s)" "valid_utf8 ?b" using s by (simp_all add: shim_file_def)
  define m1 where "m1 = m\<lparr>mem_dirs := canon (path_Dir ?b) # mem_dirs m\<rparr>"
  define m2 where "m2 = mem_put ?b [] m1"
  define m3 where "m3 = (if b = [] then m2 else mem_put ?b b m2)"
  have dirs: "mem_isdir q m3 \<longleftrightarrow> under q (path_Dir ?b) \<or> mem_isdir q m" for q
    by (simp add: m1_def m2_def m3_def)
  have ready1: "host_ready rcm s m1" using ready fn by (simp add: host_ready_def m1_def)
  then have ready3: "host_ready rcm s m2" "host_ready rcm s m3"
    using host_ready_put [OF fn] by (auto simp: m2_def m3_def)
  have ops: "fs_OpenFile (on_fst mem_fs) ?a [O_RDONLY] 0 (r, m) = (None, (r, m))"
    "fs_MkdirAll (on_snd mem_fs) (path_Dir ?b) 509 (r, m) = (None, (r, m1))"
    "fs_OpenFile (on_snd mem_fs) ?b [O_RDWR, O_CREATE, O_TRUNC] 493 (r, m1) = (None, (r, m2))"
    "fs_Blocks (on_fst mem_fs) ?a (r, m2) = ([b], None)"
    "io_Copy (on_snd mem_fs) ?b [b] None [] (r, m2) = (None, b, (r, m3))"
    using ready ready1 asset
    by (auto simp: on_fst_def on_snd_def mem_fs_def mem_defs host_ready_def m1_def m2_def m3_def mem_get_put
      split: option.splits)
  obtain st where st: "Get (on_snd mem_fs) rcm (r, m) = (Some st, None)" "usable st"
    using lock by (auto simp: lock_ok_iff)
  have "canon (lock_path rcm) \<noteq> canon ?b" using lock_bin_apart(1) [OF fn] not_under_canon by metis
  then have "Get (on_snd mem_fs) rcm (r, m2) = (Some st, None)"
    using st(1) Get_cong [of "on_snd mem_fs" rcm "(r, m2)" "(r, m)"] lock_bin_apart(3) [OF fn, of rcm]
    by (simp add: on_snd_def mem_fs_def mem_ReadFile_def m2_def m1_def mem_get_put)
  then have "Install (shim_NewConfig (on_fst mem_fs) (on_snd mem_fs) assets rcm) s (r, m)
      = record_shim st (RuntimeName s) ?b (sha256_Sum b) None (r, m3)"
    using ops by (simp add: Install_def Let_def shim_NewConfig_def flip: asset_path_def bin_path_def)
  then show ?thesis
    using record_shim_mem [OF st(2) _ _ names, of rcm m3 "sha256_Sum b" None r] Get_fields [OF st(1)] ready3(2)
      host_ready_put [OF fn ready3(2)] dirs by (auto simp: host_ready_def)
qed

lemma mem_Uninstall_succeeds:
  assumes "lock_ok (on_snd mem_fs) rcm (r, m)" "recorded (on_snd mem_fs) rcm (r, m) k = Some x"
    and "\<not> mem_ro m" "\<not> mem_isdir (Path x) m" "\<not> mem_isdir (lock_path rcm) m"
  shows "\<exists>m'. Uninstall (shim_NewConfig (on_fst mem_fs) (on_snd mem_fs) assets rcm) k (r, m)
    = (Ret (Path x, None), (r, m')) \<and> \<not> mem_ro m' \<and> (\<forall>q. mem_isdir q m' = mem_isdir q m)"
proof -
  obtain st where st: "Get (on_snd mem_fs) rcm (r, m) = (Some st, None)" "usable st"
    using assms(1) by (auto simp: lock_ok_iff)
  obtain e m1 where rm: "fs_Remove (on_snd mem_fs) (Path x) (r, m) = (e, (r, m1))" "e = None \<or> e = Some ErrNotExist"
      "\<not> mem_ro m1" "\<forall>q. mem_isdir q m1 = mem_isdir q m"
    using assms(3-5)
    by (cases "mem_get (Path x) m") (simp_all add: on_snd_def mem_fs_def mem_Remove_def)
  have "\<exists>m'. State_Write (RemoveShim st k) (r, m1) = (None, (r, m')) \<and> \<not> mem_ro m'
      \<and> (\<forall>q. mem_isdir q m' = mem_isdir q m1)"
    using Get_fields [OF st(1)] rm(3,4) assms(5)
    by (simp add: State_Write_def on_snd_def mem_fs_def mem_WriteFile_def)
  then show ?thesis
    using rm(1,2,4) recorded_Get [OF st, of k] assms(2)
    by (auto simp: Uninstall_def shim_NewConfig_def st(1))
qed

section \<open>Properties\<close>

text \<open>
  C1. A successful \<open>Install\<close> leaves a byte-for-byte copy of the asset on the host, records its
  SHA-256 and path in the lock file under the runtime name and no other change, and reports
  "changed" exactly when the lock file said something else before.
\<close>

theorem Install_installs:
  assumes fs: "installer_fs host root assets" and s: "shim_file rcm s" and lock: "lock_ok host rcm w"
    and run: "Install (shim_NewConfig root host assets rcm) s w = (Ret (p, changed, None), w')"
  shows "\<exists>bs content. fs_Blocks root (asset_path assets s) w = (bs, None) \<and> content = concat bs
    \<and> p = bin_path rcm s \<and> fs_ReadFile host p w' = Inr content
    \<and> recorded host rcm w' = (recorded host rcm w)(RuntimeName s \<mapsto> \<lparr>Sha256 = sha256_Sum content, Path = p\<rparr>)
    \<and> (changed \<longleftrightarrow> recorded host rcm w (RuntimeName s) \<noteq> Some \<lparr>Sha256 = sha256_Sum content, Path = p\<rparr>)"
  using fs [folded shim_host_iff] s lock run
  by (cases rule: shim_host.Install_cases) auto

definition demo_world :: "mem \<times> mem" where
  "demo_world =
     (empty_mem\<lparr>mem_files := [(''/assets/containerd-shim-spin-v2'', ''ELF'')]\<rparr>, empty_mem)"

definition demo_cfg :: "(mem \<times> mem) shim_Config" where
  "demo_cfg = shim_NewConfig (on_fst mem_fs) (on_snd mem_fs) ''/assets'' ''/opt/rcm''"

lemma demo_paths:
  "bin_path ''/opt/rcm'' ''containerd-shim-spin-v2'' = ''/opt/rcm/bin/containerd-shim-spin-v2''"
  "asset_path ''/assets'' ''containerd-shim-spin-v2'' = ''/assets/containerd-shim-spin-v2''"
  "canon ''/assets/containerd-shim-spin-v2'' = ''/assets/containerd-shim-spin-v2''"
  "RuntimeName ''containerd-shim-spin-v2'' = ''spin-v2''"
  by code_simp+

lemma demo_shim_file: "shim_file ''/opt/rcm'' ''containerd-shim-spin-v2''"
  by (auto simp: shim_file_def demo_paths file_name_def byte_in_def intro!: ascii_valid_utf8)

lemma demo_world_ok:
  "lock_ok (on_snd mem_fs) ''/opt/rcm'' demo_world" "host_ok (on_snd mem_fs) ''/opt/rcm'' demo_world"
  "host_ready ''/opt/rcm'' ''containerd-shim-spin-v2'' (snd demo_world)"
  "mem_get (asset_path ''/assets'' ''containerd-shim-spin-v2'') (fst demo_world) = Some ''ELF''"
proof -
  have get: "Get (on_snd mem_fs) ''/opt/rcm'' demo_world = (Some (new_State (on_snd mem_fs) ''/opt/rcm''), None)"
    by (simp add: Get_def Let_def on_snd_def mem_fs_def mem_ReadFile_def mem_get_def mem_isdir_def demo_world_def
      empty_mem_def)
  then show "lock_ok (on_snd mem_fs) ''/opt/rcm'' demo_world" by (simp add: lock_ok_def)
  moreover have "recorded (on_snd mem_fs) ''/opt/rcm'' demo_world = Map.empty"
    by (simp add: recorded_def get new_State_def map_get_def fun_eq_iff)
  ultimately show "host_ok (on_snd mem_fs) ''/opt/rcm'' demo_world" by (simp add: host_ok_def)
qed (simp_all add: host_ready_def mem_get_def mem_isdir_def demo_world_def empty_mem_def demo_paths)

lemma demo_Install:
  "\<exists>ch m'. Install demo_cfg ''containerd-shim-spin-v2'' demo_world
     = (Ret (bin_path ''/opt/rcm'' ''containerd-shim-spin-v2'', ch, None), (fst demo_world, m'))
     \<and> host_ready ''/opt/rcm'' ''containerd-shim-spin-v2'' m'"
  using mem_Install_succeeds [OF demo_shim_file _ demo_world_ok(3,4)] demo_world_ok(1)
  by (auto simp: demo_cfg_def)

theorem Install_installs_witness:
  "\<exists>changed w'. Install demo_cfg ''containerd-shim-spin-v2'' demo_world
       = (Ret (''/opt/rcm/bin/containerd-shim-spin-v2'', changed, None), w')
     \<and> fs_ReadFile (on_snd mem_fs) ''/opt/rcm/bin/containerd-shim-spin-v2'' w' = Inr ''ELF''
     \<and> recorded (on_snd mem_fs) ''/opt/rcm'' w' ''spin-v2''
         = Some \<lparr>Sha256 = sha256_Sum ''ELF'', Path = ''/opt/rcm/bin/containerd-shim-spin-v2''\<rparr>"
proof -
  from demo_Install obtain ch m' where run: "Install demo_cfg ''containerd-shim-spin-v2'' demo_world
     = (Ret (bin_path ''/opt/rcm'' ''containerd-shim-spin-v2'', ch, None), (fst demo_world, m'))" by blast
  have "fs_Blocks (on_fst mem_fs) (asset_path ''/assets'' ''containerd-shim-spin-v2'') demo_world = ([''ELF''], None)"
    using demo_world_ok(4) by (simp add: on_fst_def mem_fs_def mem_Blocks_def mem_ReadFile_def)
  with Install_installs [OF installer_mem.installer_fs_axioms demo_shim_file demo_world_ok(1) run [unfolded demo_cfg_def]]
  show ?thesis using run by (simp add: demo_paths)
qed

text \<open>
  Installing the same asset again is idempotent: the second run reports "unchanged" and
  leaves the record and the binary as the first run left them.
\<close>

lemma Install_idempotent:
  assumes fs: "installer_fs host root assets" and s: "shim_file rcm s" and lock: "host_ok host rcm w"
    and run1: "Install (shim_NewConfig root host assets rcm) s w = (Ret (p, c1, None), w1)"
    and run2: "Install (shim_NewConfig root host assets rcm) s w1 = (Ret (q, c2, None), w2)"
  shows "\<not> c2 \<and> q = p \<and> recorded host rcm w2 = recorded host rcm w1
    \<and> fs_ReadFile host p w2 = fs_ReadFile host p w1"
  by (rule shim_host.Install_again [OF fs [folded shim_host_iff] s lock run1 run2])

lemma Install_idempotent_witness:
  "\<exists>p c1 w1 c2 w2. Install demo_cfg ''containerd-shim-spin-v2'' demo_world = (Ret (p, c1, None), w1)
     \<and> Install demo_cfg ''containerd-shim-spin-v2'' w1 = (Ret (p, c2, None), w2) \<and> \<not> c2"
proof -
  let ?s = "''containerd-shim-spin-v2''"
  from demo_Install obtain c1 m1 where
    run1: "Install demo_cfg ?s demo_world = (Ret (bin_path ''/opt/rcm'' ?s, c1, None), (fst demo_world, m1))"
    and ready: "host_ready ''/opt/rcm'' ?s m1" by blast
  have "lock_ok (on_snd mem_fs) ''/opt/rcm'' (fst demo_world, m1)"
    using rcm_mem.Install_host_ok [OF demo_shim_file demo_world_ok(2) run1 [unfolded demo_cfg_def]]
    by (simp add: host_ok_def)
  from mem_Install_succeeds [OF demo_shim_file this ready demo_world_ok(4)] obtain c2 m2 where
    run2: "Install demo_cfg ?s (fst demo_world, m1) = (Ret (bin_path ''/opt/rcm'' ?s, c2, None), (fst demo_world, m2))"
    unfolding demo_cfg_def by blast
  from Install_idempotent [OF installer_mem.installer_fs_axioms demo_shim_file demo_world_ok(2)
    run1 [unfolded demo_cfg_def] run2 [unfolded demo_cfg_def]] run1 run2
  show ?thesis by blast
qed

text \<open>
  C4. Uninstalling undoes installing: after a successful \<open>Install\<close>, a successful
  \<open>Uninstall\<close> of the runtime name returns the same path, the binary is gone, and the lock file
  records what it recorded before except for that name; the invariant of the host is kept.
\<close>

theorem Install_Uninstall:
  assumes fs: "installer_fs host root assets" and s: "shim_file rcm s" and lock: "host_ok host rcm w"
    and inst: "Install (shim_NewConfig root host assets rcm) s w = (Ret (p, c, None), w1)"
    and uninst: "Uninstall (shim_NewConfig root host assets rcm) (RuntimeName s) w1 = (Ret (q, None), w2)"
  shows "q = p \<and> recorded host rcm w2 = (recorded host rcm w)(RuntimeName s := None) \<and> host_ok host rcm w2
    \<and> (\<exists>e. fs_ReadFile host p w2 = Inl e \<and> is_ErrNotExist e)"
  by (rule shim_host.Install_then_Uninstall [OF fs [folded shim_host_iff] s lock inst uninst])

theorem Install_Uninstall_witness:
  "\<exists>p c w1 w2. Install demo_cfg ''containerd-shim-spin-v2'' demo_world = (Ret (p, c, None), w1)
     \<and> Uninstall demo_cfg ''spin-v2'' w1 = (Ret (p, None), w2)
     \<and> recorded (on_snd mem_fs) ''/opt/rcm'' w2 ''spin-v2'' = None
     \<and> (\<exists>e. fs_ReadFile (on_snd mem_fs) p w2 = Inl e)"
proof -
  let ?s = "''containerd-shim-spin-v2''"
  from demo_Install obtain c m1 where
    run1: "Install demo_cfg ?s demo_world = (Ret (bin_path ''/opt/rcm'' ?s, c, None), (fst demo_world, m1))"
    and ready: "host_ready ''/opt/rcm'' ?s m1" by blast
  note run1' = run1 [unfolded demo_cfg_def]
  have ok1: "host_ok (on_snd mem_fs) ''/opt/rcm'' (fst demo_world, m1)"
    by (rule rcm_mem.Install_host_ok [OF demo_shim_file demo_world_ok(2) run1'])
  obtain x where x: "Path x = bin_path ''/opt/rcm'' ?s"
    "recorded (on_snd mem_fs) ''/opt/rcm'' (fst demo_world, m1) (RuntimeName ?s) = Some x"
    using rcm_mem.store.inst_update [OF demo_shim_file demo_world_ok(2) run1'] by (metis fun_upd_same)
  have side: "lock_ok (on_snd mem_fs) ''/opt/rcm'' (fst demo_world, m1)" "\<not> mem_ro m1" "\<not> mem_isdir (Path x) m1"
      "\<not> mem_isdir (lock_path ''/opt/rcm'') m1"
    using ok1 ready x(1) by (simp_all add: host_ok_def host_ready_def)
  from mem_Uninstall_succeeds [OF side(1) x(2) side(2-4)] obtain m2 where run2: "Uninstall demo_cfg (RuntimeName ?s) (fst demo_world, m1)
      = (Ret (bin_path ''/opt/rcm'' ?s, None), (fst demo_world, m2))"
    unfolding demo_cfg_def x(1) by blast
  from Install_Uninstall [OF installer_mem.installer_fs_axioms demo_shim_file demo_world_ok(2) run1'
    run2 [unfolded demo_cfg_def]] run1 run2
  show ?thesis by (auto simp: demo_paths)
qed

text \<open>
  The lock file is read after the binary has been opened with \<open>O_TRUNC\<close>. \<open>opened\<close> says that
  \<open>Install\<close> reaches that point, in the file system \<open>w3\<close>.
\<close>

definition opened :: "'w afero \<Rightarrow> 'w afero \<Rightarrow> path \<Rightarrow> path \<Rightarrow> string \<Rightarrow> 'w \<Rightarrow> 'w \<Rightarrow> bool" where
  "opened host root rcm assets s w w3 \<longleftrightarrow>
     (case fs_OpenFile root (asset_path assets s) [O_RDONLY] 0 w of (e1, w1) \<Rightarrow>
      case fs_MkdirAll host (path_Dir (bin_path rcm s)) 509 w1 of (e2, w2) \<Rightarrow>
        e1 = None \<and> e2 = None
        \<and> fs_OpenFile host (bin_path rcm s) [O_RDWR, O_CREATE, O_TRUNC] 493 w2 = (None, w3))"

context shim_host
begin

lemma opened_facts:
  assumes "file_name s" "opened host root rcm assets s w w3"
  shows "Get host rcm w3 = Get host rcm w" "fs_ReadFile host (bin_path rcm s) w3 = Inr []"
proof -
  obtain w2 where mk: "fs_MkdirAll host (path_Dir (bin_path rcm s)) 509 w = (None, w2)"
    and trunc: "fs_OpenFile host (bin_path rcm s) [O_RDWR, O_CREATE, O_TRUNC] 493 w2 = (None, w3)"
    using assms(2) by (auto simp: opened_def split: prod.splits dest: root_OpenRead)
  show "fs_ReadFile host (bin_path rcm s) w3 = Inr []" by (rule read_OpenTrunc [OF trunc])
  show "Get host rcm w3 = Get host rcm w"
    using frame_OpenFile [OF trunc lock_bin_apart(1)] frame_MkdirAll [OF mk lock_bin_apart(3)] assms(1)
    by (intro Get_cong) simp
qed

end

text \<open>
  C33. When the lock file cannot be read or parsed, \<open>Install\<close> fails with that error after it has
  emptied the binary: a shim that was installed and working is left as an empty file.
\<close>

theorem Install_truncates_on_lock_error:
  assumes fs: "installer_fs host root assets" and s: "file_name s" and lock: "Get host rcm w = (st, Some e)"
    and opn: "opened host root rcm assets s w w3"
  shows "Install (shim_NewConfig root host assets rcm) s w = (Ret ([], False, Some e), w3)
    \<and> fs_ReadFile host (bin_path rcm s) w3 = Inr []"
  using shim_host.opened_facts [OF fs [folded shim_host_iff] s opn] lock opn
  by (cases st) (auto simp: Install_def shim_NewConfig_def opened_def Let_def split: prod.splits
    simp flip: asset_path_def bin_path_def)

definition corrupt_world :: "mem \<times> mem" where
  "corrupt_world = (fst demo_world,
     empty_mem\<lparr>mem_files := [(''/opt/rcm/rcm-lock.json'', ''broken''),
                        (''/opt/rcm/bin/containerd-shim-spin-v2'', ''ELF'')]\<rparr>)"

lemma canon_demo:
  "canon ''/opt/rcm/bin/containerd-shim-spin-v2'' = ''/opt/rcm/bin/containerd-shim-spin-v2''"
  "canon ''/opt/rcm/bin'' = ''/opt/rcm/bin''" "path_Dir ''/opt/rcm/bin/containerd-shim-spin-v2'' = ''/opt/rcm/bin''"
  "lock_path ''/opt/rcm'' = ''/opt/rcm/rcm-lock.json''" "canon ''/opt/rcm/rcm-lock.json'' = ''/opt/rcm/rcm-lock.json''"
  "under ''/opt/rcm/bin/containerd-shim-spin-v2'' ''/opt/rcm/bin'' = False"
  by code_simp+

lemma corrupt_opened:
  "\<exists>w3. opened (on_snd mem_fs) (on_fst mem_fs) ''/opt/rcm'' ''/assets'' ''containerd-shim-spin-v2'' corrupt_world w3"
  by (simp add: opened_def corrupt_world_def demo_world_def demo_paths canon_demo on_snd_def on_fst_def mem_fs_def
    mem_defs mem_get_def mem_isdir_def empty_mem_def)

lemma corrupt_Get:
  "\<exists>st e. Get (on_snd mem_fs) ''/opt/rcm'' corrupt_world = (st, Some e)"
proof -
  have "json_parse ''broken'' = None" by code_simp
  then show ?thesis
    by (simp add: Get_def new_State_def Let_def canon_demo corrupt_world_def on_snd_def mem_fs_def mem_defs
      mem_get_def empty_mem_def State_Unmarshal_def flip: lock_path_def)
qed

theorem Install_truncates_on_lock_error_witness:
  "fs_ReadFile (on_snd mem_fs) ''/opt/rcm/bin/containerd-shim-spin-v2'' corrupt_world = Inr ''ELF''
   \<and> (\<exists>e w3. Install demo_cfg ''containerd-shim-spin-v2'' corrupt_world = (Ret ([], False, Some e), w3)
       \<and> fs_ReadFile (on_snd mem_fs) ''/opt/rcm/bin/containerd-shim-spin-v2'' w3 = Inr [])"
proof -
  obtain w3 st e where *: "opened (on_snd mem_fs) (on_fst mem_fs) ''/opt/rcm'' ''/assets'' ''containerd-shim-spin-v2''
      corrupt_world w3" "Get (on_snd mem_fs) ''/opt/rcm'' corrupt_world = (st, Some e)"
    using corrupt_opened corrupt_Get by blast
  have "file_name ''containerd-shim-spin-v2''" using demo_shim_file by (simp add: shim_file_def)
  from Install_truncates_on_lock_error [OF installer_mem.installer_fs_axioms this *(2,1)] show ?thesis
    by (simp add: demo_cfg_def demo_paths)
       (simp add: corrupt_world_def demo_world_def canon_demo on_snd_def mem_fs_def mem_defs mem_get_def empty_mem_def)
qed

text \<open>
  A lock file whose \<open>shims\<close> is null, which \<open>Get\<close> accepts without an error, makes
  \<open>Install\<close> panic: the record is written to a nil map, after the binary has been copied.
\<close>

lemma Install_panics_on_nil_map:
  assumes fs: "installer_fs host root assets" and s: "file_name s"
    and lock: "Get host rcm w = (Some st, None)" "Shims st = None"
    and opn: "opened host root rcm assets s w w3"
  shows "\<exists>w'. Install (shim_NewConfig root host assets rcm) s w = (Panic ''assignment to entry in nil map'', w')"
  using shim_host.opened_facts(1) [OF fs [folded shim_host_iff] s opn] lock opn
  by (auto simp: Install_def shim_NewConfig_def opened_def Let_def record_shim_def ShimChanged_def UpdateShim_def
    map_set_def split: prod.splits simp flip: asset_path_def bin_path_def)

definition null_world :: "mem \<times> mem" where
  "null_world = (fst demo_world,
     empty_mem\<lparr>mem_files := [(''/opt/rcm/rcm-lock.json'',
       CHR 0x7B # CHR 0x22 # ''shims'' @ CHR 0x22 # '':null'' @ [CHR 0x7D])]\<rparr>)"

lemma null_opened:
  "\<exists>w3. opened (on_snd mem_fs) (on_fst mem_fs) ''/opt/rcm'' ''/assets'' ''containerd-shim-spin-v2'' null_world w3"
  by (simp add: opened_def null_world_def demo_world_def demo_paths canon_demo on_snd_def on_fst_def mem_fs_def
    mem_defs mem_get_def mem_isdir_def empty_mem_def)

lemma null_Get:
  "\<exists>st. Get (on_snd mem_fs) ''/opt/rcm'' null_world = (Some st, None) \<and> Shims st = None"
proof -
  have "json_parse (CHR 0x7B # CHR 0x22 # ''shims'' @ CHR 0x22 # '':null'' @ [CHR 0x7D]) = Some (JObj [(''shims'', JNull)])"
    by code_simp
  then show ?thesis
    by (simp add: Get_def new_State_def Let_def canon_demo null_world_def on_snd_def mem_fs_def mem_defs
      mem_get_def empty_mem_def State_Unmarshal_def del: fold_name.simps flip: lock_path_def)
qed

lemma Install_panics_on_nil_map_example:
  "\<exists>w'. Install demo_cfg ''containerd-shim-spin-v2'' null_world = (Panic ''assignment to entry in nil map'', w')"
proof -
  obtain w3 st where *: "opened (on_snd mem_fs) (on_fst mem_fs) ''/opt/rcm'' ''/assets'' ''containerd-shim-spin-v2''
      null_world w3" "Get (on_snd mem_fs) ''/opt/rcm'' null_world = (Some st, None)" "Shims st = None"
    using null_opened null_Get by blast
  have "file_name ''containerd-shim-spin-v2''" using demo_shim_file by (simp add: shim_file_def)
  from Install_panics_on_nil_map [OF installer_mem.installer_fs_axioms this *(2,3,1)] show ?thesis
    by (simp add: demo_cfg_def)
qed

end
