(* ===== verification/Containerd_Config.thy ===== *)
theory Containerd_Config
  imports Shim_Install
begin

text \<open>
  \<open>internal/containerd/configure.go\<close>: adding a runtime to containerd's \<open>config.toml\<close> and
  removing it again, by appending and replacing text. The abstract state is the text of the
  file. The main results are that removal undoes addition, also when other runtimes have been
  added in between, and two cases in which the text search misses its purpose.
\<close>

section \<open>The configuration\<close>

text \<open>
  The restarter is an interface of the package: a call that may change the world and returns an
  error. \<open>runtimeOptions\<close> is a Go map; \<open>range\<close> visits its entries in an order that differs from
  call to call, which is a parameter \<open>order\<close> of the operations (\<open>iterates\<close>).
\<close>

record 'w containerd_Config =
  c_hostFs :: "'w afero"
  configPath :: path
  restarter :: "'w \<Rightarrow> error option \<times> 'w"
  runtimeOptions :: "string gomap"

definition containerd_NewConfig ::
    "'w afero \<Rightarrow> path \<Rightarrow> ('w \<Rightarrow> error option \<times> 'w) \<Rightarrow> string gomap \<Rightarrow> 'w containerd_Config" where
  "containerd_NewConfig host p r opts =
     \<lparr>c_hostFs = host, configPath = p, restarter = r, runtimeOptions = opts\<rparr>"

definition iterates :: "'a gomap \<Rightarrow> (string \<times> 'a) list \<Rightarrow> bool" where
  "iterates m order \<longleftrightarrow> distinct (map fst order) \<and> set order = set (entries m)"

section \<open>The text of a runtime\<close>

definition domain_of :: "bytes \<Rightarrow> string" where
  "domain_of configData =
     (if Contains configData ''version = 3'' then ''io.containerd.cri.v1.runtime''
      else ''io.containerd.grpc.v1.cri'')"

definition section_header :: "string \<Rightarrow> string \<Rightarrow> string" where
  "section_header domain runtimeName =
     ''[plugins.'' @ [CHR 0x22] @ domain @ [CHR 0x22] @ ''.containerd.runtimes.'' @ runtimeName"

definition runtime_options :: "string \<Rightarrow> string \<Rightarrow> (string \<times> string) list \<Rightarrow> string" where
  "runtime_options domain runtimeName opts =
     section_header domain runtimeName @ ''.options]''
     @ concat (map (\<lambda>(k, v). [CHR 0x0A] @ k @ '' = '' @ v) opts)"

definition generateConfig :: "path \<Rightarrow> string \<Rightarrow> (string \<times> string) list \<Rightarrow> bytes \<Rightarrow> string" where
  "generateConfig shimPath runtimeName opts configData =
     (let domain = domain_of configData in
      [CHR 0x0A] @ ''# RCM runtime config for '' @ runtimeName @ [CHR 0x0A]
      @ section_header domain runtimeName @ '']'' @ [CHR 0x0A]
      @ ''runtime_type = '' @ [CHR 0x22] @ shimPath @ [CHR 0x22] @ [CHR 0x0A]
      @ (if opts \<noteq> [] then runtime_options domain runtimeName opts else []))"

section \<open>The operations\<close>

definition runtime_of :: "path \<Rightarrow> string" where
  "runtime_of shimPath = RuntimeName (path_Base shimPath)"

definition AddRuntime :: "'w containerd_Config \<Rightarrow> (string \<times> string) list \<Rightarrow> path \<Rightarrow> 'w \<Rightarrow> error option \<times> 'w" where
  "AddRuntime c order shimPath w =
     (let runtimeName = runtime_of shimPath in
      case fs_ReadFile (c_hostFs c) (configPath c) w of
        Inl err \<Rightarrow> (Some err, w)
      | Inr data \<Rightarrow>
          if Contains data runtimeName then (None, w)
          else
            let cfg = generateConfig shimPath runtimeName order data in
            (case fs_OpenFile (c_hostFs c) (configPath c) [O_APPEND, O_WRONLY] 420 w of
               (Some err, w1) \<Rightarrow> (Some err, w1)
             | (None, w1) \<Rightarrow>
                 (case fs_Write (c_hostFs c) (configPath c) cfg w1 of
                    ((_, err), w2) \<Rightarrow> (err, snd (fs_Close (c_hostFs c) (configPath c) w2)))))"

definition RemoveRuntime :: "'w containerd_Config \<Rightarrow> (string \<times> string) list \<Rightarrow> path \<Rightarrow> 'w
    \<Rightarrow> (bool \<times> error option) \<times> 'w" where
  "RemoveRuntime c order shimPath w =
     (let runtimeName = runtime_of shimPath in
      case fs_ReadFile (c_hostFs c) (configPath c) w of
        Inl err \<Rightarrow> ((False, Some err), w)
      | Inr data \<Rightarrow>
          if \<not> Contains data runtimeName then ((False, None), w)
          else
            let cfg = generateConfig shimPath runtimeName order data;
                modifiedData = ReplaceAll data cfg []
            in (case fs_WriteFile (c_hostFs c) (configPath c) modifiedData 420 w of
                  (Some err, w1) \<Rightarrow> ((False, Some err), w1)
                | (None, w1) \<Rightarrow> ((True, None), w1)))"

definition RestartRuntime :: "'w containerd_Config \<Rightarrow> 'w \<Rightarrow> error option \<times> 'w" where
  "RestartRuntime c w = restarter c w"

section \<open>Facts about the text\<close>

definition banner :: "string \<Rightarrow> string" where
  "banner runtimeName = CHR 0x0A # ''# RCM runtime config for '' @ runtimeName"

lemma generateConfig_banner: "\<exists>t. generateConfig p n opts d = banner n @ CHR 0x0A # t"
  by (simp add: generateConfig_def banner_def Let_def)

lemma generateConfig_not_Nil [simp]: "generateConfig p n opts d \<noteq> []"
  by (simp add: generateConfig_def Let_def)

lemma generateConfig_Contains: "Contains (generateConfig p n opts d) n"
proof -
  obtain t where "generateConfig p n opts d = (CHR 0x0A # ''# RCM runtime config for '') @ n @ CHR 0x0A # t"
    using generateConfig_banner [of p n opts d] by (auto simp: banner_def)
  then show ?thesis by (simp only: ContainsI)
qed

lemma generateConfig_cong: "domain_of d = domain_of d' \<Longrightarrow> generateConfig p n opts d = generateConfig p n opts d'"
  by (simp add: generateConfig_def)

text \<open>
  Appending a runtime does not change the domain, because the text starts with a newline.
\<close>

lemma domain_of_append:
  assumes "\<not> Contains (generateConfig p n opts d') ''version = 3''"
  shows "domain_of (d @ generateConfig p n opts d') = domain_of d"
proof -
  obtain u where u: "generateConfig p n opts d' = CHR 0x0A # u"
    by (simp add: generateConfig_def Let_def)
  have "\<not> Contains u ''version = 3''" using assms u Contains_append2 [of u _ "[CHR 0x0A]"] by auto
  then show "domain_of (d @ generateConfig p n opts d') = domain_of d"
    by (simp add: domain_of_def u Contains_border)
qed

text \<open>
  The banner of a runtime whose name does not occur in \<open>d\<close> starts at no position of \<open>d\<close>, even
  if it may run over its end, provided that what follows \<open>d\<close> is another line.
\<close>

lemma banner_not_before:
  assumes n: "CHR 0x0A \<notin> set n" and d: "\<not> Contains (a @ b) n" "b \<noteq> []"
  shows "\<not> prefix (banner n @ u) (b @ CHR 0x0A # t)"
proof
  assume "prefix (banner n @ u) (b @ CHR 0x0A # t)"
  then obtain v where v: "b @ CHR 0x0A # t = banner n @ v"
    by (auto simp: prefix_def)
  obtain c b' where b: "b = c # b'" using d(2) by (cases b) auto
  define A where "A = ''# RCM runtime config for ''"
  have nl: "CHR 0x0A \<notin> set (A @ n)" using n by (simp add: A_def)
  have "(A @ n) @ v = b' @ CHR 0x0A # t"
    using v by (simp add: b banner_def A_def)
  then obtain z where z: "A @ n = b' @ z \<and> z @ v = CHR 0x0A # t \<or> (A @ n) @ z = b' \<and> v = z @ CHR 0x0A # t"
    using append_eq_append_conv2 [of "A @ n" v b' "CHR 0x0A # t"] by blast
  have in_b: "b' \<noteq> (A @ n) @ y" for y
  proof
    assume "b' = (A @ n) @ y"
    then have "a @ b = (a @ c # A) @ n @ y" by (simp add: b)
    with d(1) show False using ContainsI by metis
  qed
  then have "A @ n = b' @ z" "z @ v = CHR 0x0A # t" "z \<noteq> []" using z in_b [of "[]"] by auto
  then have "CHR 0x0A \<in> set z" by (cases z) auto
  with \<open>A @ n = b' @ z\<close> nl show False by (metis UnCI set_append)
qed

text \<open>Replacing the text of a runtime that occurs once removes exactly that text.\<close>

lemma ReplaceAll_once:
  assumes n: "CHR 0x0A \<notin> set n" and d: "\<not> Contains d n" and t: "\<not> Contains t n"
    and cfg: "cfg = generateConfig p n opts x"
  shows "ReplaceAll (d @ cfg @ t) cfg [] = d @ t"
proof -
  obtain u where u: "cfg = banner n @ CHR 0x0A # u" using generateConfig_banner cfg by metis
  have nl: "cfg = CHR 0x0A # tl cfg" by (simp add: u banner_def)
  have "replace_from (d @ cfg @ t) cfg [] = d @ replace_from (cfg @ t) cfg []"
  proof (rule replace_from_skip)
    fix a b assume "d = a @ b" "b \<noteq> []"
    with d banner_not_before [OF n, of a b "CHR 0x0A # u" "tl cfg @ t"] show "\<not> prefix cfg (b @ cfg @ t)"
      using nl u by (metis append_Cons)
  qed
  moreover have "replace_from (cfg @ t) cfg [] = ReplaceAll t cfg []"
    using cfg by (simp add: replace_from_hit ReplaceAll_def)
  moreover have "\<not> Contains t cfg" using t generateConfig_Contains cfg Contains_trans by blast
  ultimately show ?thesis using cfg by (simp add: ReplaceAll_absent) (simp add: ReplaceAll_def)
qed

section \<open>The operations on the text\<close>

text \<open>
  The specification of the component: pure functions on the text of the file, which the
  operations implement.
\<close>

definition add_text :: "(string \<times> string) list \<Rightarrow> path \<Rightarrow> bytes \<Rightarrow> bytes" where
  "add_text order p d =
     (if Contains d (runtime_of p) then d else d @ generateConfig p (runtime_of p) order d)"

definition remove_text :: "(string \<times> string) list \<Rightarrow> path \<Rightarrow> bytes \<Rightarrow> bytes" where
  "remove_text order p d = ReplaceAll d (generateConfig p (runtime_of p) order d) []"

lemma add_text_Contains: "Contains (add_text order p d) (runtime_of p)"
  using generateConfig_Contains [of p "runtime_of p" order d] by (simp add: add_text_def Contains_append2)

lemma add_text_idem [simp]: "add_text order' p (add_text order p d) = add_text order p d"
  using add_text_Contains [of order p d] by (simp add: add_text_def [of order'])

lemma remove_text_absent:
  "\<not> Contains d (runtime_of p) \<Longrightarrow> remove_text order p d = d"
  unfolding remove_text_def
  by (rule ReplaceAll_absent [OF generateConfig_not_Nil])
     (blast intro: Contains_trans generateConfig_Contains)

text \<open>
  What a removal does to a file, depending on whether the file has the section of the runtime as the removal would
  write it: it is taken out where it stands, or the file is not changed.
\<close>

lemma remove_text_cases:
  assumes "sec = generateConfig p (runtime_of p) order d"
  shows "\<not> Contains d sec \<Longrightarrow> remove_text order p d = d"
    "CHR 0x0A \<notin> set (runtime_of p) \<Longrightarrow> d = pre @ sec @ post \<Longrightarrow> \<not> Contains pre (runtime_of p) \<Longrightarrow> \<not> Contains post (runtime_of p)
      \<Longrightarrow> remove_text order p d = pre @ post"
  using ReplaceAll_absent [OF generateConfig_not_Nil] ReplaceAll_once [of "runtime_of p" pre post sec p order d] assms
  by (simp_all add: remove_text_def)

text \<open>
  What the text of a runtime must satisfy for its removal: the name is one line and the text
  does not contain the marker of the other configuration version.
\<close>

definition clean_runtime :: "(string \<times> string) list \<Rightarrow> path \<Rightarrow> bytes \<Rightarrow> bool" where
  "clean_runtime order p d \<longleftrightarrow> CHR 0x0A \<notin> set (runtime_of p)
     \<and> \<not> Contains (generateConfig p (runtime_of p) order d) ''version = 3''"

lemma remove_add_text:
  assumes "clean_runtime order p d" "\<not> Contains d (runtime_of p)"
  shows "remove_text order p (add_text order p d) = d"
proof -
  let ?cfg = "generateConfig p (runtime_of p) order d"
  have "domain_of (d @ ?cfg) = domain_of d"
    using assms(1) by (intro domain_of_append) (simp add: clean_runtime_def)
  then have "generateConfig p (runtime_of p) order (d @ ?cfg) = ?cfg" by (rule generateConfig_cong)
  moreover have "ReplaceAll (d @ ?cfg @ []) ?cfg [] = d @ []"
    using assms Contains_append2 [of "[]" "runtime_of p" d]
    by (intro ReplaceAll_once) (auto simp: clean_runtime_def)
  ultimately show ?thesis using assms(2) by (simp add: add_text_def remove_text_def)
qed

text \<open>Two runtimes: the removal of the first one leaves the second one in place.\<close>

lemma remove_first_text:
  assumes p: "clean_runtime order p d" "\<not> Contains d (runtime_of p)"
    and q: "clean_runtime order q d" "\<not> Contains (add_text order p d) (runtime_of q)"
    and pq: "\<not> Contains (generateConfig q (runtime_of q) order d) (runtime_of p)"
  shows "remove_text order p (add_text order q (add_text order p d)) = add_text order q d"
proof -
  let ?p = "generateConfig p (runtime_of p) order d" and ?q = "generateConfig q (runtime_of q) order d"
  have dp: "domain_of (d @ ?p) = domain_of d"
    using p(1) by (intro domain_of_append) (simp add: clean_runtime_def)
  have "domain_of ((d @ ?p) @ ?q) = domain_of (d @ ?p)"
    using q(1) by (intro domain_of_append) (simp add: clean_runtime_def)
  then have dpq: "generateConfig p (runtime_of p) order (d @ ?p @ ?q) = ?p"
    using dp by (intro generateConfig_cong) simp
  have add_p: "add_text order p d = d @ ?p" using p(2) by (simp add: add_text_def)
  then have nq: "\<not> Contains d (runtime_of q)" using q(2) Contains_append1 by auto
  have "add_text order q (d @ ?p) = d @ ?p @ ?q"
    using q(2) add_p generateConfig_cong [OF dp, of q] by (simp add: add_text_def)
  moreover have "ReplaceAll (d @ ?p @ ?q) ?p [] = d @ ?q"
    using p pq by (intro ReplaceAll_once) (auto simp: clean_runtime_def)
  ultimately show ?thesis using nq dpq add_p by (simp add: add_text_def [of order q d] remove_text_def)
qed

section \<open>The contract\<close>

locale runtime_config =
  fixes content :: "'w \<Rightarrow> bytes option"
    and add_t rem_t :: "path \<Rightarrow> bytes \<Rightarrow> bytes"
    and add :: "path \<Rightarrow> 'w \<Rightarrow> error option \<times> 'w"
    and rem :: "path \<Rightarrow> 'w \<Rightarrow> (bool \<times> error option) \<times> 'w"
  assumes add_refines: "add p w = (None, w') \<Longrightarrow> \<exists>d. content w = Some d \<and> content w' = Some (add_t p d)"
    and rem_refines: "rem p w = ((ch, None), w') \<Longrightarrow> \<exists>d. content w = Some d \<and> content w' = Some (rem_t p d)"
    and add_missing: "content w = None \<Longrightarrow> \<exists>e. add p w = (Some e, w)"
    and rem_missing: "content w = None \<Longrightarrow> \<exists>e. rem p w = ((False, Some e), w)"
    and add_t_idem: "add_t p (add_t p d) = add_t p d"
begin

lemma add_twice:
  assumes "add p w = (None, w1)" "add p w1 = (None, w2)"
  shows "content w2 = content w1"
  using add_refines [OF assms(1)] add_refines [OF assms(2)] add_t_idem by auto

lemma add_rem:
  assumes "add p w = (None, w1)" "rem p w1 = ((ch, None), w2)" "content w = Some d"
    and "rem_t p (add_t p d) = d"
  shows "content w2 = content w"
  using add_refines [OF assms(1)] rem_refines [OF assms(2)] assms(3,4) by auto

lemma add_add_rem:
  assumes "add p w = (None, w1)" "add q w1 = (None, w2)" "rem p w2 = ((ch, None), w3)" "content w = Some d"
    and "rem_t p (add_t q (add_t p d)) = add_t q d"
  shows "content w3 = Some (add_t q d)"
  using add_refines [OF assms(1)] add_refines [OF assms(2)] rem_refines [OF assms(3)] assms(4,5) by auto

end

text \<open>What \<open>ReadFile\<close> sees of the configuration file.\<close>

definition conf_text :: "'w afero \<Rightarrow> path \<Rightarrow> 'w \<Rightarrow> bytes option" where
  "conf_text fs p w = (case fs_ReadFile fs p w of Inl e \<Rightarrow> None | Inr d \<Rightarrow> Some d)"

lemma conf_text_Some: "conf_text fs p w = Some d \<longleftrightarrow> fs_ReadFile fs p w = Inr d"
  by (simp add: conf_text_def split: sum.splits)

lemma conf_text_None: "conf_text fs p w = None \<longleftrightarrow> (\<exists>e. fs_ReadFile fs p w = Inl e)"
  by (simp add: conf_text_def split: sum.splits)

locale containerd_host = afero_fs host
  for host :: "'w afero" +
  fixes conf :: path
    and restart :: "'w \<Rightarrow> error option \<times> 'w"
    and opts :: "string gomap"
    and order :: "(string \<times> string) list"
begin

abbreviation ccfg :: "'w containerd_Config" where
  "ccfg \<equiv> containerd_NewConfig host conf restart opts"

lemma AddRuntime_text:
  assumes "AddRuntime ccfg order p w = (None, w')"
  shows "\<exists>d. conf_text host conf w = Some d \<and> conf_text host conf w' = Some (add_text order p d)"
proof -
  obtain d where d: "fs_ReadFile host conf w = Inr d"
    using assms by (auto simp: AddRuntime_def containerd_NewConfig_def Let_def split: sum.splits)
  show ?thesis
  proof (cases "Contains d (runtime_of p)")
    case True
    with assms d show ?thesis
      by (auto simp: AddRuntime_def containerd_NewConfig_def add_text_def conf_text_Some)
  next
    case False
    let ?cfg = "generateConfig p (runtime_of p) order d"
    obtain n w1 w2 where opn: "fs_OpenFile host conf [O_APPEND, O_WRONLY] 420 w = (None, w1)"
      and wr: "fs_Write host conf ?cfg w1 = ((n, None), w2)" and w': "w' = snd (fs_Close host conf w2)"
      using assms d False
      by (auto simp: AddRuntime_def containerd_NewConfig_def Let_def split: prod.splits option.splits)
    have "fs_ReadFile host conf w1 = Inr d" using read_OpenAppend [OF opn] d by simp
    with wr have "fs_ReadFile host conf w2 = Inr (d @ ?cfg)" by (rule read_Write)
    then have "fs_ReadFile host conf w' = Inr (d @ ?cfg)"
      using read_Close [of conf w2 _ w' conf] w' by (metis prod.collapse)
    with d False show ?thesis by (simp add: conf_text_Some add_text_def)
  qed
qed

lemma RemoveRuntime_text:
  assumes "RemoveRuntime ccfg order p w = ((ch, None), w')"
  shows "\<exists>d. conf_text host conf w = Some d \<and> conf_text host conf w' = Some (remove_text order p d)"
proof -
  obtain d where d: "fs_ReadFile host conf w = Inr d"
    using assms by (auto simp: RemoveRuntime_def containerd_NewConfig_def Let_def split: sum.splits)
  show ?thesis
  proof (cases "Contains d (runtime_of p)")
    case True
    then have "fs_WriteFile host conf (remove_text order p d) 420 w = (None, w')"
      using assms d
      by (auto simp: RemoveRuntime_def containerd_NewConfig_def Let_def remove_text_def split: prod.splits option.splits)
    then have "fs_ReadFile host conf w' = Inr (remove_text order p d)" by (rule read_WriteFile)
    with d show ?thesis by (simp add: conf_text_Some)
  next
    case False
    with assms d show ?thesis
      by (auto simp: RemoveRuntime_def containerd_NewConfig_def conf_text_Some remove_text_absent)
  qed
qed

end

sublocale containerd_host \<subseteq> config: runtime_config "conf_text host conf" "add_text order" "remove_text order"
  "AddRuntime ccfg order" "RemoveRuntime ccfg order"
proof
  fix w p assume "conf_text host conf w = None"
  then show "\<exists>e. AddRuntime ccfg order p w = (Some e, w)" "\<exists>e. RemoveRuntime ccfg order p w = ((False, Some e), w)"
    by (auto simp: conf_text_None AddRuntime_def RemoveRuntime_def containerd_NewConfig_def Let_def)
qed (simp_all add: AddRuntime_text RemoveRuntime_text)

interpretation containerd_mem: containerd_host mem_fs conf restart opts order
  for conf restart opts order
  by (simp add: containerd_host_def mem.afero_fs_axioms)

section \<open>On a healthy host the operations succeed\<close>

lemma mem_AddRuntime:
  assumes "\<not> mem_ro m" "mem_get conf m = Some d"
  shows "\<exists>m'. AddRuntime (containerd_NewConfig mem_fs conf r opts) order p m = (None, m')
    \<and> mem_get conf m' = Some (add_text order p d) \<and> \<not> mem_ro m' \<and> mem_isdir conf m' = mem_isdir conf m"
  using assms
  by (simp add: AddRuntime_def containerd_NewConfig_def mem_fs_def mem_defs Let_def add_text_def mem_get_put)

lemma mem_RemoveRuntime:
  assumes "\<not> mem_ro m" "mem_get conf m = Some d" "\<not> mem_isdir conf m"
  shows "\<exists>m'. RemoveRuntime (containerd_NewConfig mem_fs conf r opts) order p m
      = ((Contains d (runtime_of p), None), m')
    \<and> mem_get conf m' = Some (remove_text order p d) \<and> \<not> mem_ro m' \<and> \<not> mem_isdir conf m'"
  using assms
  by (simp add: RemoveRuntime_def containerd_NewConfig_def mem_fs_def mem_defs Let_def remove_text_def mem_get_put
    remove_text_absent [unfolded remove_text_def])

lemma conf_text_mem: "conf_text mem_fs p m = mem_get p m"
  by (simp add: conf_text_def mem_fs_def mem_ReadFile_def split: option.splits)

section \<open>Properties\<close>

text \<open>
  C26. Refinement: an \<open>AddRuntime\<close> that reports success has turned the text of the
  configuration file into \<open>add_text\<close> of it (the text itself when the name occurs in it, the text
  with the section of the runtime appended otherwise); a missing file is an error and changes
  nothing.
\<close>

theorem AddRuntime_refines:
  assumes "afero_fs host"
  shows "(\<forall>w'. AddRuntime (containerd_NewConfig host conf restart opts) order p w = (None, w') \<longrightarrow>
            (\<exists>d. conf_text host conf w = Some d \<and> conf_text host conf w' = Some (add_text order p d)))
    \<and> (conf_text host conf w = None \<longrightarrow>
         (\<exists>e. AddRuntime (containerd_NewConfig host conf restart opts) order p w = (Some e, w)))"
  using containerd_host.AddRuntime_text [of host conf restart opts order p w] assms
  by (auto simp: containerd_host_def conf_text_None AddRuntime_def containerd_NewConfig_def Let_def)

definition demo_conf :: mem where
  "demo_conf = empty_mem\<lparr>mem_files := [(''/etc/containerd/config.toml'', ''version = 2'')]\<rparr>"

definition demo_containerd :: "string gomap \<Rightarrow> mem containerd_Config" where
  "demo_containerd opts =
     containerd_NewConfig mem_fs ''/etc/containerd/config.toml'' (\<lambda>w. (None, w)) opts"

lemma demo_conf_simps:
  "mem_get ''/etc/containerd/config.toml'' demo_conf = Some ''version = 2''"
  "\<not> mem_ro demo_conf" "\<not> mem_isdir ''/etc/containerd/config.toml'' demo_conf"
proof -
  have "canon ''/etc/containerd/config.toml'' = ''/etc/containerd/config.toml''" by code_simp
  then show "mem_get ''/etc/containerd/config.toml'' demo_conf = Some ''version = 2''"
    by (simp add: demo_conf_def mem_get_def empty_mem_def)
qed (simp_all add: demo_conf_def empty_mem_def mem_isdir_def)

lemmas demo_Add = mem_AddRuntime [OF demo_conf_simps(2,1), where r = "\<lambda>w. (None, w)", folded demo_containerd_def]

theorem AddRuntime_refines_witness:
  "\<exists>m'. AddRuntime (demo_containerd None) [] ''/opt/rcm/bin/containerd-shim-spin-v2'' demo_conf = (None, m')
     \<and> conf_text mem_fs ''/etc/containerd/config.toml'' m'
         = Some (add_text [] ''/opt/rcm/bin/containerd-shim-spin-v2'' ''version = 2'')"
proof -
  obtain m' where m': "AddRuntime (demo_containerd None) [] ''/opt/rcm/bin/containerd-shim-spin-v2'' demo_conf = (None, m')"
    using demo_Add by blast
  with AddRuntime_refines [OF mem.afero_fs_axioms, of "''/etc/containerd/config.toml''" "\<lambda>w. (None, w)" None "[]"
    "''/opt/rcm/bin/containerd-shim-spin-v2''" demo_conf] demo_conf_simps(1)
  show ?thesis by (auto simp: demo_containerd_def conf_text_mem)
qed

text \<open>
  C5. Removing a runtime undoes adding it: for a runtime whose name is not in the file yet, the
  file has its old text again, byte for byte. (The name must be one line and the generated
  section must not itself contain the marker \<open>version = 3\<close>; both calls see the options in the
  same order.)
\<close>

theorem Add_RemoveRuntime:
  assumes "afero_fs host" "conf_text host conf w = Some d"
    and "\<not> Contains d (runtime_of p)" "clean_runtime order p d"
    and "AddRuntime (containerd_NewConfig host conf restart opts) order p w = (None, w1)"
    and "RemoveRuntime (containerd_NewConfig host conf restart opts) order p w1 = ((ch, None), w2)"
  shows "ch \<and> conf_text host conf w2 = Some d"
proof -
  have host: "containerd_host host" using assms(1) by (simp add: containerd_host_def)
  from containerd_host.AddRuntime_text [OF host assms(5)] assms(2)
  have w1: "conf_text host conf w1 = Some (add_text order p d)" by simp
  then have ch using assms(6) add_text_Contains [of order p d]
    by (auto simp: conf_text_Some RemoveRuntime_def containerd_NewConfig_def Let_def split: option.splits prod.splits)
  with containerd_host.RemoveRuntime_text [OF host assms(6)] w1 remove_add_text [OF assms(4,3)]
  show ?thesis by simp
qed

lemma demo_spin:
  "runtime_of ''/opt/rcm/bin/containerd-shim-spin-v2'' = ''spin-v2''"
  "runtime_of ''/opt/rcm/bin/containerd-shim-slight-v1'' = ''slight-v1''"
  "runtime_of ''/opt/rcm/bin/containerd-shim-spin'' = ''spin''"
  "\<not> Contains ''version = 2'' ''spin-v2''" "\<not> Contains ''version = 2'' ''slight-v1''"
  by code_simp+

lemma demo_clean:
  "clean_runtime [] ''/opt/rcm/bin/containerd-shim-spin-v2'' ''version = 2''"
  "clean_runtime [] ''/opt/rcm/bin/containerd-shim-slight-v1'' ''version = 2''"
  by code_simp+

theorem Add_RemoveRuntime_witness:
  "\<exists>m1 m2. AddRuntime (demo_containerd None) [] ''/opt/rcm/bin/containerd-shim-spin-v2'' demo_conf = (None, m1)
     \<and> RemoveRuntime (demo_containerd None) [] ''/opt/rcm/bin/containerd-shim-spin-v2'' m1 = ((True, None), m2)
     \<and> conf_text mem_fs ''/etc/containerd/config.toml'' m2 = Some ''version = 2''"
proof -
  let ?p = "''/opt/rcm/bin/containerd-shim-spin-v2''" and ?c = "''/etc/containerd/config.toml''"
  obtain m1 where m1: "AddRuntime (demo_containerd None) [] ?p demo_conf = (None, m1)"
      "mem_get ?c m1 = Some (add_text [] ?p ''version = 2'')" "\<not> mem_ro m1" "\<not> mem_isdir ?c m1"
    using demo_Add demo_conf_simps(3) by blast
  obtain ch m2 where m2: "RemoveRuntime (demo_containerd None) [] ?p m1 = ((ch, None), m2)"
    using mem_RemoveRuntime [OF m1(3,2,4)] unfolding demo_containerd_def by blast
  from Add_RemoveRuntime [OF mem.afero_fs_axioms _ _ demo_clean(1)
    m1(1) [unfolded demo_containerd_def] m2 [unfolded demo_containerd_def]] m1 m2
  show ?thesis using demo_conf_simps(1) demo_spin by (auto simp: conf_text_mem)
qed

text \<open>
  C6. Removing a runtime leaves a runtime that was added after it in place: the file is the one
  that adding only the second runtime to the first text gives.
\<close>

theorem RemoveRuntime_keeps_others:
  assumes "afero_fs host" "conf_text host conf w = Some d"
    and "clean_runtime order p d" "\<not> Contains d (runtime_of p)"
    and "clean_runtime order q d" "\<not> Contains (add_text order p d) (runtime_of q)"
    and "\<not> Contains (generateConfig q (runtime_of q) order d) (runtime_of p)"
    and "AddRuntime (containerd_NewConfig host conf restart opts) order p w = (None, w1)"
    and "AddRuntime (containerd_NewConfig host conf restart opts) order q w1 = (None, w2)"
    and "RemoveRuntime (containerd_NewConfig host conf restart opts) order p w2 = ((ch, None), w3)"
  shows "conf_text host conf w3 = Some (add_text order q d)"
proof -
  have host: "containerd_host host" using assms(1) by (simp add: containerd_host_def)
  have "conf_text host conf w2 = Some (add_text order q (add_text order p d))"
    using containerd_host.AddRuntime_text [OF host assms(8)] containerd_host.AddRuntime_text [OF host assms(9)]
      assms(2) by simp
  with containerd_host.RemoveRuntime_text [OF host assms(10)] remove_first_text [OF assms(3-7)]
  show ?thesis by simp
qed

lemma demo_two:
  "\<not> Contains (add_text [] ''/opt/rcm/bin/containerd-shim-spin-v2'' ''version = 2'') ''slight-v1''"
  "\<not> Contains (generateConfig ''/opt/rcm/bin/containerd-shim-slight-v1'' ''slight-v1'' [] ''version = 2'') ''spin-v2''"
  by code_simp+

theorem RemoveRuntime_keeps_others_witness:
  "\<exists>m1 m2 m3. AddRuntime (demo_containerd None) [] ''/opt/rcm/bin/containerd-shim-spin-v2'' demo_conf = (None, m1)
     \<and> AddRuntime (demo_containerd None) [] ''/opt/rcm/bin/containerd-shim-slight-v1'' m1 = (None, m2)
     \<and> RemoveRuntime (demo_containerd None) [] ''/opt/rcm/bin/containerd-shim-spin-v2'' m2 = ((True, None), m3)
     \<and> conf_text mem_fs ''/etc/containerd/config.toml'' m3
         = Some (add_text [] ''/opt/rcm/bin/containerd-shim-slight-v1'' ''version = 2'')"
proof -
  let ?p = "''/opt/rcm/bin/containerd-shim-spin-v2''" and ?q = "''/opt/rcm/bin/containerd-shim-slight-v1''"
    and ?c = "''/etc/containerd/config.toml''"
  obtain m1 where m1: "AddRuntime (demo_containerd None) [] ?p demo_conf = (None, m1)"
      "mem_get ?c m1 = Some (add_text [] ?p ''version = 2'')" "\<not> mem_ro m1" "\<not> mem_isdir ?c m1"
    using demo_Add demo_conf_simps(3) by blast
  obtain m2 where m2: "AddRuntime (demo_containerd None) [] ?q m1 = (None, m2)"
      "mem_get ?c m2 = Some (add_text [] ?q (add_text [] ?p ''version = 2''))" "\<not> mem_ro m2" "\<not> mem_isdir ?c m2"
    using mem_AddRuntime [OF m1(3,2)] m1(4) unfolding demo_containerd_def by blast
  have "Contains (add_text [] ?q (add_text [] ?p ''version = 2'')) (runtime_of ?p)"
    using add_text_Contains [of "[]" ?p "''version = 2''"] by (simp add: add_text_def [of "[]" ?q] Contains_append1)
  then obtain m3 where m3: "RemoveRuntime (demo_containerd None) [] ?p m2 = ((True, None), m3)"
    using mem_RemoveRuntime [OF m2(3,2,4)] unfolding demo_containerd_def by metis
  have "conf_text mem_fs ?c demo_conf = Some ''version = 2''" by (simp add: conf_text_mem demo_conf_simps)
  from RemoveRuntime_keeps_others [OF mem.afero_fs_axioms this demo_clean(1) _ demo_clean(2) _ _
    m1(1) [unfolded demo_containerd_def] m2(1) [unfolded demo_containerd_def] m3 [unfolded demo_containerd_def]]
  show ?thesis using m1 m2 m3 demo_two demo_spin by auto
qed

text \<open>
  C36. The test whether a runtime is configured already is a substring test on the whole file:
  once a runtime is configured whose name contains the name of another one, adding the other
  one reports success and writes nothing.
\<close>

theorem AddRuntime_skips_substring:
  assumes "afero_fs host" "Contains (runtime_of p) (runtime_of q)"
    and "AddRuntime (containerd_NewConfig host conf restart opts) order p w = (None, w1)"
  shows "AddRuntime (containerd_NewConfig host conf restart opts) order' q w1 = (None, w1)"
proof -
  have "containerd_host host" using assms(1) by (simp add: containerd_host_def)
  from containerd_host.AddRuntime_text [OF this assms(3)] obtain d where
    "conf_text host conf w1 = Some (add_text order p d)" by blast
  moreover have "Contains (add_text order p d) (runtime_of q)"
    using add_text_Contains assms(2) Contains_trans by blast
  ultimately show ?thesis by (simp add: conf_text_Some AddRuntime_def containerd_NewConfig_def Let_def)
qed

theorem AddRuntime_skips_substring_witness:
  "\<exists>m1. AddRuntime (demo_containerd None) [] ''/opt/rcm/bin/containerd-shim-spin-v2'' demo_conf = (None, m1)
     \<and> AddRuntime (demo_containerd None) [] ''/opt/rcm/bin/containerd-shim-spin'' m1 = (None, m1)
     \<and> \<not> Contains (the (conf_text mem_fs ''/etc/containerd/config.toml'' m1)) ''runtimes.spin]''"
proof -
  let ?p = "''/opt/rcm/bin/containerd-shim-spin-v2''" and ?c = "''/etc/containerd/config.toml''"
  obtain m1 where m1: "AddRuntime (demo_containerd None) [] ?p demo_conf = (None, m1)"
      "mem_get ?c m1 = Some (add_text [] ?p ''version = 2'')"
    using demo_Add by blast
  have "Contains (runtime_of ?p) (runtime_of ''/opt/rcm/bin/containerd-shim-spin'')" by code_simp
  moreover have "\<not> Contains (add_text [] ?p ''version = 2'') ''runtimes.spin]''" by code_simp
  ultimately show ?thesis
    using AddRuntime_skips_substring [OF mem.afero_fs_axioms _ m1(1) [unfolded demo_containerd_def]] m1
    by (auto simp: demo_containerd_def conf_text_mem)
qed

text \<open>
  Removal depends on the order in which Go visits the options: when the visit of the
  removal differs from the visit of the addition so that the generated section is not found in
  the file, \<open>RemoveRuntime\<close> reports a change and writes the file back unchanged.
\<close>

lemma RemoveRuntime_order_dependent:
  assumes "afero_fs host" "conf_text host conf w = Some d" "Contains d (runtime_of p)"
    and "\<not> Contains d (generateConfig p (runtime_of p) order d)"
    and "RemoveRuntime (containerd_NewConfig host conf restart opts) order p w = ((ch, None), w')"
  shows "ch \<and> conf_text host conf w' = Some d"
proof -
  have "containerd_host host" using assms(1) by (simp add: containerd_host_def)
  from containerd_host.RemoveRuntime_text [OF this assms(5)] assms(2)
  have "conf_text host conf w' = Some (remove_text order p d)" by simp
  moreover have "remove_text order p d = d"
    unfolding remove_text_def by (rule ReplaceAll_absent [OF generateConfig_not_Nil assms(4)])
  moreover have ch using assms(2,3,5)
    by (auto simp: conf_text_Some RemoveRuntime_def containerd_NewConfig_def Let_def split: option.splits prod.splits)
  ultimately show ?thesis by simp
qed

definition two_options :: "(string \<times> string) list" where
  "two_options = [(''a'', ''1''), (''b'', ''2'')]"

lemma demo_order:
  "iterates (Some two_options) two_options" "iterates (Some two_options) (rev two_options)"
  by (auto simp: iterates_def two_options_def)

lemma RemoveRuntime_order_dependent_example:
  "\<exists>m1 m2. AddRuntime (demo_containerd (Some two_options)) two_options ''/opt/rcm/bin/containerd-shim-spin-v2'' demo_conf
       = (None, m1)
     \<and> RemoveRuntime (demo_containerd (Some two_options)) (rev two_options) ''/opt/rcm/bin/containerd-shim-spin-v2'' m1
       = ((True, None), m2)
     \<and> conf_text mem_fs ''/etc/containerd/config.toml'' m2 = conf_text mem_fs ''/etc/containerd/config.toml'' m1"
proof -
  let ?p = "''/opt/rcm/bin/containerd-shim-spin-v2''" and ?c = "''/etc/containerd/config.toml''"
  define d where "d = add_text two_options ?p ''version = 2''"
  obtain m1 where m1: "AddRuntime (demo_containerd (Some two_options)) two_options ?p demo_conf = (None, m1)"
      "mem_get ?c m1 = Some d" "\<not> mem_ro m1" "\<not> mem_isdir ?c m1"
    using demo_Add demo_conf_simps(3) unfolding d_def by blast
  obtain ch m2 where m2: "RemoveRuntime (demo_containerd (Some two_options)) (rev two_options) ?p m1 = ((ch, None), m2)"
    using mem_RemoveRuntime [OF m1(3,2,4)] unfolding demo_containerd_def by blast
  have "\<not> Contains d (generateConfig ?p (runtime_of ?p) (rev two_options) d)"
    unfolding d_def by code_simp
  with RemoveRuntime_order_dependent [OF mem.afero_fs_axioms _ _ _ m2 [unfolded demo_containerd_def]] m1 m2
  show ?thesis by (auto simp: conf_text_mem d_def add_text_Contains)
qed

end
