(* ===== verification/Containerd_Restart.thy ===== *)
theory Containerd_Restart
  imports Containerd_Config
begin

text \<open>
  \<open>internal/containerd/restart_unix.go\<close> and \<open>install_dbus.go\<close>: restarting containerd under
  the different distributions, and installing D-Bus with the package manager of the host. The
  operating system (running a command, listing processes, sending a signal, the environment)
  is a record of functions over the world; the definitions are proved for every such record.
  \<open>logged\<close> adds a log of the commands to a record, so that statements about which commands run,
  and in which order, can be made for every behaviour of the commands.
\<close>

section \<open>The operating system\<close>

datatype signal = SIGHUP

record process =
  Executable :: string
  Pid :: int

record 'w host_os =
  os_Exec :: "string list \<Rightarrow> 'w \<Rightarrow> (bytes \<times> error option) \<times> 'w"
  os_Processes :: "'w \<Rightarrow> error + process list"
  os_Kill :: "int \<Rightarrow> signal \<Rightarrow> 'w \<Rightarrow> error option \<times> 'w"
  os_Getenv :: "string \<Rightarrow> string"

text \<open>
  \<open>nsenterCmd\<close> builds the command line; running it yields the combined output and the error.
\<close>

definition nsenterCmd :: "'w host_os \<Rightarrow> string list \<Rightarrow> string list" where
  "nsenterCmd os cmd =
     [''nsenter'', ''-m/'' @ os_Getenv os ''HOST_ROOT'' @ ''/proc/1/ns/mnt'', ''--''] @ cmd"

definition CombinedOutput :: "'w host_os \<Rightarrow> string list \<Rightarrow> 'w \<Rightarrow> (bytes \<times> error option) \<times> 'w" where
  "CombinedOutput os cmd w = os_Exec os (nsenterCmd os cmd) w"

definition cmd_Run :: "'w host_os \<Rightarrow> string list \<Rightarrow> 'w \<Rightarrow> error option \<times> 'w" where
  "cmd_Run os cmd w = (case os_Exec os (nsenterCmd os cmd) w of ((out, err), w') \<Rightarrow> (err, w'))"

definition ListSystemdUnits :: "'w host_os \<Rightarrow> 'w \<Rightarrow> (bytes \<times> error option) \<times> 'w" where
  "ListSystemdUnits os w = CombinedOutput os [''systemctl'', ''list-units'', ''--type'', ''service''] w"

section \<open>Finding the process\<close>

definition getPid :: "'w host_os \<Rightarrow> string \<Rightarrow> 'w \<Rightarrow> error + int" where
  "getPid os executable w =
     (case os_Processes os w of
        Inl err \<Rightarrow> Inl (Wrap ''could not get processes'' err)
      | Inr processes \<Rightarrow>
          let containerdProcesses = filter (\<lambda>p. Executable p = executable) processes in
          if length containerdProcesses \<noteq> 1
          then Inl (Msg (''need exactly one '' @ executable @ '' process, found: '' @ Itoa (length containerdProcesses)))
          else Inr (Pid (containerdProcesses ! 0)))"

section \<open>The restarters\<close>

text \<open>
  \<open>regexp.MustCompile("a|b").FindString(s)\<close> for literal alternatives: the leftmost position
  at which one of them matches, the first alternative that matches there, and the empty string
  when there is none.
\<close>

fun FindString :: "string list \<Rightarrow> string \<Rightarrow> string" where
  "FindString alts [] = (case find (\<lambda>a. prefix a []) alts of Some a \<Rightarrow> a | None \<Rightarrow> [])"
| "FindString alts (c # s) =
     (case find (\<lambda>a. prefix a (c # s)) alts of Some a \<Rightarrow> a | None \<Rightarrow> FindString alts s)"

datatype Restarter = defaultRestarter | K0sRestarter | K3sRestarter | MicroK8sRestarter | RKE2Restarter

text \<open>The only restarter of \<open>restart_windows.go\<close>; it touches nothing.\<close>

definition ContainerdRestarter_Restart :: "'w \<Rightarrow> error option \<times> 'w" where
  "ContainerdRestarter_Restart w = (Some (Msg ''restarting containerd not implemented''), w)"

definition wrap_err :: "string \<Rightarrow> error option \<Rightarrow> error option" where
  "wrap_err msg err = map_option (Wrap msg) err"

definition restart_unit :: "'w host_os \<Rightarrow> string \<Rightarrow> 'w \<Rightarrow> error option \<times> 'w" where
  "restart_unit os unit_name w =
     (case CombinedOutput os [''systemctl'', ''restart'', unit_name] w of
        ((out, err), w') \<Rightarrow> (wrap_err (''unable to restart '' @ unit_name) err, w'))"

definition default_Restart :: "'w host_os \<Rightarrow> 'w \<Rightarrow> error option \<times> 'w" where
  "default_Restart os w =
     (case ListSystemdUnits os w of
        ((_, None), w1) \<Rightarrow> restart_unit os ''containerd'' w1
      | ((_, Some _), w1) \<Rightarrow>
          (case getPid os ''containerd'' w1 of
             Inl err \<Rightarrow> (Some err, w1)
           | Inr pid \<Rightarrow>
               (case os_Kill os pid SIGHUP w1 of
                  (err, w2) \<Rightarrow> (wrap_err ''failed to send SIGHUP to containerd'' err, w2))))"

definition restart_matching :: "'w host_os \<Rightarrow> string list \<Rightarrow> 'w \<Rightarrow> error option \<times> 'w" where
  "restart_matching os alts w =
     (case ListSystemdUnits os w of
        ((_, Some err), w1) \<Rightarrow> (Some (Wrap ''unable to list systemd units'' err), w1)
      | ((units, None), w1) \<Rightarrow> restart_unit os (FindString alts units) w1)"

definition K0s_Restart :: "'w host_os \<Rightarrow> 'w \<Rightarrow> error option \<times> 'w" where
  "K0s_Restart os w = restart_matching os [''k0sworker'', ''k0scontroller''] w"

definition K3s_Restart :: "'w host_os \<Rightarrow> 'w \<Rightarrow> error option \<times> 'w" where
  "K3s_Restart os w =
     (case ListSystemdUnits os w of
        ((_, None), w1) \<Rightarrow> restart_unit os ''k3s'' w1
      | ((_, Some _), w1) \<Rightarrow>
          (case CombinedOutput os [''kill'', ''1''] w1 of
             ((_, err), w2) \<Rightarrow> (wrap_err ''unable to restart k3s via TERM signal to PID 1'' err, w2)))"

definition MicroK8s_Restart :: "'w host_os \<Rightarrow> 'w \<Rightarrow> error option \<times> 'w" where
  "MicroK8s_Restart os w = restart_unit os ''snap.microk8s.daemon-containerd'' w"

definition RKE2_Restart :: "'w host_os \<Rightarrow> 'w \<Rightarrow> error option \<times> 'w" where
  "RKE2_Restart os w = restart_matching os [''rke2-agent'', ''rke2-server''] w"

definition Restart :: "'w host_os \<Rightarrow> Restarter \<Rightarrow> 'w \<Rightarrow> error option \<times> 'w" where
  "Restart os r w =
     (case r of
        defaultRestarter \<Rightarrow> default_Restart os w
      | K0sRestarter \<Rightarrow> K0s_Restart os w
      | K3sRestarter \<Rightarrow> K3s_Restart os w
      | MicroK8sRestarter \<Rightarrow> MicroK8s_Restart os w
      | RKE2Restarter \<Rightarrow> RKE2_Restart os w)"

section \<open>D-Bus\<close>

record pkgManager =
  pm_name :: string
  pm_check :: "string list"
  pm_update :: "string list"
  pm_install :: "string list"

definition managers :: "pkgManager list" where
  "managers =
     [\<lparr>pm_name = ''apt-get'', pm_check = [''which'', ''apt-get''],
       pm_update = [''apt-get'', ''update'', ''--yes''], pm_install = [''apt-get'', ''install'', ''--yes'', ''dbus'']\<rparr>,
      \<lparr>pm_name = ''dnf'', pm_check = [''which'', ''dnf''],
       pm_update = [], pm_install = [''dnf'', ''install'', ''--yes'', ''dbus'']\<rparr>,
      \<lparr>pm_name = ''apk'', pm_check = [''which'', ''apk''],
       pm_update = [], pm_install = [''apk'', ''add'', ''dbus'']\<rparr>,
      \<lparr>pm_name = ''yum'', pm_check = [''which'', ''yum''],
       pm_update = [], pm_install = [''yum'', ''install'', ''--yes'', ''dbus'']\<rparr>]"

text \<open>The loop over the managers yields an error, or whether one of them has installed D-Bus.\<close>

definition install_with :: "'w host_os \<Rightarrow> pkgManager \<Rightarrow> 'w \<Rightarrow> error option \<times> 'w" where
  "install_with os mgr w =
     (case (if pm_update mgr \<noteq> [] then cmd_Run os (pm_update mgr) w else (None, w)) of
        (Some err, w1) \<Rightarrow> (Some (Wrap (''failed to update package manager '' @ pm_name mgr) err), w1)
      | (None, w1) \<Rightarrow>
          (case cmd_Run os (pm_install mgr) w1 of
             (err, w2) \<Rightarrow> (wrap_err (''failed to install D-Bus with '' @ pm_name mgr) err, w2)))"

fun try_managers :: "'w host_os \<Rightarrow> pkgManager list \<Rightarrow> 'w \<Rightarrow> (error + bool) \<times> 'w" where
  "try_managers os [] w = (Inr False, w)"
| "try_managers os (mgr # ms) w =
     (case cmd_Run os (pm_check mgr) w of
        (Some _, w1) \<Rightarrow> try_managers os ms w1
      | (None, w1) \<Rightarrow>
          (case install_with os mgr w1 of
             (Some err, w2) \<Rightarrow> (Inl err, w2)
           | (None, w2) \<Rightarrow> (Inr True, w2)))"

definition InstallDbus :: "'w host_os \<Rightarrow> 'w \<Rightarrow> error option \<times> 'w" where
  "InstallDbus os w =
     (case cmd_Run os [''systemctl'', ''start'', ''dbus'', ''--quiet''] w of
        (None, w1) \<Rightarrow> (None, w1)
      | (Some _, w1) \<Rightarrow>
          (case try_managers os managers w1 of
             (Inl err, w2) \<Rightarrow> (Some err, w2)
           | (Inr False, w2) \<Rightarrow> (Some (Msg ''could not install D-Bus as no supported package manager found''), w2)
           | (Inr True, w2) \<Rightarrow>
               (case cmd_Run os [''systemctl'', ''restart'', ''dbus''] w2 of
                  (err, w3) \<Rightarrow> (wrap_err ''failed to restart D-Bus'' err, w3))))"

section \<open>Logging\<close>

text \<open>
  The commands that run, with their success, and the signals that are sent.
\<close>

datatype event = Ran "string list" bool | Sent int signal

definition logged :: "'w host_os \<Rightarrow> ('w \<times> event list) host_os" where
  "logged os =
     \<lparr>os_Exec = (\<lambda>cmd (w, l). case os_Exec os cmd w of ((out, err), w') \<Rightarrow>
         ((out, err), (w', l @ [Ran cmd (err = None)]))),
      os_Processes = (\<lambda>(w, l). os_Processes os w),
      os_Kill = (\<lambda>pid s (w, l). case os_Kill os pid s w of (err, w') \<Rightarrow> (err, (w', l @ [Sent pid s]))),
      os_Getenv = os_Getenv os\<rparr>"

lemma nsenterCmd_logged [simp]: "nsenterCmd (logged os) cmd = nsenterCmd os cmd"
  by (simp add: nsenterCmd_def logged_def)

lemma cmd_Run_logged:
  "cmd_Run (logged os) cmd (w, l) =
     (case cmd_Run os cmd w of (err, w') \<Rightarrow> (err, (w', l @ [Ran (nsenterCmd os cmd) (err = None)])))"
  by (simp add: cmd_Run_def) (simp add: logged_def split: prod.splits)

lemma CombinedOutput_logged:
  "CombinedOutput (logged os) cmd (w, l) =
     (case CombinedOutput os cmd w of ((out, err), w') \<Rightarrow>
        ((out, err), (w', l @ [Ran (nsenterCmd os cmd) (err = None)])))"
  by (simp add: CombinedOutput_def) (simp add: logged_def split: prod.splits)

section \<open>Properties of the restarters\<close>

text \<open>\<open>FindString\<close> returns the alternative that occurs first in the string.\<close>

lemma FindString_leftmost:
  assumes "[] \<notin> set alts" "\<exists>a \<in> set alts. Contains s a"
  shows "\<exists>x y. s = x @ FindString alts s @ y \<and> FindString alts s \<in> set alts
    \<and> (\<forall>x' a y'. a \<in> set alts \<longrightarrow> s = x' @ a @ y' \<longrightarrow> length x \<le> length x')"
  using assms(2)
proof (induction s)
  case Nil
  with assms(1) show ?case by auto
next
  case (Cons c s)
  show ?case
  proof (cases "find (\<lambda>a. prefix a (c # s)) alts")
    case (Some a)
    then have "a \<in> set alts" "prefix a (c # s)" by (auto simp: find_Some_iff)
    then obtain y where "c # s = [] @ a @ y" by (auto simp: prefix_def)
    moreover have "FindString alts (c # s) = a" using Some by simp
    ultimately show ?thesis using \<open>a \<in> set alts\<close> by (metis le0 list.size(3))
  next
    case None
    then have no: "\<not> prefix a (c # s)" if "a \<in> set alts" for a using that by (auto simp: find_None_iff)
    with Cons.prems have "\<exists>a \<in> set alts. Contains s a" by auto
    from Cons.IH [OF this] obtain x y where xy: "s = x @ FindString alts s @ y" "FindString alts s \<in> set alts"
      "\<And>x' a y'. a \<in> set alts \<Longrightarrow> s = x' @ a @ y' \<Longrightarrow> length x \<le> length x'" by blast
    have "length (c # x) \<le> length x'" if "a \<in> set alts" "c # s = x' @ a @ y'" for x' a y'
      using that no [OF that(1)] xy(3) [OF that(1)] by (cases x') auto
    with xy(1,2) None show ?thesis by (intro exI [of _ "c # x"] exI [of _ y]) auto
  qed
qed

definition k0s_services :: "string list" where
  "k0s_services = [''k0sworker'', ''k0scontroller'']"

text \<open>
  The k0s restarter restarts the service that the listing of systemd units names first: if
  the listing names \<open>k0sworker\<close> or \<open>k0scontroller\<close>, exactly two commands run, the listing and
  \<open>systemctl restart\<close> of that service, and the error of the second one is returned.
\<close>

lemma K0s_Restart_service:
  assumes "ListSystemdUnits os w = ((units, None), w1)"
    and "Contains units ''k0sworker'' \<or> Contains units ''k0scontroller''"
  shows "\<exists>service x y out err w2. service \<in> set k0s_services \<and> units = x @ service @ y
    \<and> (\<forall>x' s y'. s \<in> set k0s_services \<longrightarrow> units = x' @ s @ y' \<longrightarrow> length x \<le> length x')
    \<and> CombinedOutput os [''systemctl'', ''restart'', service] w1 = ((out, err), w2)
    \<and> K0s_Restart (logged os) (w, []) =
        (wrap_err (''unable to restart '' @ service) err,
         (w2, [Ran (nsenterCmd os [''systemctl'', ''list-units'', ''--type'', ''service'']) True,
               Ran (nsenterCmd os [''systemctl'', ''restart'', service]) (err = None)]))"
proof -
  define service where "service = FindString k0s_services units"
  have "[] \<notin> set k0s_services" "\<exists>s \<in> set k0s_services. Contains units s"
    using assms(2) by (auto simp: k0s_services_def)
  from FindString_leftmost [OF this] obtain x y where xy: "units = x @ service @ y" "service \<in> set k0s_services"
    "\<forall>x' s y'. s \<in> set k0s_services \<longrightarrow> units = x' @ s @ y' \<longrightarrow> length x \<le> length x'"
    unfolding service_def by blast
  obtain out err w2 where cmd: "CombinedOutput os [''systemctl'', ''restart'', service] w1 = ((out, err), w2)"
    by (metis prod.collapse)
  have "restart_unit (logged os) service (w1, l) = (wrap_err (''unable to restart '' @ service) err,
      (w2, l @ [Ran (nsenterCmd os [''systemctl'', ''restart'', service]) (err = None)]))" for l
    by (simp add: restart_unit_def CombinedOutput_logged cmd)
  then have "K0s_Restart (logged os) (w, []) = (wrap_err (''unable to restart '' @ service) err,
      (w2, [Ran (nsenterCmd os [''systemctl'', ''list-units'', ''--type'', ''service'']) True,
            Ran (nsenterCmd os [''systemctl'', ''restart'', service]) (err = None)]))"
    using assms(1)
    by (simp add: K0s_Restart_def restart_matching_def ListSystemdUnits_def CombinedOutput_logged
      flip: k0s_services_def service_def)
  with xy cmd show ?thesis by blast
qed

text \<open>A host whose commands all succeed and print the same text.\<close>

definition demo_os :: "string \<Rightarrow> process list \<Rightarrow> unit host_os" where
  "demo_os out ps =
     \<lparr>os_Exec = (\<lambda>cmd w. ((out, None), w)), os_Processes = (\<lambda>w. Inr ps),
      os_Kill = (\<lambda>pid s w. (None, w)), os_Getenv = (\<lambda>v. ''host'')\<rparr>"

lemma K0s_Restart_service_witness:
  "K0s_Restart (logged (demo_os ''k0scontroller.service loaded'' [])) ((), [])
     = (None, ((), [Ran (nsenterCmd (demo_os [] []) [''systemctl'', ''list-units'', ''--type'', ''service'']) True,
                    Ran (nsenterCmd (demo_os [] []) [''systemctl'', ''restart'', ''k0scontroller'']) True]))"
proof -
  let ?u = "''k0scontroller.service loaded''" and ?os = "demo_os ''k0scontroller.service loaded'' []"
  have co: "CombinedOutput ?os cmd () = ((?u, None), ())" for cmd
    by (simp add: CombinedOutput_def demo_os_def)
  then have list: "ListSystemdUnits ?os () = ((?u, None), ())" by (simp add: ListSystemdUnits_def)
  have c: "Contains ?u ''k0scontroller''" "\<not> Contains ?u ''k0sworker''" by code_simp+
  from K0s_Restart_service [OF list] c(1) obtain service x y out err w2 where
    s: "service \<in> set k0s_services" "?u = x @ service @ y"
      "CombinedOutput ?os [''systemctl'', ''restart'', service] () = ((out, err), w2)"
      "K0s_Restart (logged ?os) ((), []) =
        (wrap_err (''unable to restart '' @ service) err,
         (w2, [Ran (nsenterCmd ?os [''systemctl'', ''list-units'', ''--type'', ''service'']) True,
               Ran (nsenterCmd ?os [''systemctl'', ''restart'', service]) (err = None)]))" by blast
  have "service \<noteq> ''k0sworker''" using s(2) c(2) ContainsI by metis
  then have "service = ''k0scontroller''" using s(1) by (simp add: k0s_services_def)
  with s(3,4) co show ?thesis by (simp add: wrap_err_def nsenterCmd_def demo_os_def)
qed

text \<open>
  \<open>getPid\<close> returns a process id exactly when one process, and only one, has the name, and
  then it is the id of that process.
\<close>

lemma getPid_unique:
  "getPid os executable w = Inr pid \<longleftrightarrow>
     (\<exists>ps p. os_Processes os w = Inr ps \<and> filter (\<lambda>p. Executable p = executable) ps = [p] \<and> Pid p = pid)"
  by (auto simp: getPid_def Let_def length_Suc_conv split: sum.splits)

text \<open>
  The default restarter sends a signal only as a fallback: if a signal was sent, listing the
  systemd units had failed, no other command ran, the signal is SIGHUP and it went to the
  unique process named containerd.
\<close>

lemma default_Restart_signal:
  assumes "default_Restart (logged os) (w, []) = (r, (w', log))" "Sent pid s \<in> set log"
  shows "s = SIGHUP
    \<and> log = [Ran (nsenterCmd os [''systemctl'', ''list-units'', ''--type'', ''service'']) False, Sent pid SIGHUP]
    \<and> (\<exists>out e w1 ps p. ListSystemdUnits os w = ((out, Some e), w1) \<and> os_Processes os w1 = Inr ps
        \<and> filter (\<lambda>p. Executable p = ''containerd'') ps = [p] \<and> Pid p = pid)"
proof -
  obtain out err w1 where list: "CombinedOutput os [''systemctl'', ''list-units'', ''--type'', ''service''] w = ((out, err), w1)"
    by (metis prod.collapse)
  have proc: "os_Processes (logged os) (v, l) = os_Processes os v" for v l by (simp add: logged_def)
  have kill: "os_Kill (logged os) i s (v, l) = (case os_Kill os i s v of (e, v') \<Rightarrow> (e, (v', l @ [Sent i s])))" for i s v l
    by (simp add: logged_def)
  show ?thesis
  proof (cases err)
    case None
    then show ?thesis using assms list
      by (auto simp: default_Restart_def ListSystemdUnits_def restart_unit_def CombinedOutput_logged split: prod.splits)
  next
    case (Some e)
    have gp: "getPid (logged os) x (v, l) = getPid os x v" for x v l by (simp add: getPid_def proc)
    have "\<exists>i. getPid os ''containerd'' w1 = Inr i \<and> log =
        [Ran (nsenterCmd os [''systemctl'', ''list-units'', ''--type'', ''service'']) False, Sent i SIGHUP]"
      using assms list Some
      by (auto simp: default_Restart_def ListSystemdUnits_def CombinedOutput_logged gp kill split: prod.splits sum.splits)
    then have "getPid os ''containerd'' w1 = Inr pid" "s = SIGHUP"
      "log = [Ran (nsenterCmd os [''systemctl'', ''list-units'', ''--type'', ''service'']) False, Sent pid SIGHUP]"
      using assms(2) by auto
    then show ?thesis using list Some
      by (auto simp: ListSystemdUnits_def getPid_def Let_def length_Suc_conv split: sum.splits if_splits)
  qed
qed

text \<open>A host without systemd.\<close>

definition no_systemd :: "process list \<Rightarrow> unit host_os" where
  "no_systemd ps = (demo_os [] ps)\<lparr>os_Exec := (\<lambda>cmd w. (([], Some (ExecError ''exit status 1'')), w))\<rparr>"

lemma default_Restart_signal_witness:
  "\<exists>r log. default_Restart (logged (no_systemd [\<lparr>Executable = ''containerd'', Pid = 42\<rparr>])) ((), []) = (r, ((), log))
     \<and> log = [Ran (nsenterCmd (no_systemd []) [''systemctl'', ''list-units'', ''--type'', ''service'']) False, Sent 42 SIGHUP]"
proof -
  let ?os = "no_systemd [\<lparr>Executable = ''containerd'', Pid = 42\<rparr>]"
  have "\<exists>r log. default_Restart (logged ?os) ((), []) = (r, ((), log)) \<and> Sent 42 SIGHUP \<in> set log"
    by (simp add: default_Restart_def ListSystemdUnits_def CombinedOutput_def getPid_def logged_def no_systemd_def demo_os_def)
  then obtain r log where *: "default_Restart (logged ?os) ((), []) = (r, ((), log))" "Sent 42 SIGHUP \<in> set log" by blast
  with default_Restart_signal [OF *] show ?thesis by (auto simp: nsenterCmd_def no_systemd_def demo_os_def)
qed

section \<open>Properties of the D-Bus installation\<close>

definition manager_log :: "'w host_os \<Rightarrow> pkgManager \<Rightarrow> event list" where
  "manager_log os m =
     Ran (nsenterCmd os (pm_check m)) True
     # (if pm_update m \<noteq> [] then [Ran (nsenterCmd os (pm_update m)) True] else [])
     @ [Ran (nsenterCmd os (pm_install m)) True]"

lemma wrap_err_None [simp]: "wrap_err msg e = None \<longleftrightarrow> e = None" "None = wrap_err msg e \<longleftrightarrow> e = None"
  by (auto simp: wrap_err_def)

lemma install_with_log:
  assumes "install_with (logged os) m (w, l) = (None, (w', l'))"
  shows "l' = l @ tl (manager_log os m)"
  using assms by (auto simp: install_with_def cmd_Run_logged manager_log_def split: if_splits prod.splits option.splits)

lemma try_managers_log:
  "try_managers (logged os) ms (w, l) = (Inr True, (w', l')) \<Longrightarrow>
   \<exists>pre m post. ms = pre @ m # post
     \<and> l' = l @ map (\<lambda>p. Ran (nsenterCmd os (pm_check p)) False) pre @ manager_log os m"
proof (induction ms arbitrary: w l)
  case (Cons m ms)
  obtain err w1 where check: "cmd_Run os (pm_check m) w = (err, w1)" by fastforce
  show ?case
  proof (cases err)
    case None
    then obtain w2 where "install_with (logged os) m (w1, l @ [Ran (nsenterCmd os (pm_check m)) True]) = (None, (w2, l'))"
      using Cons.prems check by (auto simp: cmd_Run_logged split: prod.splits option.splits)
    then have "l' = l @ manager_log os m" by (auto dest!: install_with_log simp: manager_log_def)
    then show ?thesis by (intro exI [of _ "[]"] exI [of _ m] exI [of _ ms]) simp
  next
    case (Some e)
    then have "try_managers (logged os) ms (w1, l @ [Ran (nsenterCmd os (pm_check m)) False]) = (Inr True, (w', l'))"
      using Cons.prems check by (simp add: cmd_Run_logged)
    from Cons.IH [OF this] obtain pre k post where "ms = pre @ k # post"
      "l' = l @ Ran (nsenterCmd os (pm_check m)) False # map (\<lambda>p. Ran (nsenterCmd os (pm_check p)) False) pre @ manager_log os k"
      by auto
    then show ?thesis by (intro exI [of _ "m # pre"] exI [of _ k] exI [of _ post]) simp
  qed
qed simp

text \<open>
  C28. If \<open>InstallDbus\<close> succeeds, then either D-Bus could be started at once and nothing else was
  done, or the checks of the managers before some manager \<open>m\<close> failed, the check, the update (if it
  has one) and the installation of \<open>m\<close> succeeded, in this order, and D-Bus was restarted at the
  end: exactly one package manager is ever asked to install.
\<close>

theorem InstallDbus_commands:
  assumes "InstallDbus (logged os) (w, []) = (None, (w', log))"
  shows "log = [Ran (nsenterCmd os [''systemctl'', ''start'', ''dbus'', ''--quiet'']) True]
    \<or> (\<exists>pre m post. managers = pre @ m # post
        \<and> log = Ran (nsenterCmd os [''systemctl'', ''start'', ''dbus'', ''--quiet'']) False
            # map (\<lambda>p. Ran (nsenterCmd os (pm_check p)) False) pre @ manager_log os m
            @ [Ran (nsenterCmd os [''systemctl'', ''restart'', ''dbus'']) True])"
proof -
  obtain err w1 where start: "cmd_Run os [''systemctl'', ''start'', ''dbus'', ''--quiet''] w = (err, w1)" by fastforce
  show ?thesis
  proof (cases err)
    case None
    then show ?thesis using assms start by (simp add: InstallDbus_def cmd_Run_logged)
  next
    case (Some e)
    then obtain w2 l2 where tried:
        "try_managers (logged os) managers (w1, [Ran (nsenterCmd os [''systemctl'', ''start'', ''dbus'', ''--quiet'']) False])
          = (Inr True, (w2, l2))"
        and log: "log = l2 @ [Ran (nsenterCmd os [''systemctl'', ''restart'', ''dbus'']) True]"
      using assms start
      by (auto simp: InstallDbus_def cmd_Run_logged split: prod.splits sum.splits bool.splits)
    from try_managers_log [OF tried] log show ?thesis by auto
  qed
qed

text \<open>A host with dnf, on which D-Bus does not run yet.\<close>

definition dnf_os :: "unit host_os" where
  "dnf_os = (demo_os [] [])\<lparr>os_Exec := (\<lambda>cmd w.
     (([], if drop 3 cmd \<in> set [[''systemctl'', ''start'', ''dbus'', ''--quiet''], [''which'', ''apt-get'']]
           then Some (ExecError ''exit status 1'') else None), w))\<rparr>"

theorem InstallDbus_commands_witness:
  "\<exists>log pre m post. InstallDbus (logged dnf_os) ((), []) = (None, ((), log)) \<and> managers = pre @ m # post
     \<and> log = Ran (nsenterCmd dnf_os [''systemctl'', ''start'', ''dbus'', ''--quiet'']) False
            # map (\<lambda>p. Ran (nsenterCmd dnf_os (pm_check p)) False) pre @ manager_log dnf_os m
            @ [Ran (nsenterCmd dnf_os [''systemctl'', ''restart'', ''dbus'']) True]"
proof -
  have "\<exists>log. InstallDbus (logged dnf_os) ((), []) = (None, ((), log)) \<and> length log = 5"
    by (simp add: InstallDbus_def managers_def cmd_Run_def install_with_def logged_def dnf_os_def demo_os_def
      nsenterCmd_def wrap_err_def)
  then obtain log where *: "InstallDbus (logged dnf_os) ((), []) = (None, ((), log))" "length log = 5" by blast
  from InstallDbus_commands [OF *(1)] *(2) * show ?thesis by auto
qed

end
