(* ===== verification/Preset.thy ===== *)
theory Preset
  imports Containerd_Restart
begin

text \<open>
  \<open>internal/preset/preset.go\<close>, \<open>cmd/node-installer/config.go\<close> and \<open>cmd/node-installer/detect.go\<close>:
  the settings of the supported Kubernetes distributions, the preparation of their containerd
  configuration file, and the detection of the distribution from the files on the host.
\<close>

section \<open>Settings\<close>

record 'w Env =
  HostFs :: "'w afero"
  env_ConfigPath :: path

record 'w Settings =
  ConfigPath :: path
  Setup :: "'w Env \<Rightarrow> 'w \<Rightarrow> error option \<times> 'w"
  Restarter_of :: Restarter

definition WithConfigPath :: "'w Settings \<Rightarrow> path \<Rightarrow> 'w Settings" where
  "WithConfigPath s p = s\<lparr>ConfigPath := p\<rparr>"

definition WithSetup :: "'w Settings \<Rightarrow> ('w Env \<Rightarrow> 'w \<Rightarrow> error option \<times> 'w) \<Rightarrow> 'w Settings" where
  "WithSetup s f = s\<lparr>Setup := f\<rparr>"

definition WithRestarter :: "'w Settings \<Rightarrow> Restarter \<Rightarrow> 'w Settings" where
  "WithRestarter s r = s\<lparr>Restarter_of := r\<rparr>"

definition Default :: "'w Settings" where
  "Default = \<lparr>ConfigPath = ''/etc/containerd/config.toml'', Setup = (\<lambda>_ w. (None, w)), Restarter_of = defaultRestarter\<rparr>"

definition MicroK8s :: "'w Settings" where
  "MicroK8s = WithRestarter (WithConfigPath Default ''/var/snap/microk8s/current/args/containerd-template.toml'')
     MicroK8sRestarter"

text \<open>
  The setup of RKE2 and K3s copies the base configuration to the template, unless the template
  exists. \<open>io.Copy\<close> writes to the file only here, so the hash of \<open>io_Copy\<close> is ignored. The
  deferred calls close the files; their errors, and the error of \<open>Sync\<close>, are assigned to a
  variable that is not returned.
\<close>

definition RKE2_Setup :: "'w Env \<Rightarrow> 'w \<Rightarrow> error option \<times> 'w" where
  "RKE2_Setup env w =
     (let fs = HostFs env; p = env_ConfigPath env in
      case fs_Stat fs p w of
        Inr _ \<Rightarrow> (None, w)
      | Inl err \<Rightarrow>
          if is_ErrNotExist err then
            let src = fst (CutSuffix p ''.tmpl'') in
            (case fs_OpenFile fs src [O_RDONLY] 0 w of
               (Some e, w1) \<Rightarrow> (Some e, w1)
             | (None, w1) \<Rightarrow>
            (case fs_Create fs p w1 of
               (Some e, w2) \<Rightarrow> (Some e, snd (fs_Close fs src w2))
             | (None, w2) \<Rightarrow>
            (case fs_Blocks fs src w2 of (blocks, readErr) \<Rightarrow>
             case io_Copy fs p blocks readErr [] w2 of (copyErr, _, w3) \<Rightarrow>
               let w4 = (if copyErr = None then snd (fs_Sync fs p w3) else w3);
                   w5 = snd (fs_Close fs p w4)
               in (copyErr, snd (fs_Close fs src w5)))))
          else (Some err, w))"

definition RKE2 :: "'w Settings" where
  "RKE2 = WithSetup (WithRestarter
     (WithConfigPath Default ''/var/lib/rancher/rke2/agent/etc/containerd/config.toml.tmpl'') RKE2Restarter) RKE2_Setup"

definition K3s :: "'w Settings" where
  "K3s = WithRestarter (WithConfigPath RKE2 ''/var/lib/rancher/k3s/agent/etc/containerd/config.toml.tmpl'') K3sRestarter"

definition K0s_Setup :: "'w Env \<Rightarrow> 'w \<Rightarrow> error option \<times> 'w" where
  "K0s_Setup env w =
     (case fs_Stat (HostFs env) (env_ConfigPath env) w of
        Inr _ \<Rightarrow> (None, w)
      | Inl err \<Rightarrow>
          if is_ErrNotExist err then fs_Create (HostFs env) (env_ConfigPath env) w
          else (Some err, w))"

definition K0s :: "'w Settings" where
  "K0s = WithSetup (WithRestarter (WithConfigPath Default ''/etc/k0s/containerd.d/config.toml'') K0sRestarter) K0s_Setup"

section \<open>The configuration of the node installer\<close>

record Config =
  Runtime_Name :: string
  Runtime_ConfigPath :: path
  Runtime_Options :: "string gomap"
  RCM_Path :: path
  RCM_AssetPath :: path
  Host_RootPath :: path

section \<open>Detection\<close>

definition defaultContainerdConfigLocation :: path where
  "defaultContainerdConfigLocation = ''/etc/containerd/config.toml''"

definition containerdConfigLocations :: "(path \<times> 'w Settings) list" where
  "containerdConfigLocations =
     [(''/var/snap/microk8s/current/args/containerd-template.toml'', MicroK8s),
      (''/var/lib/rancher/rke2/agent/etc/containerd/config.toml'', RKE2),
      (''/var/lib/rancher/k3s/agent/etc/containerd/config.toml'', K3s),
      (''/etc/k0s/containerd.toml'', K0s)]"

text \<open>
  The loop over the map visits its entries in some order: the list \<open>locs\<close>. It yields the first
  location that exists, or the errors of all of them.
\<close>

fun probe :: "'w afero \<Rightarrow> 'w \<Rightarrow> (path \<times> 'w Settings) list \<Rightarrow> error list + 'w Settings" where
  "probe fs w [] = Inl []"
| "probe fs w ((loc, distro) # locs) =
     (case fs_Stat fs loc w of
        Inr _ \<Rightarrow> Inr distro
      | Inl err \<Rightarrow> (case probe fs w locs of Inr d \<Rightarrow> Inr d | Inl errs \<Rightarrow> Inl (err # errs)))"

definition DetectDistro :: "(path \<times> 'w Settings) list \<Rightarrow> Config \<Rightarrow> 'w afero \<Rightarrow> 'w \<Rightarrow> error + 'w Settings" where
  "DetectDistro locs config host w =
     (if Runtime_ConfigPath config \<noteq> [] then
        (case map_of containerdConfigLocations (Runtime_ConfigPath config) of
           Some distro \<Rightarrow> Inr distro
         | None \<Rightarrow> Inr (WithConfigPath Default (Runtime_ConfigPath config)))
      else
        (case probe host w locs of
           Inr distro \<Rightarrow> Inr distro
         | Inl errs \<Rightarrow>
             (case fs_Stat host defaultContainerdConfigLocation w of
                Inr _ \<Rightarrow> Inr Default
              | Inl err \<Rightarrow>
                  Inl (Wrap ''failed to detect containerd config path''
                    (the (errors_Join (map Some (errs @ [err]))))))))"

definition location_order :: "(path \<times> 'w Settings) list \<Rightarrow> bool" where
  "location_order locs \<longleftrightarrow> distinct (map fst locs) \<and> set locs = set containerdConfigLocations"

definition stat_ok :: "'w afero \<Rightarrow> 'w \<Rightarrow> path \<Rightarrow> bool" where
  "stat_ok fs w p = (case fs_Stat fs p w of Inl _ \<Rightarrow> False | Inr _ \<Rightarrow> True)"

lemma probe_Inr:
  "probe fs w locs = Inr d \<Longrightarrow>
   \<exists>pre loc post. locs = pre @ (loc, d) # post \<and> stat_ok fs w loc \<and> (\<forall>(l, s) \<in> set pre. \<not> stat_ok fs w l)"
proof (induction locs)
  case (Cons ld locs)
  obtain loc d0 where ld: "ld = (loc, d0)" by (cases ld)
  show ?case
  proof (cases "stat_ok fs w loc")
    case True
    then show ?thesis using Cons.prems ld
      by (intro exI [of _ "[]"] exI [of _ loc] exI [of _ locs]) (auto simp: stat_ok_def split: sum.splits)
  next
    case False
    then have "probe fs w locs = Inr d" using Cons.prems ld by (auto simp: stat_ok_def split: sum.splits)
    from Cons.IH [OF this] obtain pre l post where "locs = pre @ (l, d) # post" "stat_ok fs w l"
      "\<forall>(l, s) \<in> set pre. \<not> stat_ok fs w l" by blast
    then show ?thesis using False ld
      by (intro exI [of _ "ld # pre"] exI [of _ l] exI [of _ post]) auto
  qed
qed simp

lemma probe_Inl: "probe fs w locs = Inl errs \<Longrightarrow> \<forall>(l, s) \<in> set locs. \<not> stat_ok fs w l"
proof (induction locs arbitrary: errs)
  case (Cons ld locs)
  obtain loc d where ld: "ld = (loc, d)" by (cases ld)
  with Cons.prems obtain es where "\<not> stat_ok fs w loc" "probe fs w locs = Inl es"
    by (auto simp: stat_ok_def split: sum.splits)
  with Cons.IH ld show ?case by auto
qed simp

section \<open>Properties of the detection\<close>

text \<open>
  C27. Without an explicit path, the detection finds the distribution whose file is on the host:
  if exactly one of the four locations exists, its settings are returned whatever the order in
  which the map is visited and whether or not the default location exists too; if none exists,
  the default settings are returned when the default location exists, and an error otherwise.
\<close>

theorem DetectDistro_detects:
  fixes fs :: "'w afero"
  assumes "location_order locs" "Runtime_ConfigPath config = []"
  shows "((loc, s) \<in> set containerdConfigLocations \<and> stat_ok fs w loc
        \<and> (\<forall>(l, s') \<in> set (containerdConfigLocations :: (path \<times> 'w Settings) list). stat_ok fs w l \<longrightarrow> l = loc)
        \<longrightarrow> DetectDistro locs config fs w = Inr s)
    \<and> ((\<forall>(l, s') \<in> set (containerdConfigLocations :: (path \<times> 'w Settings) list). \<not> stat_ok fs w l) \<longrightarrow>
        (if stat_ok fs w defaultContainerdConfigLocation then DetectDistro locs config fs w = Inr Default
         else (\<exists>e. DetectDistro locs config fs w = Inl e)))"
proof (intro conjI impI)
  have set: "set locs = set containerdConfigLocations" and dist: "distinct (map fst locs)"
    using assms(1) by (simp_all add: location_order_def)
  {
    assume a: "(loc, s) \<in> set containerdConfigLocations \<and> stat_ok fs w loc
        \<and> (\<forall>(l, s') \<in> set (containerdConfigLocations :: (path \<times> 'w Settings) list). stat_ok fs w l \<longrightarrow> l = loc)"
    then obtain d where d: "probe fs w locs = Inr d"
      using probe_Inl [of fs w locs] set by (cases "probe fs w locs") force+
    from probe_Inr [OF this] obtain pre l post where l: "locs = pre @ (l, d) # post" "stat_ok fs w l" by blast
    then have l: "(l, d) \<in> set locs" "stat_ok fs w l" by simp_all
    with a set have "l = loc" by fastforce
    with l(1) a set dist have "d = s" by (metis eq_key_imp_eq_value)
    with d assms(2) show "DetectDistro locs config fs w = Inr s" by (simp add: DetectDistro_def)
  }
  assume "\<forall>(l, s') \<in> set (containerdConfigLocations :: (path \<times> 'w Settings) list). \<not> stat_ok fs w l"
  then obtain errs where "probe fs w locs = Inl errs"
    using probe_Inr [of fs w locs] set by (cases "probe fs w locs") fastforce+
  with assms(2) show "if stat_ok fs w defaultContainerdConfigLocation then DetectDistro locs config fs w = Inr Default
      else (\<exists>e. DetectDistro locs config fs w = Inl e)"
    by (auto simp: DetectDistro_def stat_ok_def split: sum.splits)
qed

definition auto_config :: Config where
  "auto_config = \<lparr>Runtime_Name = ''containerd'', Runtime_ConfigPath = [], Runtime_Options = None,
     RCM_Path = ''/opt/rcm'', RCM_AssetPath = ''/assets'', Host_RootPath = ''/''\<rparr>"

definition k0s_host :: mem where
  "k0s_host = empty_mem\<lparr>mem_files := [(''/etc/containerd/config.toml'', []), (''/etc/k0s/containerd.toml'', [])]\<rparr>"

lemma location_order_refl: "location_order containerdConfigLocations"
  by (simp add: location_order_def containerdConfigLocations_def)

lemma location_order_rev: "location_order locs \<Longrightarrow> location_order (rev locs)"
  by (simp add: location_order_def rev_map [symmetric])

lemma k0s_stat:
  "stat_ok mem_fs k0s_host ''/etc/k0s/containerd.toml'' = True"
  "stat_ok mem_fs k0s_host ''/var/snap/microk8s/current/args/containerd-template.toml'' = False"
  "stat_ok mem_fs k0s_host ''/var/lib/rancher/rke2/agent/etc/containerd/config.toml'' = False"
  "stat_ok mem_fs k0s_host ''/var/lib/rancher/k3s/agent/etc/containerd/config.toml'' = False"
  by code_simp+

theorem DetectDistro_detects_witness:
  "DetectDistro (rev containerdConfigLocations) auto_config mem_fs k0s_host = Inr K0s"
  using DetectDistro_detects [OF location_order_rev [OF location_order_refl], of auto_config
    "''/etc/k0s/containerd.toml''" K0s mem_fs k0s_host] k0s_stat
  by (simp add: auto_config_def containerdConfigLocations_def)

text \<open>
  An explicit configuration path decides alone: the files on the host and the order of the
  visit do not matter, a known location selects its distribution, and any other path is used
  with the default settings.
\<close>

lemma DetectDistro_explicit:
  fixes fs fs' :: "'w afero"
  assumes "Runtime_ConfigPath config \<noteq> []"
  shows "\<exists>s. DetectDistro locs config fs w = Inr s \<and> DetectDistro locs' config fs' w' = Inr s
    \<and> (if Runtime_ConfigPath config \<in> fst ` set (containerdConfigLocations :: (path \<times> 'w Settings) list)
        then (Runtime_ConfigPath config, s) \<in> set containerdConfigLocations
        else ConfigPath s = Runtime_ConfigPath config \<and> Restarter_of s = defaultRestarter)"
proof (cases "map_of containerdConfigLocations (Runtime_ConfigPath config) :: 'w Settings option")
  case None
  then have "Runtime_ConfigPath config \<notin> fst ` set (containerdConfigLocations :: (path \<times> 'w Settings) list)"
    by (simp add: map_of_eq_None_iff)
  with None show ?thesis using assms
    by (simp add: DetectDistro_def WithConfigPath_def Default_def)
next
  case (Some s)
  then have "(Runtime_ConfigPath config, s) \<in> set containerdConfigLocations" by (rule map_of_SomeD)
  then show ?thesis using assms Some by (force simp: DetectDistro_def)
qed

lemma DetectDistro_explicit_witness:
  "\<exists>s. DetectDistro [] (auto_config\<lparr>Runtime_ConfigPath := ''/etc/k0s/containerd.toml''\<rparr>) mem_fs empty_mem = Inr s
     \<and> (''/etc/k0s/containerd.toml'', s) \<in> set containerdConfigLocations"
proof -
  let ?c = "auto_config\<lparr>Runtime_ConfigPath := ''/etc/k0s/containerd.toml''\<rparr>"
  have "Runtime_ConfigPath ?c \<in> fst ` set (containerdConfigLocations :: (path \<times> mem Settings) list)"
    by (simp add: containerdConfigLocations_def)
  moreover have "Runtime_ConfigPath ?c \<noteq> []" by simp
  ultimately show ?thesis
    using DetectDistro_explicit [of ?c "[]" mem_fs empty_mem "[]" mem_fs empty_mem] by auto
qed

section \<open>Properties of the setup\<close>

text \<open>
  C31. The setup of RKE2 and K3s creates the template as a copy of the base configuration: if the
  template does not exist and the setup reports success, the template has the text of the base
  file, which is unchanged; if it exists, nothing changes.
\<close>

theorem RKE2_Setup_copies:
  assumes fs: "afero_fs fs" and src: "src = fst (CutSuffix p ''.tmpl'')" "\<not> under src p"
    and run: "RKE2_Setup \<lparr>HostFs = fs, env_ConfigPath = p\<rparr> w = (None, w')"
  shows "(if stat_ok fs w p then w' = w
          else (\<exists>d. fs_ReadFile fs src w = Inr d \<and> fs_ReadFile fs p w' = Inr d \<and> fs_ReadFile fs src w' = Inr d))"
proof (cases "fs_Stat fs p w")
  case (Inl err)
  then obtain w1 w2 w3 bs re h where opn: "fs_OpenFile fs src [O_RDONLY] 0 w = (None, w1)"
    and create: "fs_Create fs p w1 = (None, w2)" and blocks: "fs_Blocks fs src w2 = (bs, re)"
    and copy: "io_Copy fs p bs re [] w2 = (None, h, w3)"
    and w': "w' = snd (fs_Close fs src (snd (fs_Close fs p (snd (fs_Sync fs p w3)))))"
    using run src(1)
    by (auto simp: RKE2_Setup_def Let_def split: if_splits prod.splits option.splits)
  have w1: "w1 = w" by (rule afero_fs.read_OpenRead [OF fs opn])
  have p2: "fs_ReadFile fs p w2 = Inr []" by (rule afero_fs.read_Create [OF fs create])
  have c: "re = None" "fs_ReadFile fs p w3 = Inr (concat bs)"
    using afero_fs.io_Copy_ok [OF fs copy p2] by simp_all
  have "fs_ReadFile fs src w2 = Inr (concat bs)" using afero_fs.read_Blocks [OF fs] blocks c(1) by simp
  then have s: "fs_ReadFile fs src w = Inr (concat bs)" "fs_ReadFile fs src w3 = Inr (concat bs)"
    using afero_fs.frame_Create [OF fs create src(2)] afero_fs.io_Copy_frame [OF fs copy src(2)] w1 by simp_all
  have "fs_ReadFile fs q w' = fs_ReadFile fs q w3" for q
    unfolding w' using afero_fs.read_Sync [OF fs] afero_fs.read_Close [OF fs] by (metis prod.collapse)
  with c(2) s Inl show ?thesis by (simp add: stat_ok_def)
next
  case (Inr i)
  then show ?thesis using run by (simp add: RKE2_Setup_def stat_ok_def)
qed

definition k3s_host :: mem where
  "k3s_host = empty_mem\<lparr>mem_files := [(''/var/lib/rancher/k3s/agent/etc/containerd/config.toml'', ''version = 3'')]\<rparr>"

lemma k3s_paths:
  "CutSuffix ''/var/lib/rancher/k3s/agent/etc/containerd/config.toml.tmpl'' ''.tmpl''
     = (''/var/lib/rancher/k3s/agent/etc/containerd/config.toml'', True)"
  "canon ''/var/lib/rancher/k3s/agent/etc/containerd/config.toml'' = ''/var/lib/rancher/k3s/agent/etc/containerd/config.toml''"
  "canon ''/var/lib/rancher/k3s/agent/etc/containerd/config.toml.tmpl'' = ''/var/lib/rancher/k3s/agent/etc/containerd/config.toml.tmpl''"
  "under ''/var/lib/rancher/k3s/agent/etc/containerd/config.toml''
     ''/var/lib/rancher/k3s/agent/etc/containerd/config.toml.tmpl'' = False"
  by code_simp+

theorem RKE2_Setup_copies_witness:
  "\<exists>w'. Setup K3s \<lparr>HostFs = mem_fs, env_ConfigPath = ConfigPath (K3s :: mem Settings)\<rparr> k3s_host = (None, w')
     \<and> fs_ReadFile mem_fs (ConfigPath (K3s :: mem Settings)) w' = Inr ''version = 3''"
proof -
  let ?p = "''/var/lib/rancher/k3s/agent/etc/containerd/config.toml.tmpl''"
    and ?s = "''/var/lib/rancher/k3s/agent/etc/containerd/config.toml''"
  have k3s: "Setup K3s = (RKE2_Setup :: mem Env \<Rightarrow> _)" "ConfigPath (K3s :: mem Settings) = ?p"
    by (simp_all add: K3s_def RKE2_def WithSetup_def WithRestarter_def WithConfigPath_def)
  have no: "\<not> stat_ok mem_fs k3s_host ?p"
    by (simp add: stat_ok_def mem_fs_def mem_Stat_def mem_get_def mem_isdir_def k3s_host_def empty_mem_def k3s_paths)
  have d: "fs_ReadFile mem_fs ?s k3s_host = Inr ''version = 3''"
    by (simp add: mem_fs_def mem_ReadFile_def mem_get_def k3s_host_def empty_mem_def k3s_paths)
  obtain w' where run: "RKE2_Setup \<lparr>HostFs = mem_fs, env_ConfigPath = ?p\<rparr> k3s_host = (None, w')"
    by (simp add: RKE2_Setup_def mem_fs_def mem_defs mem_get_def mem_isdir_def mem_put_def k3s_host_def empty_mem_def
      k3s_paths Let_def)
  from RKE2_Setup_copies [OF mem.afero_fs_axioms _ _ run, of ?s] no d show ?thesis
    using run by (simp add: k3s k3s_paths)
qed

end
