(* ===== verification/Node_Installer.thy ===== *)
theory Node_Installer
  imports Preset
begin

text \<open>
  \<open>cmd/node-installer\<close>: the program that runs in the install and uninstall jobs. \<open>RunInstall\<close>
  and \<open>RunUninstall\<close> compose the shim store, the containerd configuration and the restarters;
  the commands around them detect the distribution and read the runtime options. The theorems
  are about whole runs: what a successful run has established, when containerd is restarted,
  and what a second run does after a failed one.
\<close>

definition quoted :: "string \<Rightarrow> string" where
  "quoted s = [CHR 0x27] @ s @ [CHR 0x27]"

section \<open>Flags and configuration files\<close>

text \<open>
  The flag and configuration libraries are not part of the repository: \<open>viper\<close> stands for the
  values it has collected from the environment and the configuration file, already formatted.
\<close>

record flag =
  f_Name :: string
  f_Value :: string
  f_Changed :: bool

datatype viper_error = ConfigFileNotFoundError | ViperError error

record viper =
  v_ReadInConfig :: "viper_error option"
  v_IsSet :: "string \<Rightarrow> bool"
  v_Get :: "string \<Rightarrow> string"

definition bindFlags :: "viper \<Rightarrow> flag list \<Rightarrow> flag list" where
  "bindFlags v flags =
     map (\<lambda>f. let configName = ReplaceAll (f_Name f) ''-'' ''_'' in
            if \<not> f_Changed f \<and> v_IsSet v configName
            then f\<lparr>f_Value := v_Get v configName, f_Changed := True\<rparr> else f) flags"

definition initializeConfig :: "viper \<Rightarrow> flag list \<Rightarrow> error + flag list" where
  "initializeConfig v flags =
     (case v_ReadInConfig v of
        Some (ViperError err) \<Rightarrow> Inl err
      | Some ConfigFileNotFoundError \<Rightarrow> Inr (bindFlags v flags)
      | None \<Rightarrow> Inr (bindFlags v flags))"

section \<open>Runtime options\<close>

text \<open>
  \<open>json.Unmarshal\<close> into a map of strings: a null value is stored as the empty string, any other
  value that is not a string is an error, a null in place of the object makes the map nil.
\<close>

fun decode_options :: "(string \<times> string) list \<Rightarrow> (string \<times> json) list \<Rightarrow> error + (string \<times> string) list" where
  "decode_options m [] = Inr m"
| "decode_options m ((k, v) # ms) =
     (case v of
        JStr s \<Rightarrow> decode_options (AList.update k s m) ms
      | JNull \<Rightarrow> decode_options (AList.update k [] m) ms
      | _ \<Rightarrow> Inl type_error)"

definition unmarshal_options :: "bytes \<Rightarrow> error + string gomap" where
  "unmarshal_options data =
     (case json_parse data of
        None \<Rightarrow> Inl (JsonError ''syntax error'')
      | Some (JObj ms) \<Rightarrow> map_sum id Some (decode_options [] ms)
      | Some JNull \<Rightarrow> Inr None
      | Some _ \<Rightarrow> Inl type_error)"

definition RuntimeOptions :: "'w host_os \<Rightarrow> error + string gomap" where
  "RuntimeOptions os =
     (let optionsJSON = os_Getenv os ''RUNTIME_OPTIONS'' in
      if optionsJSON = [] then Inr (Some [])
      else (case unmarshal_options optionsJSON of
         Inl err \<Rightarrow> Inl (Wrap (''failed to unmarshal runtime options JSON '' @ optionsJSON) err)
       | Inr m \<Rightarrow> Inr m))"

section \<open>Install\<close>

text \<open>
  The loop over the files, for an operation \<open>inst\<close> that installs a shim and an operation \<open>add\<close> that
  adds a runtime. The result is an error, or whether any shim has changed.
\<close>

fun install_loop :: "(string \<Rightarrow> 'w \<Rightarrow> install_result \<times> 'w) \<Rightarrow> (path \<Rightarrow> 'w \<Rightarrow> error option \<times> 'w)
    \<Rightarrow> file_info list \<Rightarrow> bool \<Rightarrow> 'w \<Rightarrow> (error + bool) outcome \<times> 'w" where
  "install_loop inst add [] anythingChanged w = (Ret (Inr anythingChanged), w)"
| "install_loop inst add (file # files) anythingChanged w =
     (case inst (fi_Name file) w of
        (Panic m, w1) \<Rightarrow> (Panic m, w1)
      | (Ret (binPath, changed, Some err), w1) \<Rightarrow>
          (Ret (Inl (Wrap (''failed to install shim '' @ quoted (RuntimeName (fi_Name file))) err)), w1)
      | (Ret (binPath, changed, None), w1) \<Rightarrow>
          (case add binPath w1 of
             (Some err, w2) \<Rightarrow> (Ret (Inl (Wrap ''failed to write containerd config'' err)), w2)
           | (None, w2) \<Rightarrow> install_loop inst add files (anythingChanged \<or> changed) w2))"

text \<open>The files to install, and the directory they are in.\<close>

definition asset_files :: "'w afero \<Rightarrow> path \<Rightarrow> 'w \<Rightarrow> error + file_info list \<times> path" where
  "asset_files root path w =
     (case fs_Stat root path w of
        Inl err \<Rightarrow> Inl err
      | Inr info \<Rightarrow>
          if fi_IsDir info then
            (case fs_ReadDir root path w of
               Inl err \<Rightarrow> Inl err
             | Inr files \<Rightarrow> Inr (files, path))
          else Inr ([info], path_Dir path))"

definition restart_containerd :: "'w host_os \<Rightarrow> 'w containerd_Config \<Rightarrow> 'w \<Rightarrow> error option \<times> 'w" where
  "restart_containerd os cc w =
     (case ListSystemdUnits os w of ((_, err), w1) \<Rightarrow>
      case (if err = None then InstallDbus os w1 else (None, w1)) of
        (Some e, w2) \<Rightarrow> (Some (Wrap ''failed to install D-Bus'' e), w2)
      | (None, w2) \<Rightarrow>
          (case RestartRuntime cc w2 of (e, w3) \<Rightarrow> (wrap_err ''failed to restart containerd'' e, w3)))"

text \<open>
  \<open>iter\<close> gives, for each call of \<open>AddRuntime\<close>, the order in which it visits the options.
\<close>

definition RunInstall :: "'w host_os \<Rightarrow> (path \<Rightarrow> (string \<times> string) list) \<Rightarrow> Config \<Rightarrow> 'w afero \<Rightarrow> 'w afero
    \<Rightarrow> ('w \<Rightarrow> error option \<times> 'w) \<Rightarrow> 'w \<Rightarrow> error option outcome \<times> 'w" where
  "RunInstall os iter config root host restart w =
     (case asset_files root (RCM_AssetPath config) w of
        Inl err \<Rightarrow> (Ret (Some err), w)
      | Inr (files, assets) \<Rightarrow>
          let containerdConfig = containerd_NewConfig host (Runtime_ConfigPath config) restart (Runtime_Options config);
              shimConfig = shim_NewConfig root host assets (RCM_Path config)
          in (case install_loop (Install shimConfig) (\<lambda>p. AddRuntime containerdConfig (iter p) p) files False w of
                (Panic m, w1) \<Rightarrow> (Panic m, w1)
              | (Ret (Inl err), w1) \<Rightarrow> (Ret (Some err), w1)
              | (Ret (Inr anythingChanged), w1) \<Rightarrow>
                  if \<not> anythingChanged then (Ret None, w1)
                  else (case restart_containerd os containerdConfig w1 of (err, w2) \<Rightarrow> (Ret err, w2))))"

section \<open>Uninstall\<close>

definition RunUninstall :: "(string \<times> string) list \<Rightarrow> Config \<Rightarrow> 'w afero \<Rightarrow> 'w afero
    \<Rightarrow> ('w \<Rightarrow> error option \<times> 'w) \<Rightarrow> 'w \<Rightarrow> error option outcome \<times> 'w" where
  "RunUninstall order config root host restart w =
     (let shimName = Runtime_Name config;
          runtimeName = path_Join [RCM_Path config, ''bin'', shimName];
          containerdConfig = containerd_NewConfig host (Runtime_ConfigPath config) restart (Runtime_Options config);
          shimConfig = shim_NewConfig root host (RCM_AssetPath config) (RCM_Path config)
      in case Uninstall shimConfig shimName w of
           (Panic m, w1) \<Rightarrow> (Panic m, w1)
         | (Ret (_, Some err), w1) \<Rightarrow> (Ret (Some (Wrap (''failed to delete shim '' @ quoted runtimeName) err)), w1)
         | (Ret (binPath, None), w1) \<Rightarrow>
             (case RemoveRuntime containerdConfig order binPath w1 of
                ((_, Some err), w2) \<Rightarrow>
                  (Ret (Some (Wrap (''failed to write containerd config for shim '' @ quoted runtimeName) err)), w2)
              | ((configChanged, None), w2) \<Rightarrow>
                  if \<not> configChanged then (Ret None, w2)
                  else (case RestartRuntime containerdConfig w2 of
                          (err, w3) \<Rightarrow> (Ret (wrap_err ''failed to restart containerd'' err), w3))))"

section \<open>The commands\<close>

text \<open>
  The bodies of \<open>installCmd\<close> and \<open>uninstallCmd\<close>: the result is the exit status. \<open>base\<close> stands for
  \<open>afero.NewBasePathFs\<close>; \<open>locs\<close> is the order of the visit of the known locations.
\<close>

definition installCmd :: "'w host_os \<Rightarrow> (path \<times> 'w Settings) list \<Rightarrow> (path \<Rightarrow> (string \<times> string) list)
    \<Rightarrow> 'w afero \<Rightarrow> ('w afero \<Rightarrow> path \<Rightarrow> 'w afero) \<Rightarrow> Config \<Rightarrow> 'w \<Rightarrow> nat outcome \<times> 'w" where
  "installCmd os locs iter root base config w =
     (let host = base root (Host_RootPath config) in
      case DetectDistro locs config host w of
        Inl _ \<Rightarrow> (Ret 1, w)
      | Inr distro \<Rightarrow>
          (case Setup distro \<lparr>HostFs = host, env_ConfigPath = ConfigPath distro\<rparr> w of
             (Some _, w1) \<Rightarrow> (Ret 1, w1)
           | (None, w1) \<Rightarrow>
          (case RuntimeOptions os of
             Inl _ \<Rightarrow> (Ret 1, w1)
           | Inr options \<Rightarrow>
          (case RunInstall os iter (config\<lparr>Runtime_ConfigPath := ConfigPath distro, Runtime_Options := options\<rparr>)
                  root host (Restart os (Restarter_of distro)) w1 of
             (Panic m, w2) \<Rightarrow> (Panic m, w2)
           | (Ret (Some _), w2) \<Rightarrow> (Ret 1, w2)
           | (Ret None, w2) \<Rightarrow> (Ret 0, w2)))))"

definition uninstallCmd :: "'w host_os \<Rightarrow> (path \<times> 'w Settings) list \<Rightarrow> (string \<times> string) list
    \<Rightarrow> 'w afero \<Rightarrow> ('w afero \<Rightarrow> path \<Rightarrow> 'w afero) \<Rightarrow> Config \<Rightarrow> 'w \<Rightarrow> nat outcome \<times> 'w" where
  "uninstallCmd os locs order root base config w =
     (let host = base root (Host_RootPath config) in
      case DetectDistro locs config host w of
        Inl _ \<Rightarrow> (Ret 1, w)
      | Inr distro \<Rightarrow>
          (case RuntimeOptions os of
             Inl _ \<Rightarrow> (Ret 1, w)
           | Inr options \<Rightarrow>
          (case RunUninstall order (config\<lparr>Runtime_ConfigPath := ConfigPath distro, Runtime_Options := options\<rparr>)
                  root host (Restart os (Restarter_of distro)) w of
             (Panic m, w2) \<Rightarrow> (Panic m, w2)
           | (Ret (Some _), w2) \<Rightarrow> (Ret 1, w2)
           | (Ret None, w2) \<Rightarrow> (Ret 0, w2))))"

section \<open>The loop over the shims\<close>

text \<open>
  The loop is a client of the contract \<open>shim_store\<close> and of an operation \<open>add\<close> that leaves the store
  alone. \<open>up_to_date\<close>: every shim is recorded as its asset calls for.
\<close>

locale shim_installer = shim_store ok reg wanted valid inst uninst
  for ok :: "'w \<Rightarrow> bool" and reg wanted :: "'w \<Rightarrow> string \<rightharpoonup> state_Shim" and valid :: "string \<Rightarrow> bool"
    and inst :: "string \<Rightarrow> 'w \<Rightarrow> install_result \<times> 'w" and uninst :: "string \<Rightarrow> 'w \<Rightarrow> (path \<times> error option) outcome \<times> 'w" +
  fixes add :: "path \<Rightarrow> 'w \<Rightarrow> error option \<times> 'w"
  assumes add_keeps: "add p w = (r, w') \<Longrightarrow> ok w \<Longrightarrow> ok w' \<and> reg w' = reg w \<and> wanted w' = wanted w"
begin

abbreviation up_to_date :: "file_info list \<Rightarrow> 'w \<Rightarrow> bool" where
  "up_to_date files w \<equiv> \<forall>f \<in> set files. \<exists>x. wanted w (fi_Name f) = Some x \<and> reg w (RuntimeName (fi_Name f)) = Some x"

lemma loop_step:
  assumes "install_loop inst add (f # files) any w = (Ret (Inr ch), w')" "valid (fi_Name f)" "ok w"
  obtains x w2 where "wanted w (fi_Name f) = Some x" "ok w2" "reg w2 = (reg w)(RuntimeName (fi_Name f) \<mapsto> x)"
    "wanted w2 = wanted w"
    "install_loop inst add files (any \<or> reg w (RuntimeName (fi_Name f)) \<noteq> Some x) w2 = (Ret (Inr ch), w')"
proof -
  obtain p c w1 w2 where inst: "inst (fi_Name f) w = (Ret (p, c, None), w1)" and add: "add p w1 = (None, w2)"
    and rest: "install_loop inst add files (any \<or> c) w2 = (Ret (Inr ch), w')"
    using assms(1) by (auto split: prod.splits outcome.splits option.splits)
  from inst_update [OF assms(2,3) inst] obtain x where x: "ok w1" "wanted w1 = wanted w" "wanted w (fi_Name f) = Some x"
    "reg w1 = (reg w)(RuntimeName (fi_Name f) \<mapsto> x)" "c = (reg w (RuntimeName (fi_Name f)) \<noteq> Some x)" by blast
  show thesis
    by (rule that [of x w2]) (use add_keeps [OF add x(1)] rest x in simp_all)
qed

lemma loop_records:
  "install_loop inst add files any w = (Ret (Inr ch), w') \<Longrightarrow> ok w
    \<Longrightarrow> \<forall>f \<in> set files. valid (fi_Name f) \<Longrightarrow> distinct (map (\<lambda>f. RuntimeName (fi_Name f)) files)
    \<Longrightarrow> ok w' \<and> wanted w' = wanted w \<and> up_to_date files w'
      \<and> (\<forall>k. k \<notin> (\<lambda>f. RuntimeName (fi_Name f)) ` set files \<longrightarrow> reg w' k = reg w k)"
proof (induction files arbitrary: any w)
  case (Cons f files)
  from Cons.prems have "valid (fi_Name f)" by simp
  from loop_step [OF Cons.prems(1) this Cons.prems(2)] obtain x w2 where
    s: "wanted w (fi_Name f) = Some x" "ok w2" "reg w2 = (reg w)(RuntimeName (fi_Name f) \<mapsto> x)" "wanted w2 = wanted w"
    "install_loop inst add files (any \<or> reg w (RuntimeName (fi_Name f)) \<noteq> Some x) w2 = (Ret (Inr ch), w')" by blast
  from Cons.IH [OF s(5,2)] Cons.prems(3,4) s show ?case by auto
qed simp

lemma loop_up_to_date:
  "install_loop inst add files any w = (Ret (Inr ch), w') \<Longrightarrow> ok w
    \<Longrightarrow> \<forall>f \<in> set files. valid (fi_Name f) \<Longrightarrow> up_to_date files w \<Longrightarrow> ch = any \<and> reg w' = reg w"
proof (induction files arbitrary: any w)
  case (Cons f files)
  from Cons.prems have v: "valid (fi_Name f)" by simp
  from loop_step [OF Cons.prems(1) v Cons.prems(2)] obtain x w2 where
    s: "wanted w (fi_Name f) = Some x" "ok w2" "reg w2 = (reg w)(RuntimeName (fi_Name f) \<mapsto> x)" "wanted w2 = wanted w"
    "install_loop inst add files (any \<or> reg w (RuntimeName (fi_Name f)) \<noteq> Some x) w2 = (Ret (Inr ch), w')" by blast
  from Cons.prems(4) s(1) have "reg w (RuntimeName (fi_Name f)) = Some x" by auto
  with s have eq: "reg w2 = reg w" "install_loop inst add files any w2 = (Ret (Inr ch), w')"
    by (simp_all add: fun_upd_idem)
  show ?case using Cons.IH [OF eq(2) s(2)] Cons.prems(3,4) eq(1) s(4) by auto
qed simp

lemma loop_changed:
  "install_loop inst add files any w = (Ret (Inr False), w') \<Longrightarrow> ok w
    \<Longrightarrow> \<forall>f \<in> set files. valid (fi_Name f) \<Longrightarrow> \<not> any \<and> reg w' = reg w"
proof (induction files arbitrary: any w)
  case (Cons f files)
  from Cons.prems have v: "valid (fi_Name f)" by simp
  from loop_step [OF Cons.prems(1) v Cons.prems(2)] obtain x w2 where
    s: "ok w2" "reg w2 = (reg w)(RuntimeName (fi_Name f) \<mapsto> x)"
    "install_loop inst add files (any \<or> reg w (RuntimeName (fi_Name f)) \<noteq> Some x) w2 = (Ret (Inr False), w')" by blast
  from Cons.IH [OF s(3,1)] Cons.prems(3) s(2) show ?case by (metis fun_upd_triv list.set_intros(2))
qed simp

lemma loop_no_panic:
  "install_loop inst add files any w = (r, w') \<Longrightarrow> ok w \<Longrightarrow> \<forall>f \<in> set files. valid (fi_Name f) \<Longrightarrow> \<exists>x. r = Ret x"
proof (induction files arbitrary: any w)
  case (Cons f files)
  obtain o1 w1 where inst: "inst (fi_Name f) w = (o1, w1)" by fastforce
  from inst_no_panic [OF _ Cons.prems(2) inst] Cons.prems(3) obtain p c e where o1: "o1 = Ret (p, c, e)" by auto
  show ?case
  proof (cases e)
    case None
    have ok1: "ok w1" using inst_update [OF _ Cons.prems(2)] inst o1 None Cons.prems(3) by auto
    obtain e2 w2 where add: "add p w1 = (e2, w2)" by fastforce
    show ?thesis
      using Cons.IH [of "any \<or> c" w2] Cons.prems inst o1 None add add_keeps [OF add ok1] by (cases e2) auto
  qed (use Cons.prems inst o1 in auto)
qed auto

end

section \<open>The installer on a host\<close>

text \<open>
  The configuration file of containerd is not the lock file. Adding a runtime then leaves the
  lock file and the assets alone.
\<close>

locale node_host = shim_host host root assets rcm
  for host root :: "'w afero" and assets rcm :: path +
  fixes conf :: path
    and restart :: "'w \<Rightarrow> error option \<times> 'w"
    and opts :: "string gomap"
    and iter :: "path \<Rightarrow> (string \<times> string) list"
  assumes conf_apart: "\<not> under (lock_path rcm) conf"
begin

abbreviation ncfg :: "'w containerd_Config" where
  "ncfg \<equiv> containerd_NewConfig host conf restart opts"

lemma AddRuntime_frame:
  assumes "AddRuntime ncfg order p w = (r, w')"
  shows "(\<not> under q conf \<longrightarrow> fs_ReadFile host q w' = fs_ReadFile host q w)
    \<and> (under assets a \<longrightarrow> fs_Blocks root a w' = fs_Blocks root a w)"
proof (cases "\<exists>d. fs_ReadFile host conf w = Inr d \<and> \<not> Contains d (runtime_of p)")
  case False
  then have "w' = w"
    using assms by (auto simp: AddRuntime_def containerd_NewConfig_def Let_def split: sum.splits)
  then show ?thesis by simp
next
  case True
  then obtain d where d: "fs_ReadFile host conf w = Inr d" "\<not> Contains d (runtime_of p)" by blast
  obtain e1 w1 where opn: "fs_OpenFile host conf [O_APPEND, O_WRONLY] 420 w = (e1, w1)" by fastforce
  obtain n e2 w2 where wr: "fs_Write host conf (generateConfig p (runtime_of p) order d) w1 = ((n, e2), w2)"
    by (metis prod.collapse)
  obtain e3 w3 where cl: "fs_Close host conf w2 = (e3, w3)" by fastforce
  have "w' = (if e1 = None then w3 else w1)"
    using assms d opn wr cl by (auto simp: AddRuntime_def containerd_NewConfig_def Let_def split: option.splits)
  then show ?thesis
    using frame_OpenFile [OF opn] frame_Write [OF wr] read_Close [OF cl] sep_OpenFile [OF opn] sep_Write [OF wr]
      sep_Close [OF cl] by auto
qed

end

sublocale node_host \<subseteq> installer: shim_installer "host_ok host rcm" "recorded host rcm" "wanted_shim root assets rcm"
  "shim_file rcm" "Install cfg" "Uninstall cfg" "\<lambda>p. AddRuntime ncfg (iter p) p"
proof
  fix p w r w' assume a: "AddRuntime ncfg (iter p) p w = (r, w')" and ok: "host_ok host rcm w"
  have "fs_ReadFile host (lock_path rcm) w' = fs_ReadFile host (lock_path rcm) w"
    using AddRuntime_frame [OF a] conf_apart by blast
  from recorded_cong [OF this] have "recorded host rcm w' = recorded host rcm w" "host_ok host rcm w'"
    using ok by (simp_all add: host_ok_def)
  moreover have "wanted_shim root assets rcm w' = wanted_shim root assets rcm w"
    using AddRuntime_frame [OF a] asset_below by (auto simp: wanted_shim_def fun_eq_iff)
  ultimately show "host_ok host rcm w' \<and> recorded host rcm w' = recorded host rcm w
      \<and> wanted_shim root assets rcm w' = wanted_shim root assets rcm w" by blast
qed

lemma node_host_iff: "node_host host root assets rcm conf \<longleftrightarrow> installer_fs host root assets \<and> \<not> under (lock_path rcm) conf"
  by (simp add: node_host_def node_host_axioms_def shim_host_def)

text \<open>The files a run installs have names the lock file can represent, and different runtime names.\<close>

definition files_ok :: "path \<Rightarrow> file_info list \<Rightarrow> bool" where
  "files_ok rcm files \<longleftrightarrow> (\<forall>f \<in> set files. shim_file rcm (fi_Name f))
     \<and> distinct (map (\<lambda>f. RuntimeName (fi_Name f)) files)"

definition all_recorded :: "'w afero \<Rightarrow> 'w afero \<Rightarrow> path \<Rightarrow> path \<Rightarrow> file_info list \<Rightarrow> 'w \<Rightarrow> bool" where
  "all_recorded host root rcm assets files w \<longleftrightarrow>
     (\<forall>f \<in> set files. \<exists>x. wanted_shim root assets rcm w (fi_Name f) = Some x
        \<and> recorded host rcm w (RuntimeName (fi_Name f)) = Some x)"

context node_host
begin

abbreviation loop :: "file_info list \<Rightarrow> bool \<Rightarrow> 'w \<Rightarrow> (error + bool) outcome \<times> 'w" where
  "loop \<equiv> install_loop (Install cfg) (\<lambda>p. AddRuntime ncfg (iter p) p)"

lemma loop_all_recorded:
  assumes "loop files any w = (Ret (Inr ch), w')" "host_ok host rcm w" "files_ok rcm files"
  shows "host_ok host rcm w'" "all_recorded host root rcm assets files w'"
    "wanted_shim root assets rcm w' = wanted_shim root assets rcm w"
    "\<not> ch \<Longrightarrow> recorded host rcm w' = recorded host rcm w"
  using installer.loop_records [OF assms(1,2)] installer.loop_changed [of files any w w'] assms
  by (auto simp: files_ok_def all_recorded_def)

lemma loop_others:
  assumes "loop files any w = (Ret (Inr ch), w')" "host_ok host rcm w" "files_ok rcm files"
  shows "\<forall>k. k \<notin> (\<lambda>f. RuntimeName (fi_Name f)) ` set files \<longrightarrow> recorded host rcm w' k = recorded host rcm w k"
  using installer.loop_records [OF assms(1,2)] assms(3) by (simp add: files_ok_def)

lemma loop_again:
  assumes "loop files any w = (Ret (Inr ch), w')" "host_ok host rcm w" "files_ok rcm files"
    and "all_recorded host root rcm assets files w"
  shows "ch = any" "recorded host rcm w' = recorded host rcm w"
  using installer.loop_up_to_date [OF assms(1,2)] assms(3,4) by (auto simp: files_ok_def all_recorded_def)

end

lemma demo_conf_apart: "\<not> under (lock_path ''/opt/rcm'') ''/etc/containerd/config.toml''"
  by code_simp

interpretation node_mem: node_host "on_snd mem_fs" "on_fst mem_fs :: (mem \<times> mem) afero" assets "''/opt/rcm''"
  "''/etc/containerd/config.toml''" restart opts iter
  for assets restart opts iter
  by (simp add: node_host_iff installer_mem.installer_fs_axioms demo_conf_apart)

text \<open>The configuration file of containerd is outside of the directory of the shims.\<close>

definition conf_outside :: "path \<Rightarrow> path \<Rightarrow> bool" where
  "conf_outside rcm conf \<longleftrightarrow> \<not> under rcm conf \<and> \<not> under conf rcm"

lemma conf_outside_apart:
  assumes "conf_outside rcm conf" "file_name s"
  shows "\<not> under (lock_path rcm) conf" "\<not> under conf (lock_path rcm)"
    "\<not> under (bin_path rcm s) conf" "\<not> under conf (bin_path rcm s)"
proof -
  have down: "\<not> prefix (segs rcm @ xs) (segs conf)" for xs
    using assms(1) by (auto simp: conf_outside_def under_def dest: append_prefixD)
  have up: "\<not> prefix (segs conf) (segs rcm @ xs)" for xs
    using assms(1) by (auto simp: conf_outside_def under_def prefix_append)
  show "\<not> under (lock_path rcm) conf" "\<not> under conf (lock_path rcm)"
    "\<not> under (bin_path rcm s) conf" "\<not> under conf (bin_path rcm s)"
    unfolding under_def segs_lock segs_bin [OF assms(2)] using down up by blast+
qed

context node_host
begin

abbreviation copied :: "'w \<Rightarrow> 'w \<Rightarrow> string \<Rightarrow> bool" where
  "copied w w' s \<equiv> \<exists>bs. fs_Blocks root (asset_path assets s) w = (bs, None) \<and> fs_ReadFile host (bin_path rcm s) w' = Inr (concat bs)"

lemma Install_binary:
  assumes "shim_file rcm s" "host_ok host rcm w" "Install cfg s w = (Ret (p, ch, None), w')"
  shows "copied w w' s" "\<And>t. file_name t \<Longrightarrow> t \<noteq> s \<Longrightarrow> fs_ReadFile host (bin_path rcm t) w' = fs_ReadFile host (bin_path rcm t) w"
proof -
  have "lock_ok host rcm w" "file_name s" using assms(1,2) by (simp_all add: host_ok_def shim_file_def)
  from assms(1) this(1) assms(3) have "copied w w' s \<and> (\<forall>t. file_name t \<longrightarrow> t \<noteq> s
      \<longrightarrow> fs_ReadFile host (bin_path rcm t) w' = fs_ReadFile host (bin_path rcm t) w)"
    by (cases rule: Install_cases) (auto simp: bin_path_apart [OF \<open>file_name s\<close>])
  then show "copied w w' s" "\<And>t. file_name t \<Longrightarrow> t \<noteq> s \<Longrightarrow> fs_ReadFile host (bin_path rcm t) w' = fs_ReadFile host (bin_path rcm t) w"
    by blast+
qed

text \<open>The loop leaves the binaries of all its files, and no other one is written.\<close>

lemma loop_binaries:
  "loop files any w = (Ret (Inr ch), w') \<Longrightarrow> host_ok host rcm w \<Longrightarrow> files_ok rcm files \<Longrightarrow> conf_outside rcm conf
    \<Longrightarrow> (\<forall>f \<in> set files. copied w w' (fi_Name f))
      \<and> (\<forall>t. file_name t \<longrightarrow> t \<notin> fi_Name ` set files \<longrightarrow> fs_ReadFile host (bin_path rcm t) w' = fs_ReadFile host (bin_path rcm t) w)"
proof (induction files arbitrary: any w)
  case (Cons f files)
  let ?s = "fi_Name f"
  have names: "shim_file rcm ?s" "file_name ?s" "files_ok rcm files" "?s \<notin> fi_Name ` set files"
    "\<forall>g \<in> set files. file_name (fi_Name g)" using Cons.prems(3) by (auto simp: files_ok_def shim_file_def)
  obtain p c w1 w2 where i: "Install cfg ?s w = (Ret (p, c, None), w1)" and a: "AddRuntime ncfg (iter p) p w1 = (None, w2)"
    and rest: "loop files (any \<or> c) w2 = (Ret (Inr ch), w')"
    using Cons.prems(1) by (auto split: prod.splits outcome.splits option.splits)
  note bin = Install_binary [OF names(1) Cons.prems(2) i]
  have add: "fs_ReadFile host (bin_path rcm t) w2 = fs_ReadFile host (bin_path rcm t) w1" if "file_name t" for t
    using AddRuntime_frame [OF a] conf_outside_apart(3) [OF Cons.prems(4) that] by blast
  have ok: "host_ok host rcm w2"
    using installer.add_keeps [OF a Install_host_ok [OF names(1) Cons.prems(2) i]] by blast
  have assets: "fs_Blocks root (asset_path assets t) w2 = fs_Blocks root (asset_path assets t) w" if "file_name t" for t
    using AddRuntime_frame [OF a] sep_Install [OF i] asset_below [OF that] by simp
  note IH = Cons.IH [OF rest ok names(3) Cons.prems(4)]
  have "copied w w' ?s" using bin(1) add [OF names(2)] IH names(2,4) by auto
  moreover have "\<forall>g \<in> set files. copied w w' (fi_Name g)" using IH assets names(5) by simp
  moreover have "fs_ReadFile host (bin_path rcm t) w' = fs_ReadFile host (bin_path rcm t) w"
    if "file_name t" "t \<notin> fi_Name ` set (f # files)" for t
    using IH that add bin(2) by simp
  ultimately show ?case by simp
qed auto

end

section \<open>Commands that leave an observation alone\<close>

definition preserves :: "('w \<Rightarrow> 'b) \<Rightarrow> ('w \<Rightarrow> 'r \<times> 'w) \<Rightarrow> bool" where
  "preserves P f \<longleftrightarrow> (\<forall>w r w'. f w = (r, w') \<longrightarrow> P w' = P w)"

lemma preservesD: "preserves P f \<Longrightarrow> f w = (r, w') \<Longrightarrow> P w' = P w"
  by (auto simp: preserves_def)

lemma preserves_cmd_Run: "\<forall>cmd. preserves P (os_Exec os cmd) \<Longrightarrow> preserves P (cmd_Run os cmd)"
  by (auto simp: preserves_def cmd_Run_def split: prod.splits)

lemma preserves_InstallDbus:
  assumes exec: "\<forall>cmd. preserves P (os_Exec os cmd)"
  shows "preserves P (InstallDbus os)"
proof -
  note run = preserves_cmd_Run [OF exec]
  have inst: "preserves P (install_with os m)" for m
    using run unfolding preserves_def install_with_def by (fastforce split: prod.splits option.splits if_splits)
  have "preserves P (try_managers os ms)" for ms
  proof (induction ms)
    case (Cons m ms)
    show ?case
      unfolding preserves_def
    proof (intro allI impI)
      fix w r w' assume r: "try_managers os (m # ms) w = (r, w')"
      obtain e1 w1 where c: "cmd_Run os (pm_check m) w = (e1, w1)" by fastforce
      obtain e2 w2 where i: "install_with os m w1 = (e2, w2)" by fastforce
      have "P w' = P w1"
        using r c i preservesD [OF inst i] preservesD [OF Cons] by (auto split: option.splits)
      with preservesD [OF run c] show "P w' = P w" by simp
    qed
  qed (simp add: preserves_def)
  then show ?thesis
    using run unfolding preserves_def InstallDbus_def
    by (fastforce split: prod.splits option.splits sum.splits bool.splits)
qed

lemma preserves_restart_containerd:
  assumes exec: "\<forall>cmd. preserves P (os_Exec os cmd)" and restart: "preserves P restart"
  shows "preserves P (restart_containerd os (containerd_NewConfig host conf restart opts))"
  unfolding preserves_def
proof (intro allI impI)
  let ?cc = "containerd_NewConfig host conf restart opts"
  fix w r w' assume run: "restart_containerd os ?cc w = (r, w')"
  obtain out e1 w1 where l: "ListSystemdUnits os w = ((out, e1), w1)" by (metis prod.collapse)
  have 1: "P w1 = P w"
    using preservesD [OF exec [rule_format]] l unfolding ListSystemdUnits_def CombinedOutput_def by blast
  obtain e2 w2 where d: "(if e1 = None then InstallDbus os w1 else (None, w1)) = (e2, w2)" by fastforce
  then have 2: "P w2 = P w1"
    using preservesD [OF preserves_InstallDbus [OF exec]] by (auto split: if_splits)
  obtain e3 w3 where r: "restart w2 = (e3, w3)" by fastforce
  have "w' = w2 \<or> w' = w3"
    using run l d r by (auto simp: restart_containerd_def RestartRuntime_def containerd_NewConfig_def split: option.splits)
  with 1 2 preservesD [OF restart r] show "P w' = P w" by auto
qed

section \<open>Properties of \<open>RunInstall\<close>\<close>

text \<open>\<open>RunInstall\<close> after the files have been found, in terms of the loop.\<close>

lemma RunInstall_loop:
  assumes "asset_files root (RCM_AssetPath config) w = Inr (files, assets)"
  shows "RunInstall os iter config root host restart w =
    (case install_loop (Install (shim_NewConfig root host assets (RCM_Path config)))
        (\<lambda>p. AddRuntime (containerd_NewConfig host (Runtime_ConfigPath config) restart (Runtime_Options config)) (iter p) p)
        files False w of
       (Panic m, w1) \<Rightarrow> (Panic m, w1)
     | (Ret (Inl err), w1) \<Rightarrow> (Ret (Some err), w1)
     | (Ret (Inr ch), w1) \<Rightarrow>
         if \<not> ch then (Ret None, w1)
         else (case restart_containerd os (containerd_NewConfig host (Runtime_ConfigPath config) restart (Runtime_Options config)) w1
               of (err, w2) \<Rightarrow> (Ret err, w2)))"
  by (simp add: RunInstall_def assms Let_def)

lemma restart_containerd_ok:
  assumes "restart_containerd os (containerd_NewConfig host conf restart opts) w = (None, w')"
  shows "\<exists>w2. restart w2 = (None, w')"
  using assms
  by (auto simp: restart_containerd_def RestartRuntime_def containerd_NewConfig_def split: prod.splits option.splits if_splits)

lemma AddRuntime_restart_irrelevant:
  "AddRuntime (containerd_NewConfig host conf r opts) = AddRuntime (containerd_NewConfig host conf r' opts)"
  unfolding AddRuntime_def containerd_NewConfig_def containerd_Config.simps by (rule refl)

text \<open>
  When every asset is recorded with its current digest, \<open>RunInstall\<close> runs no command and does
  not restart containerd: its result does not depend on the operating system or the restarter.
\<close>

lemma RunInstall_no_commands:
  assumes fs: "installer_fs host root assets" "\<not> under (lock_path (RCM_Path config)) (Runtime_ConfigPath config)"
    and files: "asset_files root (RCM_AssetPath config) w = Inr (files, assets)" "files_ok (RCM_Path config) files"
    and ok: "host_ok host (RCM_Path config) w" and rec: "all_recorded host root (RCM_Path config) assets files w"
  shows "RunInstall os iter config root host restart w = RunInstall os' iter config root host restart' w"
proof -
  let ?loop = "install_loop (Install (shim_NewConfig root host assets (RCM_Path config)))
    (\<lambda>p. AddRuntime (containerd_NewConfig host (Runtime_ConfigPath config) restart (Runtime_Options config)) (iter p) p)"
  have node: "node_host host root assets (RCM_Path config) (Runtime_ConfigPath config)" using fs by (simp add: node_host_iff)
  have "\<not> ch" if "?loop files False w = (Ret (Inr ch), w1)" for ch w1
    using node_host.loop_again(1) [OF node that ok files(2) rec] by simp
  then show ?thesis
    unfolding RunInstall_loop [OF files(1)]
      AddRuntime_restart_irrelevant [of host "Runtime_ConfigPath config" restart' "Runtime_Options config" restart]
    by (auto split: prod.splits outcome.splits sum.splits)
qed

text \<open>
  C7. What a successful \<open>RunInstall\<close> leaves behind: the host has a copy of every asset, the lock file records each one
  with its digest and path and says of every other shim what it said before. If the lock file has changed, the last
  thing that was done is to restart containerd, after D-Bus was looked after, and that succeeded; if it has not, then no command was
  run and nothing was restarted: the same happens with any other operating system and restarter. (The commands and
  the restarter are assumed to leave the lock file, the binaries and the assets alone.)
\<close>

theorem RunInstall_success:
  assumes fs: "installer_fs host root assets" "conf_outside rcm conf"
    and cfgs: "RCM_Path config = rcm" "Runtime_ConfigPath config = conf"
    and files: "asset_files root (RCM_AssetPath config) w = Inr (files, assets)" "files_ok rcm files"
    and ok: "host_ok host rcm w"
    and obs: "P = (\<lambda>w. (fs_ReadFile host (lock_path rcm) w, \<lambda>s. fs_ReadFile host (bin_path rcm s) w,
        \<lambda>s. fs_Blocks root (asset_path assets s) w))"
    and quiet: "\<forall>cmd. preserves P (os_Exec os cmd)" "preserves P restart"
    and run: "RunInstall os iter config root host restart w = (Ret None, w')"
  shows "host_ok host rcm w' \<and> all_recorded host root rcm assets files w'
    \<and> (\<forall>f \<in> set files. \<exists>bs. fs_Blocks root (asset_path assets (fi_Name f)) w = (bs, None)
         \<and> fs_ReadFile host (bin_path rcm (fi_Name f)) w' = Inr (concat bs))
    \<and> (\<forall>k. k \<notin> (\<lambda>f. RuntimeName (fi_Name f)) ` set files \<longrightarrow> recorded host rcm w' k = recorded host rcm w k)
    \<and> (if recorded host rcm w' = recorded host rcm w
       then \<forall>os' restart'. RunInstall os' iter config root host restart' w = (Ret None, w')
       else \<exists>w1 w2. P w1 = P w' \<and> P w2 = P w' \<and> restart w2 = (None, w')
         \<and> restart_containerd os (containerd_NewConfig host conf restart (Runtime_Options config)) w1 = (None, w'))"
proof -
  let ?cc = "containerd_NewConfig host conf restart (Runtime_Options config)"
  let ?loop = "install_loop (Install (shim_NewConfig root host assets rcm)) (\<lambda>p. AddRuntime ?cc (iter p) p)"
  have "file_name ''bin''" by simp
  then have apart: "\<not> under (lock_path rcm) conf" by (rule conf_outside_apart(1) [OF fs(2)])
  then have node: "node_host host root assets rcm conf" using fs(1) by (simp add: node_host_iff)
  obtain ch w1 where loop: "?loop files False w = (Ret (Inr ch), w1)"
    and fin: "if ch then restart_containerd os ?cc w1 = (None, w') else w' = w1"
    using run unfolding RunInstall_loop [OF files(1)] cfgs
    by (auto split: prod.splits outcome.splits sum.splits if_splits)
  have P: "P w' = P w1" using fin preservesD [OF preserves_restart_containerd [OF quiet]] by (auto split: if_splits)
  then have same: "fs_ReadFile host (lock_path rcm) w' = fs_ReadFile host (lock_path rcm) w1"
    "\<And>s. fs_ReadFile host (bin_path rcm s) w' = fs_ReadFile host (bin_path rcm s) w1"
    "\<And>s. fs_Blocks root (asset_path assets s) w' = fs_Blocks root (asset_path assets s) w1" by (simp_all add: obs fun_eq_iff)
  note rec = node_host.loop_all_recorded [OF node loop ok files(2)]
  have wanted: "wanted_shim root assets rcm w' = wanted_shim root assets rcm w1" by (rule wanted_cong) (rule same(3))
  have now: "host_ok host rcm w'" "all_recorded host root rcm assets files w'"
    using rec(1,2) recorded_cong [OF same(1)] wanted by (simp_all add: host_ok_def all_recorded_def)
  have copied: "\<forall>f \<in> set files. \<exists>bs. fs_Blocks root (asset_path assets (fi_Name f)) w = (bs, None)
         \<and> fs_ReadFile host (bin_path rcm (fi_Name f)) w' = Inr (concat bs)"
    using node_host.loop_binaries [OF node loop ok files(2) fs(2)] by (simp add: same(2))
  have others: "\<forall>k. k \<notin> (\<lambda>f. RuntimeName (fi_Name f)) ` set files \<longrightarrow> recorded host rcm w' k = recorded host rcm w k"
    using node_host.loop_others [OF node loop ok files(2)] recorded_cong(1) [OF same(1)] by simp
  have last: "if recorded host rcm w' = recorded host rcm w
       then \<forall>os' restart'. RunInstall os' iter config root host restart' w = (Ret None, w')
       else \<exists>w1 w2. P w1 = P w' \<and> P w2 = P w' \<and> restart w2 = (None, w') \<and> restart_containerd os ?cc w1 = (None, w')"
  proof (cases "recorded host rcm w' = recorded host rcm w")
    case True
    then have "all_recorded host root rcm assets files w"
      using now(2) wanted rec(3) by (simp add: all_recorded_def)
    from RunInstall_no_commands [of host root assets config w files, OF fs(1) _ files(1)] this apart cfgs ok files(2) run True
    show ?thesis by metis
  next
    case False
    then have ch using rec(4) recorded_cong(1) [OF same(1)] by auto
    with fin have w1: "restart_containerd os ?cc w1 = (None, w')" by simp
    obtain w2 where w2: "restart w2 = (None, w')" using restart_containerd_ok [OF w1] by (elim exE)
    have "P w2 = P w'" using preservesD [OF quiet(2) w2] by (rule sym)
    with w1 w2 P show ?thesis unfolding if_not_P [OF False] by (intro exI [of _ w1] exI [of _ w2] conjI) (rule sym, assumption+)
  qed
  show ?thesis by (intro conjI) (rule now copied others last)+
qed

text \<open>
  C34. A failed restart is not made up for: when a run has installed its shims and the restart of
  containerd fails, the next run finds them recorded, and whatever the operating system and the
  restarter would do, it does not ask them; containerd keeps running with the old configuration.
  (The commands and the restarter are assumed to leave the lock file and the assets alone.)
\<close>

theorem RunInstall_failed_restart_not_retried:
  assumes fs: "installer_fs host root assets" "\<not> under (lock_path (RCM_Path config)) (Runtime_ConfigPath config)"
    and files: "asset_files root (RCM_AssetPath config) w = Inr (files, assets)" "files_ok (RCM_Path config) files"
    and ok: "host_ok host (RCM_Path config) w"
    and obs: "P = (\<lambda>w. (fs_ReadFile host (lock_path (RCM_Path config)) w, \<lambda>s. fs_Blocks root (asset_path assets s) w))"
    and quiet: "\<forall>cmd. preserves P (os_Exec os cmd)" "preserves P restart"
    and run: "RunInstall os iter config root host restart w = (Ret (Some (Wrap ''failed to restart containerd'' e)), w2)"
    and files2: "asset_files root (RCM_AssetPath config) w2 = Inr (files, assets)"
  shows "RunInstall os' iter config root host restart' w2 = RunInstall os'' iter config root host restart'' w2"
proof -
  let ?cc = "containerd_NewConfig host (Runtime_ConfigPath config) restart (Runtime_Options config)"
  let ?loop = "install_loop (Install (shim_NewConfig root host assets (RCM_Path config))) (\<lambda>p. AddRuntime ?cc (iter p) p)"
  have node: "node_host host root assets (RCM_Path config) (Runtime_ConfigPath config)" using fs by (simp add: node_host_iff)
  have no_loop_error: "?loop fs' any v \<noteq> (Ret (Inl (Wrap ''failed to restart containerd'' e)), v')" for fs' any v v'
    by (induction fs' arbitrary: any v) (auto split: prod.splits outcome.splits option.splits)
  then obtain w1 where loop: "?loop files False w = (Ret (Inr True), w1)"
    and restarted: "restart_containerd os ?cc w1 = (Some (Wrap ''failed to restart containerd'' e), w2)"
    using run unfolding RunInstall_loop [OF files(1)]
    by (auto split: prod.splits outcome.splits sum.splits if_splits)
  note rec = node_host.loop_all_recorded [OF node loop ok files(2)]
  have P: "P w2 = P w1" by (rule preservesD [OF preserves_restart_containerd [OF quiet] restarted])
  then have "fs_ReadFile host (lock_path (RCM_Path config)) w2 = fs_ReadFile host (lock_path (RCM_Path config)) w1"
    and blocks: "\<And>s. fs_Blocks root (asset_path assets s) w2 = fs_Blocks root (asset_path assets s) w1" by (simp_all add: obs fun_eq_iff)
  from recorded_cong [OF this(1)] wanted_cong [of root assets, OF blocks] rec(1,2)
  have "host_ok host (RCM_Path config) w2" "all_recorded host root (RCM_Path config) assets files w2"
    by (simp_all add: host_ok_def all_recorded_def)
  from RunInstall_no_commands [OF fs files2 files(2) this] show ?thesis .
qed

subsection \<open>A run on the reference file systems\<close>

lemma node_conf_outside: "conf_outside ''/opt/rcm'' ''/etc/containerd/config.toml''"
  by code_simp

lemma mem_AddRuntime_snd:
  assumes "\<not> mem_ro m" "mem_get conf m = Some d"
  shows "\<exists>m'. AddRuntime (containerd_NewConfig (on_snd mem_fs) conf r opts) order p (a, m) = (None, (a, m'))
    \<and> (m' = m \<or> (\<exists>x. m' = mem_put conf x m)) \<and> mem_get conf m' = Some (add_text order p d)"
  using assms
  by (auto simp: AddRuntime_def containerd_NewConfig_def on_snd_def mem_fs_def mem_defs Let_def add_text_def mem_get_put)

definition node_world :: "mem \<times> mem" where
  "node_world =
     (empty_mem\<lparr>mem_files := [(''/assets/containerd-shim-spin-v2'', ''ELF'')], mem_dirs := [''/assets'']\<rparr>,
      empty_mem\<lparr>mem_files := [(''/etc/containerd/config.toml'', ''version = 2'')]\<rparr>)"

definition node_config :: Config where
  "node_config = auto_config\<lparr>Runtime_ConfigPath := ''/etc/containerd/config.toml''\<rparr>"

definition spin_file :: file_info where
  "spin_file = \<lparr>fi_Name = ''containerd-shim-spin-v2'', fi_IsDir = False\<rparr>"

definition quiet_os :: "'w host_os" where
  "quiet_os =
     \<lparr>os_Exec = (\<lambda>cmd w. (([], Some (ExecError ''exit status 1'')), w)), os_Processes = (\<lambda>w. Inr []),
      os_Kill = (\<lambda>pid s w. (None, w)), os_Getenv = (\<lambda>v. [])\<rparr>"

lemma node_asset_files:
  "asset_files (on_fst mem_fs) (RCM_AssetPath node_config) (fst node_world, m) = Inr ([spin_file], ''/assets'')"
proof -
  have "mem_ReadDir ''/assets'' (fst node_world) = Inr [spin_file]" "mem_isdir ''/assets'' (fst node_world)"
    "mem_get ''/assets'' (fst node_world) = None"
    by code_simp+
  then show ?thesis
    by (simp add: asset_files_def node_config_def auto_config_def on_fst_def mem_fs_def mem_Stat_def)
qed

lemma node_files_ok: "files_ok ''/opt/rcm'' [spin_file]"
  using demo_shim_file by (simp add: files_ok_def spin_file_def)

lemma node_world_ok:
  "host_ok (on_snd mem_fs) ''/opt/rcm'' node_world"
  "recorded (on_snd mem_fs) ''/opt/rcm'' node_world = Map.empty"
  "host_ready ''/opt/rcm'' ''containerd-shim-spin-v2'' (snd node_world)"
  "mem_get (asset_path ''/assets'' ''containerd-shim-spin-v2'') (fst node_world) = Some ''ELF''"
  "mem_get ''/etc/containerd/config.toml'' (snd node_world) = Some ''version = 2''"
proof -
  have "mem_ReadFile (lock_path ''/opt/rcm'') (snd node_world) = Inl ErrNotExist" by code_simp
  then have get: "Get (on_snd mem_fs) ''/opt/rcm'' node_world = (Some (new_State (on_snd mem_fs) ''/opt/rcm''), None)"
    by (simp add: Get_def Let_def on_snd_def mem_fs_def new_State_def lock_path_def)
  show rec: "recorded (on_snd mem_fs) ''/opt/rcm'' node_world = Map.empty"
    by (simp add: recorded_def get new_State_def map_get_def fun_eq_iff)
  show "host_ok (on_snd mem_fs) ''/opt/rcm'' node_world" by (simp add: host_ok_def lock_ok_def get rec)
qed code_simp+

lemma conf_bin_apart:
  "\<not> under ''/etc/containerd/config.toml'' (lock_path ''/opt/rcm'')"
  "\<not> under ''/etc/containerd/config.toml'' (bin_path ''/opt/rcm'' ''containerd-shim-spin-v2'')"
  by code_simp+

definition spin_bin :: path where
  "spin_bin = bin_path ''/opt/rcm'' ''containerd-shim-spin-v2''"

text \<open>The other files of the host are as before.\<close>

definition same_elsewhere :: "mem \<Rightarrow> bool" where
  "same_elsewhere m \<longleftrightarrow> (\<forall>q. \<not> under q (lock_path ''/opt/rcm'') \<and> \<not> under q spin_bin \<and> \<not> under q ''/etc/containerd/config.toml''
     \<longrightarrow> mem_ReadFile q m = mem_ReadFile q (snd node_world))"

text \<open>The loop runs to its end and reports a change.\<close>

lemma node_loop:
  "\<exists>m'. install_loop (Install (shim_NewConfig (on_fst mem_fs) (on_snd mem_fs) ''/assets'' ''/opt/rcm''))
     (\<lambda>p. AddRuntime (containerd_NewConfig (on_snd mem_fs) ''/etc/containerd/config.toml'' restart opts) (iter p) p)
     [spin_file] False node_world = (Ret (Inr True), (fst node_world, m'))
   \<and> host_ready ''/opt/rcm'' ''containerd-shim-spin-v2'' m' \<and> \<not> mem_isdir ''/etc/containerd/config.toml'' m'
   \<and> mem_get ''/etc/containerd/config.toml'' m'
       = Some (add_text (iter spin_bin) spin_bin ''version = 2'')
   \<and> same_elsewhere m'"
proof -
  let ?s = "''containerd-shim-spin-v2''" and ?c = "''/etc/containerd/config.toml''"
  have lock: "lock_ok (on_snd mem_fs) ''/opt/rcm'' (fst node_world, snd node_world)"
    using node_world_ok(1) by (simp add: host_ok_def)
  from mem_Install_succeeds [OF demo_shim_file lock node_world_ok(3,4)] obtain ch m1 where
    inst: "Install (shim_NewConfig (on_fst mem_fs) (on_snd mem_fs) ''/assets'' ''/opt/rcm'') ?s node_world
      = (Ret (bin_path ''/opt/rcm'' ?s, ch, None), (fst node_world, m1))"
    and ready: "host_ready ''/opt/rcm'' ?s m1"
    and dirs: "\<forall>q. mem_isdir q m1 \<longleftrightarrow> under q (path_Dir (bin_path ''/opt/rcm'' ?s)) \<or> mem_isdir q (snd node_world)"
    by auto
  have ch using rcm_mem.store.inst_update [OF demo_shim_file node_world_ok(1) inst] node_world_ok(2) by auto
  have "lock_ok (on_snd mem_fs) ''/opt/rcm'' node_world" using lock by simp
  from demo_shim_file this inst have others: "fs_ReadFile (on_snd mem_fs) q (fst node_world, m1) = fs_ReadFile (on_snd mem_fs) q node_world"
    if "\<not> under q (lock_path ''/opt/rcm'')" "\<not> under q (bin_path ''/opt/rcm'' ?s)" for q
    by (cases rule: rcm_mem.Install_cases) (auto simp: that)
  from others [OF conf_bin_apart] have c: "mem_get ?c m1 = Some ''version = 2''"
    using node_world_ok(5) by (simp add: on_snd_def mem_fs_def mem_ReadFile_def split: option.splits if_splits)
  have "\<not> mem_ro m1" using ready by (simp add: host_ready_def)
  from mem_AddRuntime_snd [OF this c, of restart opts "iter (bin_path ''/opt/rcm'' ?s)" "bin_path ''/opt/rcm'' ?s" "fst node_world"]
  obtain m2 where
    "AddRuntime (containerd_NewConfig (on_snd mem_fs) ?c restart opts) (iter (bin_path ''/opt/rcm'' ?s)) (bin_path ''/opt/rcm'' ?s)
      (fst node_world, m1) = (None, (fst node_world, m2))"
    and m2: "m2 = m1 \<or> (\<exists>x. m2 = mem_put ?c x m1)"
      "mem_get ?c m2 = Some (add_text (iter spin_bin) spin_bin ''version = 2'')"
    unfolding spin_bin_def by blast
  moreover have "mem_ReadFile q m2 = mem_ReadFile q m1" if "\<not> under q ?c" for q
    using m2(1) not_under_canon [OF that] by (auto simp: mem_ReadFile_def mem_get_put)
  then have "same_elsewhere m2"
    using others by (auto simp: same_elsewhere_def spin_bin_def on_snd_def mem_fs_def)
  moreover have "\<not> mem_isdir ?c m1" unfolding dirs [rule_format] by code_simp
  moreover have "canon (path_Dir (bin_path ''/opt/rcm'' ?s)) \<noteq> canon ?c" by code_simp
  then have "host_ready ''/opt/rcm'' ?s m2" using m2(1) ready by (auto simp: host_ready_def mem_get_put)
  ultimately show ?thesis using inst \<open>ch\<close> by (auto simp: spin_file_def)
qed

lemma node_config_simps:
  "RCM_Path node_config = ''/opt/rcm''" "Runtime_ConfigPath node_config = ''/etc/containerd/config.toml''"
  "Runtime_Options node_config = None"
  by (simp_all add: node_config_def auto_config_def)

lemma node_RunInstall:
  "\<exists>m'. RunInstall quiet_os iter node_config (on_fst mem_fs) (on_snd mem_fs) (\<lambda>w. (e, w)) node_world
     = (Ret (wrap_err ''failed to restart containerd'' e), (fst node_world, m'))
   \<and> host_ready ''/opt/rcm'' ''containerd-shim-spin-v2'' m' \<and> \<not> mem_isdir ''/etc/containerd/config.toml'' m'
   \<and> mem_get ''/etc/containerd/config.toml'' m' = Some (add_text (iter spin_bin) spin_bin ''version = 2'')
   \<and> host_ok (on_snd mem_fs) ''/opt/rcm'' (fst node_world, m')
   \<and> (\<exists>x. Path x = spin_bin \<and> recorded (on_snd mem_fs) ''/opt/rcm'' (fst node_world, m') = [''spin-v2'' \<mapsto> x])
   \<and> same_elsewhere m'"
proof -
  obtain m' where loop: "install_loop (Install (shim_NewConfig (on_fst mem_fs) (on_snd mem_fs) ''/assets'' ''/opt/rcm''))
     (\<lambda>p. AddRuntime (containerd_NewConfig (on_snd mem_fs) ''/etc/containerd/config.toml'' (\<lambda>w. (e, w)) None) (iter p) p)
     [spin_file] False node_world = (Ret (Inr True), (fst node_world, m'))"
    and m': "host_ready ''/opt/rcm'' ''containerd-shim-spin-v2'' m'" "\<not> mem_isdir ''/etc/containerd/config.toml'' m'"
      "mem_get ''/etc/containerd/config.toml'' m' = Some (add_text (iter spin_bin) spin_bin ''version = 2'')" "same_elsewhere m'"
    using node_loop by blast
  have "shim_file ''/opt/rcm'' (fi_Name spin_file)" using demo_shim_file by (simp add: spin_file_def)
  from node_mem.installer.loop_step [OF loop this node_world_ok(1)] obtain x w2 where
    x: "wanted_shim (on_fst mem_fs) ''/assets'' ''/opt/rcm'' node_world (fi_Name spin_file) = Some x"
      "host_ok (on_snd mem_fs) ''/opt/rcm'' w2"
      "recorded (on_snd mem_fs) ''/opt/rcm'' w2 = (recorded (on_snd mem_fs) ''/opt/rcm'' node_world)(RuntimeName (fi_Name spin_file) \<mapsto> x)"
      "install_loop (Install (shim_NewConfig (on_fst mem_fs) (on_snd mem_fs) ''/assets'' ''/opt/rcm''))
        (\<lambda>p. AddRuntime (containerd_NewConfig (on_snd mem_fs) ''/etc/containerd/config.toml'' (\<lambda>w. (e, w)) None) (iter p) p)
        [] (False \<or> recorded (on_snd mem_fs) ''/opt/rcm'' node_world (RuntimeName (fi_Name spin_file)) \<noteq> Some x) w2
        = (Ret (Inr True), (fst node_world, m'))" by blast
  have w2: "w2 = (fst node_world, m')" using x(4) by simp
  have "Path x = spin_bin" using wanted_Path [OF x(1)] by (simp add: spin_bin_def spin_file_def)
  then have rec: "\<exists>x. Path x = spin_bin \<and> recorded (on_snd mem_fs) ''/opt/rcm'' (fst node_world, m') = [''spin-v2'' \<mapsto> x]"
    using x(3) w2 node_world_ok(2) by (auto simp: spin_file_def demo_paths(4))
  have "asset_files (on_fst mem_fs) (RCM_AssetPath node_config) node_world = Inr ([spin_file], ''/assets'')"
    using node_asset_files [of "snd node_world"] by simp
  with loop m' rec x(2) w2 show ?thesis
    by (simp add: RunInstall_loop node_config_simps restart_containerd_def ListSystemdUnits_def CombinedOutput_def
      quiet_os_def RestartRuntime_def containerd_NewConfig_def)
qed

lemmas node_fs = installer_mem.installer_fs_axioms demo_conf_apart [folded node_config_simps(1,2)]

lemma node_assets: "asset_files (on_fst mem_fs) (RCM_AssetPath node_config) node_world = Inr ([spin_file], ''/assets'')"
  using node_asset_files [of "snd node_world"] by simp

theorem RunInstall_success_witness:
  "\<exists>w'. RunInstall quiet_os (\<lambda>_. []) node_config (on_fst mem_fs) (on_snd mem_fs) (\<lambda>w. (None, w)) node_world
       = (Ret None, w')
     \<and> all_recorded (on_snd mem_fs) (on_fst mem_fs) ''/opt/rcm'' ''/assets'' [spin_file] w'
     \<and> fs_ReadFile (on_snd mem_fs) spin_bin w' = Inr ''ELF''"
proof -
  obtain m' where run: "RunInstall quiet_os (\<lambda>_. []) node_config (on_fst mem_fs) (on_snd mem_fs) (\<lambda>w. (None, w)) node_world
       = (Ret None, (fst node_world, m'))"
    using node_RunInstall [of "\<lambda>_. []" None] by (auto simp: wrap_err_def)
  have quiet: "\<forall>cmd. preserves P (os_Exec quiet_os cmd)" "preserves P (\<lambda>w. (None, w))"
    for P :: "mem \<times> mem \<Rightarrow> _" by (simp_all add: preserves_def quiet_os_def)
  have blocks: "fs_Blocks (on_fst mem_fs) (asset_path ''/assets'' ''containerd-shim-spin-v2'') node_world = ([''ELF''], None)"
    using node_world_ok(4) by (simp add: on_fst_def mem_fs_def mem_Blocks_def mem_ReadFile_def)
  from RunInstall_success [OF installer_mem.installer_fs_axioms node_conf_outside node_config_simps(1,2) node_assets node_files_ok
    node_world_ok(1) refl quiet run] run blocks
  show ?thesis by (auto simp: spin_file_def spin_bin_def)
qed

theorem RunInstall_failed_restart_not_retried_witness:
  "\<exists>w2. RunInstall quiet_os (\<lambda>_. []) node_config (on_fst mem_fs) (on_snd mem_fs) (\<lambda>w. (Some ErrNotExist, w)) node_world
       = (Ret (Some (Wrap ''failed to restart containerd'' ErrNotExist)), w2)
     \<and> RunInstall quiet_os (\<lambda>_. []) node_config (on_fst mem_fs) (on_snd mem_fs) (\<lambda>w. (None, w)) w2
       = RunInstall quiet_os (\<lambda>_. []) node_config (on_fst mem_fs) (on_snd mem_fs) (\<lambda>w. (Some ErrNotExist, w)) w2"
proof -
  obtain m' where run: "RunInstall quiet_os (\<lambda>_. []) node_config (on_fst mem_fs) (on_snd mem_fs) (\<lambda>w. (Some ErrNotExist, w)) node_world
       = (Ret (Some (Wrap ''failed to restart containerd'' ErrNotExist)), (fst node_world, m'))"
    using node_RunInstall [of "\<lambda>_. []" "Some ErrNotExist"] by (auto simp: wrap_err_def)
  have quiet: "\<forall>cmd. preserves P (os_Exec quiet_os cmd)" "preserves P (\<lambda>w. (Some ErrNotExist, w))"
    for P :: "mem \<times> mem \<Rightarrow> _" by (simp_all add: preserves_def quiet_os_def)
  from RunInstall_failed_restart_not_retried [OF node_fs node_assets node_files_ok [folded node_config_simps(1)]
    node_world_ok(1) [folded node_config_simps(1)] refl quiet run node_asset_files] run
  show ?thesis by blast
qed

section \<open>Properties of \<open>RunUninstall\<close>\<close>

context node_host
begin

lemma RemoveRuntime_frame:
  assumes "RemoveRuntime ncfg order p w = (r, w')" "\<not> under q conf"
  shows "fs_ReadFile host q w' = fs_ReadFile host q w"
  using assms frame_WriteFile
  by (auto simp: RemoveRuntime_def containerd_NewConfig_def Let_def split: sum.splits prod.splits option.splits if_splits)

lemma RemoveRuntime_recorded:
  assumes "RemoveRuntime ncfg order p w = (r, w')"
  shows "recorded host rcm w' = recorded host rcm w" "lock_ok host rcm w' = lock_ok host rcm w"
  using recorded_cong [OF RemoveRuntime_frame [OF assms conf_apart]] by simp_all

text \<open>The operations on the shims leave the configuration of containerd alone.\<close>

lemma Install_keeps_conf:
  assumes "shim_file rcm s" "host_ok host rcm w" "conf_outside rcm conf" "Install cfg s w = (Ret (p, c, None), w')"
  shows "fs_ReadFile host conf w' = fs_ReadFile host conf w"
proof -
  have "lock_ok host rcm w" "file_name s" using assms(1,2) by (simp_all add: host_ok_def shim_file_def)
  from assms(1) this(1) assms(4) show ?thesis
    by (cases rule: Install_cases) (simp_all add: conf_outside_apart [OF assms(3) \<open>file_name s\<close>])
qed

lemma Uninstall_keeps_conf:
  assumes ok: "host_ok host rcm w" and out: "conf_outside rcm conf" and un: "Uninstall cfg k w = (Ret (p, None), w')"
  shows "fs_ReadFile host conf w' = fs_ReadFile host conf w"
proof (rule Uninstall_cases [OF _ un])
  show "lock_ok host rcm w" using ok by (simp add: host_ok_def)
  have bin: "in_bin rcm (Path y)" if "recorded host rcm w k = Some y" for y
    using ok that by (auto simp: host_ok_def intro: ranI)
  then show "\<not> under (lock_path rcm) (Path y) \<and> \<not> under (Path y) (lock_path rcm)" if "recorded host rcm w k = Some y" for y
    using that by (intro in_bin_apart)
  fix y e assume y: "recorded host rcm w k = Some y"
    "\<And>q. \<not> under q (lock_path rcm) \<Longrightarrow> \<not> under q (Path y) \<Longrightarrow> fs_ReadFile host q w' = fs_ReadFile host q w"
  obtain n where "file_name n" "Path y = bin_path rcm n" using bin [OF y(1)] by (auto simp: in_bin_def)
  then show ?thesis using y(2) conf_outside_apart [OF out] by simp
qed simp_all

text \<open>The two halves of \<open>RunUninstall\<close>, on a host that satisfies its invariant.\<close>

lemma uninstall_steps:
  assumes ok: "host_ok host rcm w" and out: "conf_outside rcm conf"
    and un: "Uninstall cfg k w = (Ret (p, None), w1)" and rm: "RemoveRuntime ncfg order p w1 = ((c, None), w2)"
  shows "\<exists>x d e. recorded host rcm w k = Some x \<and> Path x = p \<and> in_bin rcm p
    \<and> recorded host rcm w2 = (recorded host rcm w)(k := None) \<and> host_ok host rcm w2
    \<and> fs_ReadFile host p w2 = Inl e \<and> is_ErrNotExist e
    \<and> conf_text host conf w = Some d \<and> conf_text host conf w2 = Some (remove_text order p d)
    \<and> c = Contains d (runtime_of p)"
proof -
  obtain x e where x: "recorded host rcm w k = Some x" "Path x = p" "host_ok host rcm w1"
      "recorded host rcm w1 = (recorded host rcm w)(k := None)" "fs_ReadFile host p w1 = Inl e" "is_ErrNotExist e"
    using Uninstall_host_ok [OF ok un] by blast
  have bin: "in_bin rcm p" using ok x(1,2) by (auto simp: host_ok_def intro: ranI)
  then obtain n where n: "file_name n" "p = bin_path rcm n" by (auto simp: in_bin_def)
  note apart = conf_outside_apart [OF out n(1)]
  have "fs_ReadFile host conf w1 = fs_ReadFile host conf w" by (rule Uninstall_keeps_conf [OF ok out un])
  then have same: "conf_text host conf w1 = conf_text host conf w" by (simp add: conf_text_def)
  have "containerd_host host" by (simp add: containerd_host_def afero_fs_axioms)
  from containerd_host.RemoveRuntime_text [OF this rm] obtain d where
    d: "conf_text host conf w1 = Some d" "conf_text host conf w2 = Some (remove_text order p d)" by blast
  moreover have "c = Contains d (runtime_of p)"
    using rm d(1) by (auto simp: conf_text_Some RemoveRuntime_def containerd_NewConfig_def Let_def
      split: prod.splits option.splits if_splits)
  moreover have "fs_ReadFile host p w2 = Inl e"
    using RemoveRuntime_frame [OF rm, of p] apart(3) n(2) x(5) by simp
  ultimately show ?thesis
    using x bin same RemoveRuntime_recorded [OF rm] by (auto simp: host_ok_def)
qed

end

text \<open>What is shown of \<open>Uninstall\<close> for a host and its assets holds for every root file system.\<close>

lemma node_host_empty: "afero_fs host \<Longrightarrow> conf_outside rcm conf \<Longrightarrow> node_host host empty_root assets rcm conf"
  using conf_outside_apart(1) [of rcm conf "''bin''"] by (simp add: node_host_iff empty_root_installer)

lemma Uninstall_empty:
  "Uninstall (shim_NewConfig root host assets rcm) k w = r \<Longrightarrow> Uninstall (shim_NewConfig empty_root host assets rcm) k w = r"
  using Uninstall_root by metis

text \<open>
  C8. A successful \<open>RunUninstall\<close> has removed the binary of the shim, and its record and nothing else
  from the lock file. Where the configuration of containerd has the section of the runtime, as this run writes it
  (with the options in the order in which it visits them), and mentions the runtime nowhere else, exactly that section is
  gone; a configuration that does not have it, because it was written with the options in another order, is
  not changed. Containerd was restarted at the end if the configuration mentioned the runtime.
\<close>

theorem RunUninstall_success:
  assumes fs: "afero_fs host" "conf_outside (RCM_Path config) (Runtime_ConfigPath config)"
    and ok: "host_ok host (RCM_Path config) w"
    and run: "RunUninstall order config root host restart w = (Ret None, w')"
  shows "\<exists>x d d' w2 sec. recorded host (RCM_Path config) w (Runtime_Name config) = Some x
    \<and> recorded host (RCM_Path config) w2 = (recorded host (RCM_Path config) w)(Runtime_Name config := None)
    \<and> (\<exists>e. fs_ReadFile host (Path x) w2 = Inl e \<and> is_ErrNotExist e)
    \<and> conf_text host (Runtime_ConfigPath config) w = Some d
    \<and> conf_text host (Runtime_ConfigPath config) w2 = Some d'
    \<and> sec = generateConfig (Path x) (runtime_of (Path x)) order d
    \<and> (\<not> Contains d sec \<longrightarrow> d' = d)
    \<and> (\<forall>pre post. d = pre @ sec @ post \<and> \<not> Contains pre (runtime_of (Path x)) \<and> \<not> Contains post (runtime_of (Path x))
         \<and> CHR 0x0A \<notin> set (runtime_of (Path x)) \<longrightarrow> d' = pre @ post)
    \<and> (if Contains d (runtime_of (Path x)) then restart w2 = (None, w') else w' = w2)"
proof -
  let ?rcm = "RCM_Path config" and ?conf = "Runtime_ConfigPath config"
  have node: "node_host host empty_root (RCM_AssetPath config) ?rcm ?conf" by (rule node_host_empty [OF fs])
  obtain p c w1 w2 where un: "Uninstall (shim_NewConfig root host (RCM_AssetPath config) ?rcm) (Runtime_Name config) w = (Ret (p, None), w1)"
    and rm: "RemoveRuntime (containerd_NewConfig host ?conf restart (Runtime_Options config)) order p w1 = ((c, None), w2)"
    and fin: "if c then restart w2 = (None, w') else w' = w2"
    using run
    by (auto simp: RunUninstall_def Let_def RestartRuntime_def containerd_NewConfig_def
      split: prod.splits outcome.splits option.splits if_splits)
  from node_host.uninstall_steps [OF node ok fs(2) Uninstall_empty [OF un] rm] obtain x d e where
    x: "recorded host ?rcm w (Runtime_Name config) = Some x" "Path x = p"
      "recorded host ?rcm w2 = (recorded host ?rcm w)(Runtime_Name config := None)"
      "fs_ReadFile host p w2 = Inl e" "is_ErrNotExist e"
    and d: "conf_text host ?conf w = Some d" "conf_text host ?conf w2 = Some (remove_text order p d)" "c = Contains d (runtime_of p)"
    by blast
  note cases = remove_text_cases [of _ p order d, OF refl]
  show ?thesis
    by (intro exI [of _ x] exI [of _ d] exI [of _ "remove_text order p d"] exI [of _ w2] exI conjI)
       (use x d fin cases in auto)
qed

text \<open>
  C35. A failed removal from the configuration cannot be repeated: if the binary and the record are
  removed and then the configuration of containerd cannot be written, every later run fails because
  the shim is "not installed", and the section of the runtime stays in the configuration.
\<close>

theorem RunUninstall_not_repeatable:
  assumes fs: "afero_fs host" "conf_outside (RCM_Path config) (Runtime_ConfigPath config)"
    and ok: "host_ok host (RCM_Path config) w"
    and un: "Uninstall (shim_NewConfig root host (RCM_AssetPath config) (RCM_Path config)) (Runtime_Name config) w
        = (Ret (p, None), w1)"
    and rm: "RemoveRuntime (containerd_NewConfig host (Runtime_ConfigPath config) restart (Runtime_Options config)) order p w1
        = ((c, Some e), w2)"
  shows "\<exists>msg. RunUninstall order config root host restart w = (Ret (Some (Wrap msg e)), w2)
    \<and> (\<exists>msg'. RunUninstall order' config root host restart' w2
        = (Ret (Some (Wrap msg' (Msg (''shim '' @ Runtime_Name config @ '' not installed'')))), w2))"
proof -
  have node: "node_host host empty_root (RCM_AssetPath config) (RCM_Path config) (Runtime_ConfigPath config)"
    by (rule node_host_empty [OF fs])
  have sh: "shim_host host empty_root (RCM_AssetPath config)" using empty_root_installer [OF fs(1)] by (simp add: shim_host_iff)
  have 1: "host_ok host (RCM_Path config) w1" "recorded host (RCM_Path config) w1 (Runtime_Name config) = None"
    using shim_host.Uninstall_host_ok [OF sh ok Uninstall_empty [OF un]] by auto
  then have 2: "lock_ok host (RCM_Path config) w2" "recorded host (RCM_Path config) w2 (Runtime_Name config) = None"
    using node_host.RemoveRuntime_recorded [OF node rm] by (simp_all add: host_ok_def)
  then obtain st where st: "Get host (RCM_Path config) w2 = (Some st, None)" "usable st" by (auto simp: lock_ok_iff)
  have "Uninstall (shim_NewConfig root host (RCM_AssetPath config) (RCM_Path config)) (Runtime_Name config) w2
      = (Ret ([], Some (Msg (''shim '' @ Runtime_Name config @ '' not installed''))), w2)"
    using recorded_Get [OF st, of "Runtime_Name config"] 2(2) st(1) by (simp add: Uninstall_def shim_NewConfig_def)
  with un rm show ?thesis by (simp add: RunUninstall_def Let_def)
qed

context node_host
begin

text \<open>The loop over a single new shim, in terms of the two abstract states.\<close>

lemma single_install:
  assumes loop: "loop [f] False w = (Ret (Inr ch), w')" and f: "shim_file rcm (fi_Name f)" and ok: "host_ok host rcm w"
    and out: "conf_outside rcm conf" and d: "conf_text host conf w = Some d"
  shows "\<exists>x. Path x = bin_path rcm (fi_Name f) \<and> recorded host rcm w' = (recorded host rcm w)(RuntimeName (fi_Name f) \<mapsto> x)
    \<and> host_ok host rcm w'
    \<and> conf_text host conf w' = Some (add_text (iter (bin_path rcm (fi_Name f))) (bin_path rcm (fi_Name f)) d)"
proof -
  obtain p c w1 where i: "Install cfg (fi_Name f) w = (Ret (p, c, None), w1)" and a: "AddRuntime ncfg (iter p) p w1 = (None, w')"
    using loop by (auto split: prod.splits outcome.splits option.splits)
  obtain x where x: "wanted_shim root assets rcm w (fi_Name f) = Some x" "Path x = p" "host_ok host rcm w1"
      "recorded host rcm w1 = (recorded host rcm w)(RuntimeName (fi_Name f) \<mapsto> x)"
    using store.inst_update [OF f ok i] by blast
  have p: "p = bin_path rcm (fi_Name f)" using wanted_Path [OF x(1)] x(2) by simp
  have "conf_text host conf w1 = Some d" using Install_keeps_conf [OF f ok out i] d by (simp add: conf_text_def)
  moreover have "containerd_host host" by (simp add: containerd_host_def afero_fs_axioms)
  ultimately have "conf_text host conf w' = Some (add_text (iter p) p d)"
    using containerd_host.AddRuntime_text [OF _ a] by auto
  with x p installer.add_keeps [OF a x(3)] show ?thesis by auto
qed

end

lemma same_files:
  assumes "P = (\<lambda>w. (fs_ReadFile host (lock_path rcm) w, fs_ReadFile host conf w))" "P v' = P v"
  shows "conf_text host conf v' = conf_text host conf v" "recorded host rcm v' = recorded host rcm v" "host_ok host rcm v' = host_ok host rcm v"
  using assms(2) recorded_cong [of host rcm v' v] unfolding assms(1) conf_text_def host_ok_def prod.inject by simp_all

text \<open>Successful runs for one shim, in terms of the two abstract states.\<close>

lemma RunInstall_one:
  assumes fs: "installer_fs host root assets" and out: "conf_outside rcm conf"
    and cfgs: "RCM_Path config = rcm" "Runtime_ConfigPath config = conf"
    and asset: "asset_files root (RCM_AssetPath config) w = Inr ([f], assets)" "shim_file rcm (fi_Name f)"
    and ok: "host_ok host rcm w" and d: "conf_text host conf w = Some d"
    and obs: "P = (\<lambda>w. (fs_ReadFile host (lock_path rcm) w, fs_ReadFile host conf w))"
    and quiet: "\<forall>cmd. preserves P (os_Exec os cmd)" "preserves P restart"
    and inst: "RunInstall os iter config root host restart w = (Ret None, w1)" and b: "b = bin_path rcm (fi_Name f)"
  shows "\<exists>x. Path x = b \<and> recorded host rcm w1 = (recorded host rcm w)(RuntimeName (fi_Name f) \<mapsto> x) \<and> host_ok host rcm w1
    \<and> conf_text host conf w1 = Some (add_text (iter b) b d)"
proof -
  let ?cc = "containerd_NewConfig host conf restart (Runtime_Options config)"
  let ?loop = "install_loop (Install (shim_NewConfig root host assets rcm)) (\<lambda>p. AddRuntime ?cc (iter p) p)"
  have fn: "file_name (fi_Name f)" using asset(2) by (simp add: shim_file_def)
  have node: "node_host host root assets rcm conf" using fs conf_outside_apart(1) [OF out fn] by (simp add: node_host_iff)
  obtain ch w3 where loop: "?loop [f] False w = (Ret (Inr ch), w3)"
    and r: "w1 = w3 \<or> restart_containerd os ?cc w3 = (None, w1)"
    using inst unfolding RunInstall_loop [OF asset(1)] cfgs
    by (simp split: prod.splits outcome.splits sum.splits if_splits del: install_loop.simps)
  have "P w1 = P w3" using r preservesD [OF preserves_restart_containerd [OF quiet]] by blast
  then show ?thesis unfolding same_files [OF obs \<open>P w1 = P w3\<close>] b
    by (intro node_host.single_install [OF node loop asset(2) ok out d])
qed

lemma RunUninstall_one:
  assumes fs: "afero_fs host" and out: "conf_outside rcm conf"
    and cfgs: "RCM_Path config = rcm" "Runtime_ConfigPath config = conf" "Runtime_Name config = k"
    and ok: "host_ok host rcm w"
    and obs: "P = (\<lambda>w. (fs_ReadFile host (lock_path rcm) w, fs_ReadFile host conf w))" and quiet: "preserves P restart"
    and uninst: "RunUninstall order config root host restart w = (Ret None, w1)"
  shows "\<exists>x d. recorded host rcm w k = Some x \<and> recorded host rcm w1 = (recorded host rcm w)(k := None) \<and> host_ok host rcm w1
    \<and> conf_text host conf w = Some d \<and> conf_text host conf w1 = Some (remove_text order (Path x) d)"
proof -
  let ?cc = "containerd_NewConfig host conf restart (Runtime_Options config)"
  have node: "node_host host empty_root (RCM_AssetPath config) rcm conf" by (rule node_host_empty [OF fs out])
  obtain q c w4 w5 where un: "Uninstall (shim_NewConfig root host (RCM_AssetPath config) rcm) k w = (Ret (q, None), w4)"
    and rm: "RemoveRuntime ?cc order q w4 = ((c, None), w5)" and fin: "w1 = w5 \<or> restart w5 = (None, w1)"
    using uninst cfgs
    by (auto simp: RunUninstall_def Let_def RestartRuntime_def containerd_NewConfig_def
      split: prod.splits outcome.splits option.splits if_splits)
  have "P w1 = P w5" using fin preservesD [OF quiet] by blast
  with node_host.uninstall_steps [OF node ok out Uninstall_empty [OF un] rm] show ?thesis unfolding same_files [OF obs \<open>P w1 = P w5\<close>] by blast
qed

lemma install_then_uninstall:
  assumes fs: "installer_fs host root assets" and out: "conf_outside rcm conf"
    and cfgs: "RCM_Path config = rcm" "Runtime_ConfigPath config = conf"
    and asset: "asset_files root (RCM_AssetPath config) w = Inr ([f], assets)" "shim_file rcm (fi_Name f)"
    and ok: "host_ok host rcm w" and new: "recorded host rcm w (RuntimeName (fi_Name f)) = None"
    and d: "conf_text host conf w = Some d" "\<not> Contains d (RuntimeName (fi_Name f))"
      "clean_runtime (iter (bin_path rcm (fi_Name f))) (bin_path rcm (fi_Name f)) d"
    and obs: "P = (\<lambda>w. (fs_ReadFile host (lock_path rcm) w, fs_ReadFile host conf w))"
    and quiet: "\<forall>cmd. preserves P (os_Exec os cmd)" "preserves P restart"
    and inst: "RunInstall os iter config root host restart w = (Ret None, w1)"
    and cfgs': "RCM_Path config' = rcm" "Runtime_ConfigPath config' = conf" "Runtime_Name config' = RuntimeName (fi_Name f)"
    and quiet': "preserves P restart'"
    and uninst: "RunUninstall (iter (bin_path rcm (fi_Name f))) config' root host restart' w1 = (Ret None, w2)"
  shows "conf_text host conf w2 = Some d \<and> recorded host rcm w2 = recorded host rcm w"
proof -
  let ?b = "bin_path rcm (fi_Name f)" and ?k = "RuntimeName (fi_Name f)"
  have fn: "file_name (fi_Name f)" using asset(2) by (simp add: shim_file_def)
  have name: "runtime_of ?b = ?k"
    using path_Base_Join [OF fn, of "[rcm, ''bin'']"] by (simp add: runtime_of_def bin_path_def)
  from RunInstall_one [OF fs out cfgs asset ok d(1) obs quiet inst refl] obtain x where
    w1: "Path x = ?b" "recorded host rcm w1 = (recorded host rcm w)(?k \<mapsto> x)" "host_ok host rcm w1"
      "conf_text host conf w1 = Some (add_text (iter ?b) ?b d)" by (elim exE conjE)
  from RunUninstall_one [OF installer_fs.axioms(1) [OF fs] out cfgs' w1(3) obs quiet' uninst] w1
  have "recorded host rcm w2 = (recorded host rcm w)(?k := None)"
    "conf_text host conf w2 = Some (remove_text (iter ?b) ?b (add_text (iter ?b) ?b d))" by auto
  with remove_add_text [OF d(3)] d(2) name new show ?thesis by (simp add: fun_upd_idem)
qed

text \<open>
  C2. Installing one shim and uninstalling it again restores the node: the configuration of
  containerd has its old text and the lock file its old entries. (The runtime is new to both, its
  section is removable, the commands and the restarter do not touch the two files, and both runs
  visit the options in the same order.)
\<close>

theorem RunInstall_RunUninstall:
  assumes fs: "installer_fs host root assets" and out: "conf_outside rcm conf"
    and cfgs: "RCM_Path config = rcm" "Runtime_ConfigPath config = conf"
    and asset: "asset_files root (RCM_AssetPath config) w = Inr ([f], assets)" "shim_file rcm (fi_Name f)"
    and ok: "host_ok host rcm w" and new: "recorded host rcm w (RuntimeName (fi_Name f)) = None"
    and d: "conf_text host conf w = Some d" "\<not> Contains d (RuntimeName (fi_Name f))"
      "clean_runtime (iter (bin_path rcm (fi_Name f))) (bin_path rcm (fi_Name f)) d"
    and obs: "P = (\<lambda>w. (fs_ReadFile host (lock_path rcm) w, fs_ReadFile host conf w))"
    and quiet: "\<forall>cmd. preserves P (os_Exec os cmd)" "preserves P restart"
    and inst: "RunInstall os iter config root host restart w = (Ret None, w1)"
    and uninst: "RunUninstall (iter (bin_path rcm (fi_Name f))) (config\<lparr>Runtime_Name := RuntimeName (fi_Name f)\<rparr>)
        root host restart w1 = (Ret None, w2)"
  shows "conf_text host conf w2 = Some d \<and> recorded host rcm w2 = recorded host rcm w"
  by (rule install_then_uninstall [OF fs out cfgs asset ok new d obs quiet inst _ _ _ quiet(2) uninst]) (simp_all add: cfgs)

subsection \<open>Witnesses\<close>

definition node_uninstall :: Config where
  "node_uninstall = node_config\<lparr>Runtime_Name := ''spin-v2''\<rparr>"

lemma node_uninstall_simps:
  "RCM_Path node_uninstall = ''/opt/rcm''" "Runtime_ConfigPath node_uninstall = ''/etc/containerd/config.toml''"
  "Runtime_Options node_uninstall = None" "Runtime_Name node_uninstall = ''spin-v2''"
  "RCM_AssetPath node_uninstall = ''/assets''"
  by (simp_all add: node_uninstall_def node_config_def auto_config_def)

text \<open>Uninstalling after a run of \<open>RunInstall\<close> succeeds.\<close>

lemma node_RunUninstall:
  assumes "host_ready ''/opt/rcm'' ''containerd-shim-spin-v2'' m" "\<not> mem_isdir ''/etc/containerd/config.toml'' m"
    and "mem_get ''/etc/containerd/config.toml'' m = Some d" "host_ok (on_snd mem_fs) ''/opt/rcm'' (r, m)"
    and "Path x = spin_bin" "recorded (on_snd mem_fs) ''/opt/rcm'' (r, m) ''spin-v2'' = Some x"
  shows "\<exists>w'. RunUninstall order node_uninstall (on_fst mem_fs) (on_snd mem_fs) (\<lambda>w. (None, w)) (r, m) = (Ret None, w')"
proof -
  let ?c = "''/etc/containerd/config.toml''"
  have lock: "lock_ok (on_snd mem_fs) ''/opt/rcm'' (r, m)" using assms(4) by (simp add: host_ok_def)
  have "\<not> mem_ro m" "\<not> mem_isdir (Path x) m" "\<not> mem_isdir (lock_path ''/opt/rcm'') m"
    using assms(1,5) by (simp_all add: host_ready_def spin_bin_def)
  from mem_Uninstall_succeeds [OF lock assms(6) this, of "''/assets''"] obtain m1 where
    un: "Uninstall (shim_NewConfig (on_fst mem_fs) (on_snd mem_fs) ''/assets'' ''/opt/rcm'') ''spin-v2'' (r, m)
      = (Ret (Path x, None), (r, m1))" and m1: "\<not> mem_ro m1" "\<forall>q. mem_isdir q m1 = mem_isdir q m" by blast
  have "fs_ReadFile (on_snd mem_fs) ?c (r, m1) = fs_ReadFile (on_snd mem_fs) ?c (r, m)"
    by (rule node_mem.Uninstall_keeps_conf [OF assms(4) node_conf_outside un])
  then have "mem_get ?c m1 = Some d"
    using assms(3) by (simp add: on_snd_def mem_fs_def mem_ReadFile_def split: option.splits if_splits)
  then have "\<exists>m2. RemoveRuntime (containerd_NewConfig (on_snd mem_fs) ?c (\<lambda>w. (None, w)) None) order (Path x) (r, m1)
      = ((Contains d (runtime_of (Path x)), None), (r, m2))"
    using m1 assms(2)
    by (simp add: RemoveRuntime_def containerd_NewConfig_def on_snd_def mem_fs_def mem_defs Let_def)
  with un show ?thesis
    by (auto simp: RunUninstall_def Let_def node_uninstall_simps RestartRuntime_def containerd_NewConfig_def wrap_err_def)
qed

theorem RunUninstall_success_witness:
  "\<exists>w w' d. RunUninstall [] node_uninstall (on_fst mem_fs) (on_snd mem_fs) (\<lambda>w. (None, w)) w = (Ret None, w')
     \<and> recorded (on_snd mem_fs) ''/opt/rcm'' w ''spin-v2'' \<noteq> None \<and> conf_text (on_snd mem_fs) ''/etc/containerd/config.toml'' w = Some d
     \<and> d = ''version = 2'' @ generateConfig spin_bin ''spin-v2'' [] d
     \<and> recorded (on_snd mem_fs) ''/opt/rcm'' w' ''spin-v2'' = None
     \<and> conf_text (on_snd mem_fs) ''/etc/containerd/config.toml'' w' = Some ''version = 2''"
proof -
  let ?host = "on_snd mem_fs" and ?c = "''/etc/containerd/config.toml''"
  obtain m x where m: "host_ready ''/opt/rcm'' ''containerd-shim-spin-v2'' m" "\<not> mem_isdir ''/etc/containerd/config.toml'' m"
    "mem_get ''/etc/containerd/config.toml'' m = Some (add_text [] spin_bin ''version = 2'')"
    "host_ok (on_snd mem_fs) ''/opt/rcm'' (fst node_world, m)" "Path x = spin_bin"
    "recorded (on_snd mem_fs) ''/opt/rcm'' (fst node_world, m) ''spin-v2'' = Some x"
    using node_RunInstall [of "\<lambda>_. []" None] by auto
  from node_RunUninstall [OF m] obtain w' where
    run: "RunUninstall [] node_uninstall (on_fst mem_fs) (on_snd mem_fs) (\<lambda>w. (None, w)) (fst node_world, m) = (Ret None, w')" by blast
  from RunUninstall_success [OF host_mem.afero_fs_axioms node_conf_outside [folded node_uninstall_simps(1,2)]
    m(4) [folded node_uninstall_simps(1)] run]
  obtain x' d d' w2 sec where x': "recorded ?host ''/opt/rcm'' (fst node_world, m) ''spin-v2'' = Some x'"
    "recorded ?host ''/opt/rcm'' w2 = (recorded ?host ''/opt/rcm'' (fst node_world, m))(''spin-v2'' := None)"
    and d: "conf_text ?host ?c (fst node_world, m) = Some d" "conf_text ?host ?c w2 = Some d'"
      "sec = generateConfig (Path x') (runtime_of (Path x')) [] d"
    and gone: "\<forall>pre post. d = pre @ sec @ post \<and> \<not> Contains pre (runtime_of (Path x')) \<and> \<not> Contains post (runtime_of (Path x'))
         \<and> CHR 0x0A \<notin> set (runtime_of (Path x')) \<longrightarrow> d' = pre @ post"
    and fin: "if Contains d (runtime_of (Path x')) then (None, w2) = (None :: error option, w') else w' = w2"
    unfolding node_uninstall_simps by blast
  have w2: "w2 = w'" using fin by (simp split: if_splits)
  have path: "spin_bin = ''/opt/rcm/bin/containerd-shim-spin-v2''" unfolding spin_bin_def by (rule demo_paths(1))
  have name: "runtime_of spin_bin = ''spin-v2''" unfolding path by (rule demo_spin(1))
  have x: "Path x' = spin_bin" using x'(1) m(5,6) by simp
  have conf: "d = add_text [] spin_bin ''version = 2''"
    using d(1) m(3) by (simp add: conf_text_def on_snd_def mem_fs_def mem_ReadFile_def)
  let ?v = "''version = 2''"
  have added: "d = ?v @ generateConfig spin_bin ''spin-v2'' [] ?v"
    using conf name demo_spin(4) by (simp add: add_text_def)
  have "\<not> Contains (generateConfig spin_bin ''spin-v2'' [] ?v) ''version = 3''"
    using demo_clean(1) name unfolding path [symmetric] clean_runtime_def by metis
  from domain_of_append [OF this, of ?v] have "domain_of d = domain_of ?v" using added by simp
  from generateConfig_cong [OF this] have split: "d = ?v @ sec @ []"
    using added d(3) by (simp add: x name)
  have "\<not> Contains [] ''spin-v2''" "CHR 0x0A \<notin> set ''spin-v2''" by simp_all
  with gone [rule_format, of ?v "[]"] split demo_spin(4) have "d' = ?v" unfolding x name by simp
  moreover have "d = ?v @ generateConfig spin_bin ''spin-v2'' [] d" using split d(3) x name by simp
  moreover have "recorded ?host ''/opt/rcm'' w' ''spin-v2'' = None" using x'(2) w2 by simp
  ultimately show ?thesis using run m(6) d(1,2) w2
    by (intro exI [of _ "(fst node_world, m)"] exI [of _ w'] exI [of _ d] conjI) simp_all
qed

theorem RunInstall_RunUninstall_witness:
  "\<exists>w1 w2. RunInstall quiet_os (\<lambda>_. []) node_config (on_fst mem_fs) (on_snd mem_fs) (\<lambda>w. (None, w)) node_world = (Ret None, w1)
     \<and> RunUninstall [] node_uninstall (on_fst mem_fs) (on_snd mem_fs) (\<lambda>w. (None, w)) w1 = (Ret None, w2)
     \<and> conf_text (on_snd mem_fs) ''/etc/containerd/config.toml'' w2 = Some ''version = 2''
     \<and> recorded (on_snd mem_fs) ''/opt/rcm'' w2 = Map.empty"
proof -
  let ?c = "''/etc/containerd/config.toml''"
  obtain m x where inst: "RunInstall quiet_os (\<lambda>_. []) node_config (on_fst mem_fs) (on_snd mem_fs) (\<lambda>w. (None, w)) node_world
      = (Ret None, (fst node_world, m))"
    and m: "host_ready ''/opt/rcm'' ''containerd-shim-spin-v2'' m" "\<not> mem_isdir ?c m"
    "mem_get ?c m = Some (add_text [] spin_bin ''version = 2'')"
    "host_ok (on_snd mem_fs) ''/opt/rcm'' (fst node_world, m)" "Path x = spin_bin"
    "recorded (on_snd mem_fs) ''/opt/rcm'' (fst node_world, m) ''spin-v2'' = Some x"
    using node_RunInstall [of "\<lambda>_. []" None] by (auto simp: wrap_err_def)
  from node_RunUninstall [OF m] obtain w2 where
    un: "RunUninstall [] node_uninstall (on_fst mem_fs) (on_snd mem_fs) (\<lambda>w. (None, w)) (fst node_world, m) = (Ret None, w2)" by blast
  have sf: "fi_Name spin_file = ''containerd-shim-spin-v2''" by (simp add: spin_file_def)
  have d: "conf_text (on_snd mem_fs) ?c node_world = Some ''version = 2''"
    using node_world_ok(5) by (simp add: conf_text_def on_snd_def mem_fs_def mem_ReadFile_def)
  have quiet: "\<forall>cmd. preserves P (os_Exec quiet_os cmd)" "preserves P (\<lambda>w. (None, w))"
    for P :: "mem \<times> mem \<Rightarrow> _" by (simp_all add: preserves_def quiet_os_def)
  have "conf_text (on_snd mem_fs) ?c w2 = Some ''version = 2''
      \<and> recorded (on_snd mem_fs) ''/opt/rcm'' w2 = recorded (on_snd mem_fs) ''/opt/rcm'' node_world"
    by (rule RunInstall_RunUninstall [OF installer_mem.installer_fs_axioms node_conf_outside node_config_simps(1,2) node_assets
      _ node_world_ok(1) _ d _ _ refl quiet inst])
       (use demo_shim_file demo_spin demo_clean node_world_ok(2) un in
         \<open>simp_all add: sf demo_paths node_uninstall_def\<close>)
  then have "conf_text (on_snd mem_fs) ?c w2 = Some ''version = 2''" "recorded (on_snd mem_fs) ''/opt/rcm'' w2 = Map.empty"
    using node_world_ok(2) by simp_all
  with inst un show ?thesis by blast
qed

theorem RunUninstall_not_repeatable_witness:
  "\<exists>w w2 msg msg' e. RunUninstall [] node_uninstall (on_fst mem_fs) (on_snd mem_fs) (\<lambda>w. (None, w)) w
       = (Ret (Some (Wrap msg e)), w2)
     \<and> recorded (on_snd mem_fs) ''/opt/rcm'' w ''spin-v2'' \<noteq> None
     \<and> RunUninstall [] node_uninstall (on_fst mem_fs) (on_snd mem_fs) (\<lambda>w. (None, w)) w2
       = (Ret (Some (Wrap msg' (Msg ''shim spin-v2 not installed''))), w2)"
proof -
  let ?s = "''containerd-shim-spin-v2''" and ?c = "''/etc/containerd/config.toml''"
  from demo_Install obtain c m where
    inst: "Install demo_cfg ?s demo_world = (Ret (bin_path ''/opt/rcm'' ?s, c, None), (fst demo_world, m))"
    and ready: "host_ready ''/opt/rcm'' ?s m" by blast
  note inst' = inst [unfolded demo_cfg_def]
  have ok: "host_ok (on_snd mem_fs) ''/opt/rcm'' (fst demo_world, m)"
    by (rule rcm_mem.Install_host_ok [OF demo_shim_file demo_world_ok(2) inst'])
  obtain x where x: "Path x = bin_path ''/opt/rcm'' ?s"
    "recorded (on_snd mem_fs) ''/opt/rcm'' (fst demo_world, m) ''spin-v2'' = Some x"
    using rcm_mem.store.inst_update [OF demo_shim_file demo_world_ok(2) inst'] by (metis demo_paths(4) fun_upd_same)
  have side: "lock_ok (on_snd mem_fs) ''/opt/rcm'' (fst demo_world, m)" "\<not> mem_ro m" "\<not> mem_isdir (Path x) m"
      "\<not> mem_isdir (lock_path ''/opt/rcm'') m"
    using ok ready x(1) by (simp_all add: host_ok_def host_ready_def)
  from mem_Uninstall_succeeds [OF side(1) x(2) side(2-4), of "''/assets''"] obtain m1 where
    un: "Uninstall (shim_NewConfig (on_fst mem_fs) (on_snd mem_fs) ''/assets'' ''/opt/rcm'') ''spin-v2'' (fst demo_world, m)
      = (Ret (Path x, None), (fst demo_world, m1))" by blast
  have "fs_ReadFile (on_snd mem_fs) ?c demo_world = Inl ErrNotExist" by code_simp
  then have "fs_ReadFile (on_snd mem_fs) ?c (fst demo_world, m1) = Inl ErrNotExist"
    using node_mem.Install_keeps_conf [OF demo_shim_file demo_world_ok(2) node_conf_outside inst']
      node_mem.Uninstall_keeps_conf [OF ok node_conf_outside un] by simp
  then have rm: "RemoveRuntime (containerd_NewConfig (on_snd mem_fs) ?c (\<lambda>w. (None, w)) None) [] (Path x) (fst demo_world, m1)
      = ((False, Some ErrNotExist), (fst demo_world, m1))"
    by (simp add: RemoveRuntime_def containerd_NewConfig_def Let_def)
  from RunUninstall_not_repeatable [OF host_mem.afero_fs_axioms, of node_uninstall, unfolded node_uninstall_simps,
    OF node_conf_outside ok un rm, of "[]" "\<lambda>w. (None, w)"]
  obtain msg msg' where
    "RunUninstall [] node_uninstall (on_fst mem_fs) (on_snd mem_fs) (\<lambda>w. (None, w)) (fst demo_world, m)
       = (Ret (Some (Wrap msg ErrNotExist)), (fst demo_world, m1))"
    "RunUninstall [] node_uninstall (on_fst mem_fs) (on_snd mem_fs) (\<lambda>w. (None, w)) (fst demo_world, m1)
       = (Ret (Some (Wrap msg' (Msg ''shim spin-v2 not installed''))), (fst demo_world, m1))" by auto
  moreover have "recorded (on_snd mem_fs) ''/opt/rcm'' (fst demo_world, m) ''spin-v2'' \<noteq> None" using x(2) by simp
  ultimately show ?thesis by blast
qed

end
