(* ===== verification/Node_Command.thy ===== *)
theory Node_Command
  imports Node_Installer Job_Manifest
begin

text \<open>
  The command line of the node installer (\<open>root.go\<close>, the \<open>init\<close> functions of \<open>install.go\<close> and
  \<open>uninstall.go\<close>, \<open>main.go\<close>): which flags the commands have, what they set, and how the program ends. The
  library cobra is a parameter, with the documented behaviour of short flags as the locale
  \<open>cobra_laws\<close>. The theorem ties the two halves of the repository together: the arguments that the
  controller writes into a job run the command of the job for its shim on the mounted host.
\<close>

section \<open>Commands and flags\<close>

datatype command = InstallCommand | UninstallCommand

definition command_Use :: "command \<Rightarrow> string" where
  "command_Use cmd = (case cmd of InstallCommand \<Rightarrow> ''install'' | UninstallCommand \<Rightarrow> ''uninstall'')"

record flag_def =
  fd_Name :: string
  fd_Shorthand :: string
  fd_Default :: string

definition root_flags :: "flag_def list" where
  "root_flags =
     [\<lparr>fd_Name = ''runtime'', fd_Shorthand = ''r'', fd_Default = ''containerd''\<rparr>,
      \<lparr>fd_Name = ''runtime-config'', fd_Shorthand = ''c'', fd_Default = []\<rparr>,
      \<lparr>fd_Name = ''rcm-path'', fd_Shorthand = ''k'', fd_Default = ''/opt/rcm''\<rparr>,
      \<lparr>fd_Name = ''host-root'', fd_Shorthand = ''H'', fd_Default = ''/''\<rparr>]"

definition install_flags :: "flag_def list" where
  "install_flags = [\<lparr>fd_Name = ''asset-path'', fd_Shorthand = ''a'', fd_Default = ''/assets''\<rparr>]"

definition command_flags :: "command \<Rightarrow> flag_def list" where
  "command_flags cmd = root_flags @ (case cmd of InstallCommand \<Rightarrow> install_flags | UninstallCommand \<Rightarrow> [])"

definition default_flag :: "flag_def \<Rightarrow> flag" where
  "default_flag d = \<lparr>f_Name = fd_Name d, f_Value = fd_Default d, f_Changed = False\<rparr>"

definition set_flag :: "string \<Rightarrow> string \<Rightarrow> flag list \<Rightarrow> flag list" where
  "set_flag name val fs = map (\<lambda>f. if f_Name f = name then f\<lparr>f_Value := val, f_Changed := True\<rparr> else f) fs"

text \<open>The variables of \<open>config\<close> that the flags are bound to; the asset path has no flag, and no default, when uninstalling.\<close>

definition flag_value :: "flag list \<Rightarrow> string \<Rightarrow> string" where
  "flag_value fs name = (case find (\<lambda>f. f_Name f = name) fs of None \<Rightarrow> [] | Some f \<Rightarrow> f_Value f)"

definition config_of :: "flag list \<Rightarrow> Config" where
  "config_of fs =
     \<lparr>Runtime_Name = flag_value fs ''runtime'', Runtime_ConfigPath = flag_value fs ''runtime-config'', Runtime_Options = None,
      RCM_Path = flag_value fs ''rcm-path'', RCM_AssetPath = flag_value fs ''asset-path'', Host_RootPath = flag_value fs ''host-root''\<rparr>"

section \<open>Execution\<close>

text \<open>What cobra makes of the arguments: an error, a help text that it prints, or a command with its flags.\<close>

datatype parsed = ParseError error | Help | Parsed command "flag list"

type_synonym cobra = "(command \<Rightarrow> flag_def list) \<Rightarrow> string list \<Rightarrow> parsed"

text \<open>\<open>Execute\<close> with the \<open>PersistentPreRunE\<close> of the root command; the result is the exit status.\<close>

definition Execute :: "cobra \<Rightarrow> viper \<Rightarrow> (command \<Rightarrow> Config \<Rightarrow> 'w \<Rightarrow> nat outcome \<times> 'w) \<Rightarrow> string list \<Rightarrow> 'w \<Rightarrow> nat outcome \<times> 'w" where
  "Execute cobra v run argv w =
     (case cobra command_flags argv of
        ParseError _ \<Rightarrow> (Ret 1, w)
      | Help \<Rightarrow> (Ret 0, w)
      | Parsed cmd fs \<Rightarrow>
          (case initializeConfig v fs of
             Inl err \<Rightarrow> (Ret 1, w)
           | Inr fs' \<Rightarrow> run cmd (config_of fs') w))"

definition run_command :: "'w host_os \<Rightarrow> (path \<times> 'w Settings) list \<Rightarrow> (path \<Rightarrow> (string \<times> string) list) \<Rightarrow> (string \<times> string) list
    \<Rightarrow> 'w afero \<Rightarrow> ('w afero \<Rightarrow> path \<Rightarrow> 'w afero) \<Rightarrow> command \<Rightarrow> Config \<Rightarrow> 'w \<Rightarrow> nat outcome \<times> 'w" where
  "run_command os locs iter order root base cmd config =
     (case cmd of InstallCommand \<Rightarrow> installCmd os locs iter root base config
      | UninstallCommand \<Rightarrow> uninstallCmd os locs order root base config)"

section \<open>The contract of the command line library\<close>

text \<open>
  A command that is followed by short flags with their values, each of them defined for the
  command, is run with these flags set; the others have their defaults.
\<close>

definition short_args :: "(string \<times> string) list \<Rightarrow> string list" where
  "short_args kvs = concat (map (\<lambda>(s, val). [CHR ''-'' # s, val]) kvs)"

definition name_of :: "flag_def list \<Rightarrow> string \<Rightarrow> string" where
  "name_of ds s = (case find (\<lambda>d. fd_Shorthand d = s) ds of None \<Rightarrow> [] | Some d \<Rightarrow> fd_Name d)"

definition with_short :: "flag_def list \<Rightarrow> (string \<times> string) list \<Rightarrow> flag list" where
  "with_short ds kvs = fold (\<lambda>(s, val). set_flag (name_of ds s) val) kvs (map default_flag ds)"

locale cobra_laws =
  fixes cobra :: cobra
  assumes short_flags: "\<forall>s \<in> fst ` set kvs. s \<in> fd_Shorthand ` set (ds cmd)
    \<Longrightarrow> cobra ds (command_Use cmd # short_args kvs) = Parsed cmd (with_short (ds cmd) kvs)"
begin

lemma two_flags:
  assumes "s1 \<in> fd_Shorthand ` set (ds cmd)" "s2 \<in> fd_Shorthand ` set (ds cmd)"
  shows "cobra ds [command_Use cmd, CHR ''-'' # s1, v1, CHR ''-'' # s2, v2] = Parsed cmd (with_short (ds cmd) [(s1, v1), (s2, v2)])"
  using short_flags [of "[(s1, v1), (s2, v2)]" ds cmd] assms by (simp add: short_args_def)

end

text \<open>A parser of short flags only.\<close>

fun short_parse :: "flag_def list \<Rightarrow> string list \<Rightarrow> flag list \<Rightarrow> flag list option" where
  "short_parse ds [] fs = Some fs"
| "short_parse ds [a] fs = None"
| "short_parse ds (a # val # as) fs =
     (if a \<noteq> [] \<and> hd a = CHR ''-'' \<and> tl a \<in> fd_Shorthand ` set ds then short_parse ds as (set_flag (name_of ds (tl a)) val fs) else None)"

definition simple_cobra :: cobra where
  "simple_cobra ds argv =
     (case argv of
        [] \<Rightarrow> Help
      | c # as \<Rightarrow>
          (case find (\<lambda>cmd. command_Use cmd = c) [InstallCommand, UninstallCommand] of
             None \<Rightarrow> ParseError (Msg ''unknown command'')
           | Some cmd \<Rightarrow>
               (case short_parse (ds cmd) as (map default_flag (ds cmd)) of
                  None \<Rightarrow> ParseError (Msg ''unknown flag'')
                | Some fs \<Rightarrow> Parsed cmd fs)))"

lemma short_parse_args:
  "\<forall>s \<in> fst ` set kvs. s \<in> fd_Shorthand ` set ds
    \<Longrightarrow> short_parse ds (short_args kvs) fs = Some (fold (\<lambda>(s, val). set_flag (name_of ds s) val) kvs fs)"
  by (induction kvs arbitrary: fs) (auto simp: short_args_def)

interpretation simple_cobra: cobra_laws simple_cobra
proof (rule cobra_laws.intro)
  fix kvs :: "(string \<times> string) list" and cmd and ds :: "command \<Rightarrow> flag_def list" assume "\<forall>s \<in> fst ` set kvs. s \<in> fd_Shorthand ` set (ds cmd)"
  then show "simple_cobra ds (command_Use cmd # short_args kvs) = Parsed cmd (with_short (ds cmd) kvs)"
    by (cases cmd) (simp_all add: simple_cobra_def command_Use_def short_parse_args with_short_def)
qed

section \<open>The arguments of a job\<close>

lemma job_flags:
  assumes "initializeConfig v (with_short (command_flags cmd) [(''H'', root), (''r'', name)]) = Inr fs"
  shows "Host_RootPath (config_of fs) = root \<and> Runtime_Name (config_of fs) = name \<and> Runtime_Options (config_of fs) = None
    \<and> (\<not> v_IsSet v ''rcm_path'' \<longrightarrow> RCM_Path (config_of fs) = ''/opt/rcm'')
    \<and> (\<not> v_IsSet v ''runtime_config'' \<longrightarrow> Runtime_ConfigPath (config_of fs) = [])
    \<and> (cmd = InstallCommand \<and> \<not> v_IsSet v ''asset_path'' \<longrightarrow> RCM_AssetPath (config_of fs) = ''/assets'')"
proof -
  have "fs = bindFlags v (with_short (command_flags cmd) [(''H'', root), (''r'', name)])"
    using assms by (auto simp: initializeConfig_def split: option.splits viper_error.splits)
  moreover have "ReplaceAll ''rcm-path'' ''-'' ''_'' = ''rcm_path''" "ReplaceAll ''runtime-config'' ''-'' ''_'' = ''runtime_config''"
    "ReplaceAll ''asset-path'' ''-'' ''_'' = ''asset_path''" by code_simp+
  ultimately show ?thesis
    by (cases cmd) (simp_all add: bindFlags_def with_short_def command_flags_def root_flags_def install_flags_def name_of_def
      set_flag_def default_flag_def config_of_def flag_value_def Let_def)
qed

definition job_args :: "string \<Rightarrow> string \<Rightarrow> string list" where
  "job_args op name = [op, ''-H'', ''/mnt/node-root'', ''-r'', name]"

lemma createJobManifest_args:
  assumes "createJobManifest K env shim node op artifact = Inr job" "kube_helpers K" "op = INSTALL \<or> op = UNINSTALL"
  shows "\<exists>ctr. pod_Containers (job_Pod job) = [ctr] \<and> ctr_Args ctr = job_args op (shim_Name shim)"
  using createJobManifest_cases [OF assms(2,1)] assms(3)
  by (auto simp: provisioner_def setOperationConfiguration_def Let_def INSTALL_def UNINSTALL_def job_args_def)

lemma args_parsed:
  assumes "cobra_laws cobra" "op = INSTALL \<and> cmd = InstallCommand \<or> op = UNINSTALL \<and> cmd = UninstallCommand"
  shows "cobra command_flags (job_args op name) = Parsed cmd (with_short (command_flags cmd) [(''H'', ''/mnt/node-root''), (''r'', name)])"
proof -
  have "job_args op name = [command_Use cmd, CHR ''-'' # ''H'', ''/mnt/node-root'', CHR ''-'' # ''r'', name]"
    using assms(2) by (auto simp: job_args_def command_Use_def INSTALL_def UNINSTALL_def)
  then show ?thesis using cobra_laws.two_flags [OF assms(1)] by (simp add: command_flags_def root_flags_def)
qed

lemma job_parsed:
  assumes cobra: "cobra_laws cobra" and job: "createJobManifest K env shim node op artifact = Inr job" and K: "kube_helpers K"
    and op: "op = INSTALL \<and> cmd = InstallCommand \<or> op = UNINSTALL \<and> cmd = UninstallCommand"
  shows "\<exists>ctr. pod_Containers (job_Pod job) = [ctr] \<and> cobra command_flags (ctr_Args ctr)
    = Parsed cmd (with_short (command_flags cmd) [(''H'', ''/mnt/node-root''), (''r'', shim_Name shim)])"
proof -
  from op have "op = INSTALL \<or> op = UNINSTALL" by blast
  from createJobManifest_args [OF job K this] args_parsed [OF cobra op] show ?thesis by metis
qed

text \<open>
  C19. The arguments of the container of a job run the command of the job, for the shim of the job, on the
  host that is mounted at \<open>/mnt/node-root\<close>, whatever the environment and the configuration file say; the
  rest of the configuration is the default unless they set it. If the configuration file cannot be read, the
  job fails with status 1 and does nothing.
\<close>

theorem job_runs_command:
  assumes cobra: "cobra_laws cobra" and job: "createJobManifest K env shim node op artifact = Inr job" and K: "kube_helpers K"
    and op: "op = INSTALL \<and> cmd = InstallCommand \<or> op = UNINSTALL \<and> cmd = UninstallCommand"
  shows "\<exists>ctr. pod_Containers (job_Pod job) = [ctr]
    \<and> (case v_ReadInConfig v of
         Some (ViperError err) \<Rightarrow> Execute cobra v run (ctr_Args ctr) w = (Ret 1, w)
       | _ \<Rightarrow> \<exists>config. Execute cobra v run (ctr_Args ctr) w = run cmd config w
           \<and> Host_RootPath config = ''/mnt/node-root'' \<and> Runtime_Name config = shim_Name shim \<and> Runtime_Options config = None
           \<and> (\<not> v_IsSet v ''rcm_path'' \<longrightarrow> RCM_Path config = ''/opt/rcm'')
           \<and> (\<not> v_IsSet v ''runtime_config'' \<longrightarrow> Runtime_ConfigPath config = [])
           \<and> (cmd = InstallCommand \<and> \<not> v_IsSet v ''asset_path'' \<longrightarrow> RCM_AssetPath config = ''/assets''))"
proof -
  from job_parsed [OF cobra job K op] obtain ctr where ctr: "pod_Containers (job_Pod job) = [ctr]"
    and "cobra command_flags (ctr_Args ctr) = Parsed cmd (with_short (command_flags cmd) [(''H'', ''/mnt/node-root''), (''r'', shim_Name shim)])"
    by blast
  then have run: "Execute cobra v run (ctr_Args ctr) w
      = (case initializeConfig v (with_short (command_flags cmd) [(''H'', ''/mnt/node-root''), (''r'', shim_Name shim)]) of
           Inl err \<Rightarrow> (Ret 1, w) | Inr fs' \<Rightarrow> run cmd (config_of fs') w)" by (simp add: Execute_def)
  show ?thesis
  proof (cases "initializeConfig v (with_short (command_flags cmd) [(''H'', ''/mnt/node-root''), (''r'', shim_Name shim)])")
    case (Inl err)
    then have "\<exists>err. v_ReadInConfig v = Some (ViperError err)"
      by (auto simp: initializeConfig_def split: option.splits viper_error.splits)
    with ctr run Inl show ?thesis by auto
  next
    case (Inr fs)
    then have "\<nexists>err. v_ReadInConfig v = Some (ViperError err)" by (auto simp: initializeConfig_def)
    with ctr run Inr job_flags [OF Inr] show ?thesis
      by (intro exI [of _ ctr]) (auto split: option.split viper_error.split)
  qed
qed

theorem job_runs_command_witness:
  "\<exists>job ctr. createJobManifest mem_kube (\<lambda>_. []) (demo_Shim ''spin'') (demo_Node ''n1'' []) UNINSTALL no_artifact = Inr job
     \<and> pod_Containers (job_Pod job) = [ctr]
     \<and> (\<exists>config. Execute simple_cobra \<lparr>v_ReadInConfig = None, v_IsSet = (\<lambda>_. True), v_Get = (\<lambda>_. ''other'')\<rparr>
             (\<lambda>cmd config w. (Ret 0, [(cmd, config)])) (ctr_Args ctr) [] = (Ret 0, [(UninstallCommand, config)])
          \<and> Runtime_Name config = ''spin'' \<and> Host_RootPath config = ''/mnt/node-root'')"
proof -
  obtain job where job: "createJobManifest mem_kube (\<lambda>_. []) (demo_Shim ''spin'') (demo_Node ''n1'' []) UNINSTALL no_artifact = Inr job"
    by (simp add: createJobManifest_def Let_def INSTALL_def UNINSTALL_def)
  from job_runs_command [OF simple_cobra.cobra_laws_axioms job mem_kube.kube_helpers_axioms, of UninstallCommand
      "\<lparr>v_ReadInConfig = None, v_IsSet = (\<lambda>_. True), v_Get = (\<lambda>_. ''other'')\<rparr>" "\<lambda>cmd config w. (Ret 0, [(cmd, config)])" "[]"]
  show ?thesis using job by (auto simp: demo_Shim_def new_meta_def)
qed

section \<open>Install job and uninstall job\<close>

lemma DetectDistro_path:
  "Runtime_ConfigPath config = Runtime_ConfigPath config' \<Longrightarrow> DetectDistro locs config host w = DetectDistro locs config' host w"
  unfolding DetectDistro_def by (erule ssubst) (rule refl)

lemma auto_path: "Runtime_ConfigPath auto_config = []"
  by (simp add: auto_config_def)

text \<open>The options are not read from the configuration: the order in which they are visited is a parameter.\<close>

lemma RemoveRuntime_cong:
  assumes "c_hostFs c' = c_hostFs c" "configPath c' = configPath c"
  shows "RemoveRuntime c' order p w = RemoveRuntime c order p w"
  unfolding RemoveRuntime_def assms by (rule refl)

lemma AddRuntime_cong:
  assumes "c_hostFs c' = c_hostFs c" "configPath c' = configPath c"
  shows "AddRuntime c' order p w = AddRuntime c order p w"
  unfolding AddRuntime_def assms by (rule refl)

lemma RunUninstall_cong:
  assumes "Runtime_Name config' = Runtime_Name config" "Runtime_ConfigPath config' = Runtime_ConfigPath config"
    "RCM_Path config' = RCM_Path config"
  shows "RunUninstall order config' root' host restart w = RunUninstall order config root host restart w"
proof -
  have store: "Uninstall (shim_NewConfig root' host (RCM_AssetPath config') rcm) name w = Uninstall (shim_NewConfig root host (RCM_AssetPath config) rcm) name w"
    for rcm name by (rule Uninstall_root)
  have conf: "RemoveRuntime (containerd_NewConfig host p restart (Runtime_Options config')) order b w
      = RemoveRuntime (containerd_NewConfig host p restart (Runtime_Options config)) order b w"
    "RestartRuntime (containerd_NewConfig host p restart (Runtime_Options config')) w
      = RestartRuntime (containerd_NewConfig host p restart (Runtime_Options config)) w" for p b w
    by (rule RemoveRuntime_cong) (simp_all add: containerd_NewConfig_def RestartRuntime_def)
  show ?thesis unfolding RunUninstall_def assms Let_def store conf by (rule refl)
qed

lemma RuntimeName_asset: "RuntimeName (''containerd-shim-'' @ name) = name"
  by (simp add: RuntimeName_def TrimPrefix_def)

lemma installCmd_success:
  assumes "installCmd os locs iter root base config w = (Ret 0, w')" "DetectDistro locs config (base root (Host_RootPath config)) w = Inr distro"
    "Setup distro \<lparr>HostFs = base root (Host_RootPath config), env_ConfigPath = ConfigPath distro\<rparr> w = (None, w)"
  obtains options where "RuntimeOptions os = Inr options"
    "RunInstall os iter (config\<lparr>Runtime_ConfigPath := ConfigPath distro, Runtime_Options := options\<rparr>) root (base root (Host_RootPath config))
       (Restart os (Restarter_of distro)) w = (Ret None, w')"
  using assms by (auto simp: installCmd_def Let_def split: sum.splits prod.splits outcome.splits option.splits)

lemma uninstallCmd_success:
  assumes "uninstallCmd os locs order root base config w = (Ret 0, w')" "DetectDistro locs config (base root (Host_RootPath config)) w = Inr distro"
  obtains options where "RuntimeOptions os = Inr options"
    "RunUninstall order (config\<lparr>Runtime_ConfigPath := ConfigPath distro, Runtime_Options := options\<rparr>) root (base root (Host_RootPath config))
       (Restart os (Restarter_of distro)) w = (Ret None, w')"
  using assms by (auto simp: uninstallCmd_def Let_def split: sum.splits prod.splits outcome.splits option.splits)

lemma args_command:
  assumes "cobra_laws cobra" "op = INSTALL \<and> cmd = InstallCommand \<or> op = UNINSTALL \<and> cmd = UninstallCommand"
    "v_ReadInConfig v \<in> {None, Some ConfigFileNotFoundError}" "v_IsSet v = (\<lambda>_. False)"
  obtains config where "Execute cobra v run (job_args op name) w = run cmd config w" "Host_RootPath config = ''/mnt/node-root''"
    "Runtime_Name config = name" "RCM_Path config = ''/opt/rcm''" "Runtime_ConfigPath config = []"
    "cmd = InstallCommand \<longrightarrow> RCM_AssetPath config = ''/assets''"
proof -
  obtain fs where fs: "initializeConfig v (with_short (command_flags cmd) [(''H'', ''/mnt/node-root''), (''r'', name)]) = Inr fs"
    using assms(3) by (auto simp: initializeConfig_def)
  then have "Execute cobra v run (job_args op name) w = run cmd (config_of fs) w" by (simp add: Execute_def args_parsed [OF assms(1,2)])
  with that [of "config_of fs"] job_flags [OF fs] assms(4) show thesis by simp
qed

lemma job_command:
  assumes "cobra_laws cobra" "createJobManifest K env shim node op artifact = Inr job" "kube_helpers K"
    "op = INSTALL \<and> cmd = InstallCommand \<or> op = UNINSTALL \<and> cmd = UninstallCommand" "pod_Containers (job_Pod job) = [ctr]"
    "v_ReadInConfig v \<in> {None, Some ConfigFileNotFoundError}" "v_IsSet v = (\<lambda>_. False)"
  obtains config where "Execute cobra v run (ctr_Args ctr) w = run cmd config w" "Host_RootPath config = ''/mnt/node-root''"
    "Runtime_Name config = shim_Name shim" "RCM_Path config = ''/opt/rcm''" "Runtime_ConfigPath config = []"
    "cmd = InstallCommand \<longrightarrow> RCM_AssetPath config = ''/assets''"
proof -
  from assms(4) have "op = INSTALL \<or> op = UNINSTALL" by blast
  from createJobManifest_args [OF assms(2,3) this] assms(5) have "ctr_Args ctr = job_args op (shim_Name shim)" by simp
  with args_command [OF assms(1,4,6,7)] that show thesis by metis
qed

text \<open>
  What the process in a container sees of the system: the variables of the container, and otherwise those of its image and of the
  cluster.
\<close>

definition env_of :: "Container \<Rightarrow> string \<Rightarrow> string" where
  "env_of ctr k = (case find (\<lambda>e. ev_Name e = k) (ctr_Env ctr) of None \<Rightarrow> [] | Some e \<Rightarrow> ev_Value e)"

definition container_os :: "'w host_os \<Rightarrow> Container \<Rightarrow> 'w host_os" where
  "container_os os ctr = os\<lparr>os_Getenv := (\<lambda>k. case find (\<lambda>e. ev_Name e = k) (ctr_Env ctr) of
     None \<Rightarrow> os_Getenv os k | Some e \<Rightarrow> ev_Value e)\<rparr>"

lemma container_Exec [simp]: "os_Exec (container_os os ctr) = os_Exec os"
  by (simp add: container_os_def)

text \<open>
  C12. What the controller's uninstall job does undoes its install job: when the pods of both run the node
  installer on the same host, each with the environment of its container, and exit with status 0, containerd's
  configuration has its old text and the lock file its old entries. The host is the part of the container's file system that
  is mounted at \<open>/mnt/node-root\<close>. (The downloader has left the binary \<open>containerd-shim-<name of the shim>\<close> in
  \<open>/assets\<close>, no environment variable or configuration file overrides a flag, the distribution needs no setup and is
  detected again, the runtime is new to both files, the commands and the restarter touch neither, and both runs visit the
  options of the shim in the same order.)
\<close>

theorem install_job_uninstall_job:
  assumes lib: "cobra_laws cobra" "kube_helpers K" "v_ReadInConfig v \<in> {None, Some ConfigFileNotFoundError}" "v_IsSet v = (\<lambda>_. False)"
    and job_i: "createJobManifest K env shim node INSTALL artifact = Inr ji" "pod_Containers (job_Pod ji) = [ci]"
    and job_u: "createJobManifest K env' shim node' UNINSTALL artifact' = Inr ju" "pod_Containers (job_Pod ju) = [cu]"
    and host: "host = base root ''/mnt/node-root''" "installer_fs host root ''/assets''"
    and asset: "asset_files root ''/assets'' w = Inr ([f], ''/assets'')" "fi_Name f = ''containerd-shim-'' @ shim_Name shim"
      "shim_file ''/opt/rcm'' (fi_Name f)" "bin = bin_path ''/opt/rcm'' (fi_Name f)"
    and distro: "DetectDistro locs auto_config host w = Inr distro" "DetectDistro locs' auto_config host w1 = Inr distro"
      "Setup distro \<lparr>HostFs = host, env_ConfigPath = ConfigPath distro\<rparr> w = (None, w)" "conf_outside ''/opt/rcm'' (ConfigPath distro)"
    and ok: "host_ok host ''/opt/rcm'' w" and new: "recorded host ''/opt/rcm'' w (shim_Name shim) = None"
    and d: "conf_text host (ConfigPath distro) w = Some d" "\<not> Contains d (shim_Name shim)" "clean_runtime (iter bin) bin d"
    and obs: "P = (\<lambda>w. (fs_ReadFile host (lock_path ''/opt/rcm'') w, fs_ReadFile host (ConfigPath distro) w))"
    and quiet: "\<forall>cmd. preserves P (os_Exec os cmd)" "\<forall>ctr. preserves P (Restart (container_os os ctr) (Restarter_of distro))"
    and inst: "Execute cobra v (run_command (container_os os ci) locs iter (iter bin) root base) (ctr_Args ci) w = (Ret 0, w1)"
    and uninst: "Execute cobra v (run_command (container_os os cu) locs' iter (iter bin) root base) (ctr_Args cu) w1 = (Ret 0, w2)"
  shows "conf_text host (ConfigPath distro) w2 = Some d \<and> recorded host ''/opt/rcm'' w2 = recorded host ''/opt/rcm'' w"
proof -
  let ?oi = "container_os os ci" and ?ou = "container_os os cu"
  obtain c1 where c1: "Execute cobra v (run_command ?oi locs iter (iter bin) root base) (ctr_Args ci) w
      = run_command ?oi locs iter (iter bin) root base InstallCommand c1 w" "Host_RootPath c1 = ''/mnt/node-root''"
    "Runtime_Name c1 = shim_Name shim" "RCM_Path c1 = ''/opt/rcm''" "Runtime_ConfigPath c1 = []" "RCM_AssetPath c1 = ''/assets''"
    by (rule job_command [OF lib(1) job_i(1) lib(2) _ job_i(2) lib(3,4), of InstallCommand]) simp_all
  obtain c2 where c2: "Execute cobra v (run_command ?ou locs' iter (iter bin) root base) (ctr_Args cu) w1
      = run_command ?ou locs' iter (iter bin) root base UninstallCommand c2 w1" "Host_RootPath c2 = ''/mnt/node-root''"
    "Runtime_Name c2 = shim_Name shim" "RCM_Path c2 = ''/opt/rcm''" "Runtime_ConfigPath c2 = []"
    by (rule job_command [OF lib(1) job_u(1) lib(2) _ job_u(2) lib(3,4), of UninstallCommand]) simp_all
  have det: "DetectDistro locs c1 host w = Inr distro" "DetectDistro locs' c2 host w1 = Inr distro"
    using distro(1,2) DetectDistro_path [of c1 auto_config locs host w] DetectDistro_path [of c2 auto_config locs' host w1]
      c1(5) c2(5) auto_path by simp_all
  have "installCmd ?oi locs iter root base c1 w = (Ret 0, w1)" using inst c1(1) by (simp add: run_command_def)
  from installCmd_success [OF this] det(1) distro(3) c1(2) host(1) obtain o1 where
    run1: "RunInstall ?oi iter (c1\<lparr>Runtime_ConfigPath := ConfigPath distro, Runtime_Options := o1\<rparr>) root host
       (Restart ?oi (Restarter_of distro)) w = (Ret None, w1)" by auto
  let ?c1 = "c1\<lparr>Runtime_ConfigPath := ConfigPath distro, Runtime_Options := o1\<rparr>"
  have "uninstallCmd ?ou locs' (iter bin) root base c2 w1 = (Ret 0, w2)" using uninst c2(1) by (simp add: run_command_def)
  from uninstallCmd_success [OF this] det(2) c2(2) host(1) obtain o2 where
    run2: "RunUninstall (iter bin) (c2\<lparr>Runtime_ConfigPath := ConfigPath distro, Runtime_Options := o2\<rparr>) root host
      (Restart ?ou (Restarter_of distro)) w1 = (Ret None, w2)" by auto
  have name: "RuntimeName (fi_Name f) = shim_Name shim" unfolding asset(2) by (rule RuntimeName_asset)
  have cfg: "RCM_Path ?c1 = ''/opt/rcm''" "Runtime_ConfigPath ?c1 = ConfigPath distro"
    "asset_files root (RCM_AssetPath ?c1) w = Inr ([f], ''/assets'')" using c1 asset(1) by simp_all
  have q: "\<forall>cmd. preserves P (os_Exec ?oi cmd)" using quiet(1) by simp
  show ?thesis
    by (rule install_then_uninstall [OF host(2) distro(4) cfg asset(3) ok new [folded name] d(1) d(2) [folded name] d(3) [unfolded asset(4)]
      obs q quiet(2) [rule_format] run1 _ _ _ quiet(2) [rule_format] run2 [unfolded asset(4)]]) (simp_all add: c2 name)
qed

section \<open>An example\<close>

text \<open>
  The container's file system has the assets in memory and the host mounted at \<open>/mnt/node-root\<close>; on the host, one process has
  the name of containerd.
\<close>

definition demo_root :: "(mem \<times> mem) afero" where
  "demo_root = mount_fs ''/mnt/node-root'' mem_fs mem_fs"

lemma demo_host: "base_path demo_root ''/mnt/node-root'' = on_snd mem_fs"
  unfolding demo_root_def by (rule base_of_mount)

lemma demo_apart: "\<not> under ''/mnt/node-root'' ''/assets''" "\<not> under ''/assets'' ''/mnt/node-root''"
  "\<not> under ''/mnt/node-root'' (asset_path ''/assets'' ''containerd-shim-spin-v2'')"
  by code_simp+

lemma demo_installer: "installer_fs (base_path demo_root ''/mnt/node-root'') demo_root ''/assets''"
  unfolding demo_root_def by (rule mounted_installer [OF demo_apart(1,2)])

lemma demo_assets: "asset_files demo_root ''/assets'' w = asset_files (on_fst mem_fs) ''/assets'' w"
  unfolding asset_files_def demo_root_def mount_outside [OF demo_apart(1)] by (rule refl)

definition signal_os :: "'w host_os" where
  "signal_os = quiet_os\<lparr>os_Processes := (\<lambda>w. Inr [\<lparr>Executable = ''containerd'', Pid = 7\<rparr>])\<rparr>"

lemma signal_restart: "Restart (container_os signal_os ctr) defaultRestarter = (\<lambda>w. (None, w))"
  by (simp add: fun_eq_iff Restart_def default_Restart_def ListSystemdUnits_def CombinedOutput_def getPid_def container_os_def signal_os_def
    quiet_os_def wrap_err_def)

lemma signal_options: "env_of ctr ''RUNTIME_OPTIONS'' = [] \<Longrightarrow> RuntimeOptions (container_os signal_os ctr) = Inr (Some [])"
  by (simp add: RuntimeOptions_def container_os_def env_of_def signal_os_def quiet_os_def split: option.splits)

lemma Default_simps:
  "Setup Default e w = (None, w)" "Restarter_of Default = defaultRestarter" "ConfigPath Default = ''/etc/containerd/config.toml''"
  by (simp_all add: Default_def)

text \<open>The installer sees the same on both root file systems.\<close>

lemma Install_root:
  assumes "fs_OpenFile root' (asset_path a s) = fs_OpenFile root (asset_path a s)" "fs_Blocks root' (asset_path a s) = fs_Blocks root (asset_path a s)"
  shows "Install (shim_NewConfig root' host a rcm) s = Install (shim_NewConfig root host a rcm) s"
  unfolding Install_def shim_NewConfig_def shim_Config.simps Let_def assms [unfolded asset_path_def] by (rule refl)

lemma install_loop_one: "inst' (fi_Name f) = inst (fi_Name f) \<Longrightarrow> install_loop inst' add [f] ch w = install_loop inst add [f] ch w"
  by (simp split: prod.splits outcome.splits option.splits)

lemma demo_files: "asset_files demo_root ''/assets'' node_world = Inr ([spin_file], ''/assets'')"
proof -
  have "RCM_AssetPath node_config = ''/assets''" by (simp add: node_config_def auto_config_def)
  from node_asset_files [of "snd node_world", unfolded this prod.collapse] show ?thesis unfolding demo_assets .
qed

lemma demo_RunInstall:
  assumes "RCM_AssetPath config = ''/assets''" "RCM_Path config = ''/opt/rcm''" "Runtime_ConfigPath config = ''/etc/containerd/config.toml''"
  shows "RunInstall (container_os signal_os ctr) iter config demo_root host restart node_world
    = RunInstall quiet_os iter node_config (on_fst mem_fs) host restart node_world"
proof -
  have add: "AddRuntime (containerd_NewConfig host conf restart o1) = AddRuntime (containerd_NewConfig host conf restart o2)" for conf o1 o2
    by (intro ext AddRuntime_cong) (simp_all add: containerd_NewConfig_def)
  have restart: "restart_containerd (container_os signal_os ctr) (containerd_NewConfig host conf restart o1)
      = restart_containerd quiet_os (containerd_NewConfig host conf restart o2)" for conf o1 o2
    by (simp add: fun_eq_iff restart_containerd_def ListSystemdUnits_def CombinedOutput_def InstallDbus_def RestartRuntime_def
      containerd_NewConfig_def container_os_def signal_os_def quiet_os_def)
  have sf: "fi_Name spin_file = ''containerd-shim-spin-v2''" by (simp add: spin_file_def)
  have loop: "install_loop (Install (shim_NewConfig demo_root host ''/assets'' rcm)) add [spin_file] ch w
      = install_loop (Install (shim_NewConfig (on_fst mem_fs) host ''/assets'' rcm)) add [spin_file] ch w" for rcm add ch w
    by (rule install_loop_one, unfold sf, rule Install_root) (unfold demo_root_def mount_outside [OF demo_apart(3)], rule refl, rule refl)
  have node: "RCM_AssetPath node_config = ''/assets''" "RCM_Path node_config = ''/opt/rcm''" "Runtime_ConfigPath node_config = ''/etc/containerd/config.toml''"
    by (simp_all add: node_config_def auto_config_def)
  show ?thesis
    unfolding RunInstall_def assms node demo_assets demo_files [unfolded demo_assets] sum.case prod.case Let_def loop
      add [of _ "Runtime_Options config" "Runtime_Options node_config"] restart [of _ "Runtime_Options config" "Runtime_Options node_config"]
    by (rule refl)
qed

text \<open>The distribution is found before and after a run.\<close>

lemma node_locations:
  "(l, s) \<in> set containerdConfigLocations \<Longrightarrow> mem_ReadFile l (snd node_world) = Inl ErrNotExist
    \<and> \<not> under l (lock_path ''/opt/rcm'') \<and> \<not> under l spin_bin \<and> \<not> under l ''/etc/containerd/config.toml''"
proof -
  have "\<forall>l \<in> set (map fst (containerdConfigLocations :: (path \<times> unit Settings) list)). mem_ReadFile l (snd node_world) = Inl ErrNotExist
    \<and> \<not> under l (lock_path ''/opt/rcm'') \<and> \<not> under l spin_bin \<and> \<not> under l ''/etc/containerd/config.toml''"
    by code_simp
  moreover assume "(l, s) \<in> set containerdConfigLocations"
  then have "l \<in> set (map fst (containerdConfigLocations :: (path \<times> unit Settings) list))" by (auto simp: containerdConfigLocations_def)
  ultimately show ?thesis by blast
qed

lemma mem_not_found: "mem_ReadFile q m = Inl ErrNotExist \<Longrightarrow> mem_Stat q m = Inl ErrNotExist"
  by (simp add: mem_ReadFile_def mem_Stat_def split: option.splits if_splits) (simp add: EISDIR_def)

lemma probe_none: "\<forall>(l, s) \<in> set locs. fs_Stat fs l w = Inl ErrNotExist \<Longrightarrow> \<exists>errs. probe fs w locs = Inl errs"
  by (induction locs) auto

lemma mem_detected:
  assumes "mem_get ''/etc/containerd/config.toml'' m = Some d" "same_elsewhere m" "location_order locs"
  shows "DetectDistro locs auto_config (on_snd mem_fs) (r, m) = Inr Default"
proof -
  have "fs_Stat (on_snd mem_fs) l (r, m) = Inl ErrNotExist" if "(l, s) \<in> set locs" for l s
  proof -
    from that assms(3) have "(l, s) \<in> set containerdConfigLocations" by (simp add: location_order_def)
    from node_locations [OF this] assms(2) have "mem_ReadFile l m = Inl ErrNotExist" by (simp add: same_elsewhere_def)
    then show ?thesis by (simp add: on_snd_def mem_fs_def mem_not_found)
  qed
  then obtain errs where "probe (on_snd mem_fs) (r, m) locs = Inl errs" using probe_none [of locs "on_snd mem_fs" "(r, m)"] by blast
  moreover have "fs_Stat (on_snd mem_fs) defaultContainerdConfigLocation (r, m) \<noteq> Inl e" for e
    using assms(1) by (simp add: defaultContainerdConfigLocation_def on_snd_def mem_fs_def mem_Stat_def)
  ultimately show ?thesis by (auto simp: DetectDistro_def auto_path split: sum.split)
qed

lemma some_order: "location_order containerdConfigLocations"
  by (simp add: location_order_def containerdConfigLocations_def)

lemma node_detected: "location_order locs \<Longrightarrow> DetectDistro locs auto_config (on_snd mem_fs) node_world = Inr Default"
  using mem_detected [OF node_world_ok(5), of locs "fst node_world"] by (simp add: same_elsewhere_def)

text \<open>The program of a container.\<close>

definition demo_viper :: viper where
  "demo_viper = \<lparr>v_ReadInConfig = Some ConfigFileNotFoundError, v_IsSet = (\<lambda>_. False), v_Get = (\<lambda>_. [])\<rparr>"

lemma demo_viper_simps [simp]: "v_ReadInConfig demo_viper = Some ConfigFileNotFoundError" "v_IsSet demo_viper = (\<lambda>_. False)"
  by (simp_all add: demo_viper_def)

definition demo_prog :: "Container \<Rightarrow> mem \<times> mem \<Rightarrow> nat outcome \<times> mem \<times> mem" where
  "demo_prog ctr = Execute simple_cobra demo_viper
     (run_command (container_os signal_os ctr) containerdConfigLocations (\<lambda>_. []) [] demo_root base_path) (ctr_Args ctr)"

definition demo_ctr :: "string \<Rightarrow> Container \<Rightarrow> bool" where
  "demo_ctr op ctr \<longleftrightarrow> ctr_Args ctr = job_args op ''spin-v2'' \<and> env_of ctr ''RUNTIME_OPTIONS'' = []"

lemma demo_jobs:
  assumes "op = INSTALL \<or> op = UNINSTALL"
  obtains job ctr where "createJobManifest mem_kube (\<lambda>_. []) (demo_Shim ''spin-v2'') (demo_Node ''n1'' []) op no_artifact = Inr job"
    "pod_Containers (job_Pod job) = [ctr]" "demo_ctr op ctr"
proof -
  have "\<exists>job. createJobManifest mem_kube (\<lambda>_. []) (demo_Shim ''spin-v2'') (demo_Node ''n1'' []) op no_artifact = Inr job"
    using assms by (elim disjE) (simp_all add: createJobManifest_def Let_def INSTALL_def UNINSTALL_def mem_kube_def)
  then obtain job where job: "createJobManifest mem_kube (\<lambda>_. []) (demo_Shim ''spin-v2'') (demo_Node ''n1'' []) op no_artifact = Inr job" ..
  have shim: "shim_Name (demo_Shim ''spin-v2'') = ''spin-v2''" "ContainerdRuntimeOptions (Spec (demo_Shim ''spin-v2'')) = None"
    by (simp_all add: demo_Shim_def new_meta_def)
  obtain ctr where ctr: "pod_Containers (job_Pod job) = [ctr]" "ctr_Args ctr = job_args op ''spin-v2''"
    using createJobManifest_args [OF job mem_kube.kube_helpers_axioms assms] shim(1) by auto
  moreover have "env_of ctr ''RUNTIME_OPTIONS'' = []"
    using createJobManifest_cases [OF mem_kube.kube_helpers_axioms job] ctr(1) shim(2) by (auto simp: provisioner_def env_of_def)
  ultimately show thesis using that [OF job] by (simp add: demo_ctr_def)
qed

lemma demo_install:
  assumes "demo_ctr INSTALL ctr"
  obtains m x where "demo_prog ctr node_world = (Ret 0, (fst node_world, m))"
    "host_ready ''/opt/rcm'' ''containerd-shim-spin-v2'' m" "\<not> mem_isdir ''/etc/containerd/config.toml'' m"
    "mem_get ''/etc/containerd/config.toml'' m = Some (add_text [] spin_bin ''version = 2'')"
    "host_ok (on_snd mem_fs) ''/opt/rcm'' (fst node_world, m)" "Path x = spin_bin"
    "recorded (on_snd mem_fs) ''/opt/rcm'' (fst node_world, m) ''spin-v2'' = Some x" "same_elsewhere m"
proof -
  let ?host = "on_snd mem_fs" and ?run = "run_command (container_os signal_os ctr) containerdConfigLocations (\<lambda>_. []) [] demo_root base_path"
  obtain m x where inst: "RunInstall quiet_os (\<lambda>_. []) node_config (on_fst mem_fs) ?host (\<lambda>w. (None, w)) node_world = (Ret None, (fst node_world, m))"
    and m: "host_ready ''/opt/rcm'' ''containerd-shim-spin-v2'' m" "\<not> mem_isdir ''/etc/containerd/config.toml'' m"
    "mem_get ''/etc/containerd/config.toml'' m = Some (add_text [] spin_bin ''version = 2'')"
    "host_ok ?host ''/opt/rcm'' (fst node_world, m)" "Path x = spin_bin"
    "recorded ?host ''/opt/rcm'' (fst node_world, m) ''spin-v2'' = Some x" "same_elsewhere m"
    using node_RunInstall [of "\<lambda>_. []" None] by (auto simp: wrap_err_def)
  obtain c1 where c1: "Execute simple_cobra demo_viper ?run (job_args INSTALL ''spin-v2'') node_world = ?run InstallCommand c1 node_world"
    "Host_RootPath c1 = ''/mnt/node-root''" "RCM_Path c1 = ''/opt/rcm''" "Runtime_ConfigPath c1 = []" "RCM_AssetPath c1 = ''/assets''"
    by (rule args_command [OF simple_cobra.cobra_laws_axioms, of INSTALL InstallCommand demo_viper]) simp_all
  have det: "DetectDistro containerdConfigLocations c1 ?host node_world = Inr Default"
    using node_detected [OF some_order] DetectDistro_path [of c1 auto_config] c1(4) auto_path by metis
  have "RunInstall (container_os signal_os ctr) (\<lambda>_. []) (c1\<lparr>Runtime_ConfigPath := ''/etc/containerd/config.toml'', Runtime_Options := Some []\<rparr>)
      demo_root ?host (\<lambda>w. (None, w)) node_world = (Ret None, (fst node_world, m))"
    unfolding inst [symmetric] by (rule demo_RunInstall) (simp_all add: c1)
  moreover have "ctr_Args ctr = job_args INSTALL ''spin-v2''" "RuntimeOptions (container_os signal_os ctr :: (mem \<times> mem) host_os) = Inr (Some [])"
    using assms by (simp_all add: demo_ctr_def signal_options)
  ultimately have "demo_prog ctr node_world = (Ret 0, (fst node_world, m))"
    using c1(1) det by (simp add: demo_prog_def run_command_def installCmd_def Let_def c1(2) demo_host Default_simps signal_restart)
  then show thesis using m by (rule that)
qed

lemma demo_uninstall:
  assumes "demo_ctr UNINSTALL ctr"
    and "host_ready ''/opt/rcm'' ''containerd-shim-spin-v2'' m" "\<not> mem_isdir ''/etc/containerd/config.toml'' m"
    "mem_get ''/etc/containerd/config.toml'' m = Some (add_text [] spin_bin ''version = 2'')"
    "host_ok (on_snd mem_fs) ''/opt/rcm'' (fst node_world, m)" "Path x = spin_bin"
    "recorded (on_snd mem_fs) ''/opt/rcm'' (fst node_world, m) ''spin-v2'' = Some x" "same_elsewhere m"
  obtains w2 where "demo_prog ctr (fst node_world, m) = (Ret 0, w2)"
proof -
  let ?host = "on_snd mem_fs" and ?run = "run_command (container_os signal_os ctr) containerdConfigLocations (\<lambda>_. []) [] demo_root base_path"
    and ?w = "(fst node_world, m)"
  obtain c2 where c2: "Execute simple_cobra demo_viper ?run (job_args UNINSTALL ''spin-v2'') ?w = ?run UninstallCommand c2 ?w"
    "Host_RootPath c2 = ''/mnt/node-root''" "Runtime_Name c2 = ''spin-v2''" "RCM_Path c2 = ''/opt/rcm''" "Runtime_ConfigPath c2 = []"
    by (rule args_command [OF simple_cobra.cobra_laws_axioms, of UNINSTALL UninstallCommand demo_viper]) simp_all
  have det: "DetectDistro containerdConfigLocations c2 ?host ?w = Inr Default"
    using mem_detected [OF assms(4,8) some_order] DetectDistro_path [of c2 auto_config] c2(5) auto_path by metis
  from node_RunUninstall [OF assms(2-7)] obtain w2 where
    un: "RunUninstall [] node_uninstall (on_fst mem_fs) ?host (\<lambda>w. (None, w)) ?w = (Ret None, w2)" by blast
  have "RunUninstall [] (c2\<lparr>Runtime_ConfigPath := ''/etc/containerd/config.toml'', Runtime_Options := Some []\<rparr>) demo_root ?host (\<lambda>w. (None, w)) ?w
      = (Ret None, w2)"
    unfolding un [symmetric] by (rule RunUninstall_cong) (simp_all add: c2(3,4) node_uninstall_simps)
  moreover have "ctr_Args ctr = job_args UNINSTALL ''spin-v2''" "RuntimeOptions (container_os signal_os ctr :: (mem \<times> mem) host_os) = Inr (Some [])"
    using assms(1) by (simp_all add: demo_ctr_def signal_options)
  ultimately have "demo_prog ctr ?w = (Ret 0, w2)"
    using c2(1) det by (simp add: demo_prog_def run_command_def uninstallCmd_def Let_def c2(2) demo_host Default_simps signal_restart)
  then show thesis by (rule that)
qed

theorem install_job_uninstall_job_witness:
  "\<exists>ji ju w1 w2. createJobManifest mem_kube (\<lambda>_. []) (demo_Shim ''spin-v2'') (demo_Node ''n1'' []) INSTALL no_artifact = Inr ji
     \<and> createJobManifest mem_kube (\<lambda>_. []) (demo_Shim ''spin-v2'') (demo_Node ''n1'' []) UNINSTALL no_artifact = Inr ju
     \<and> demo_prog (hd (pod_Containers (job_Pod ji))) node_world = (Ret 0, w1)
     \<and> demo_prog (hd (pod_Containers (job_Pod ju))) w1 = (Ret 0, w2)
     \<and> conf_text (base_path demo_root ''/mnt/node-root'') ''/etc/containerd/config.toml'' w2 = Some ''version = 2''
     \<and> recorded (base_path demo_root ''/mnt/node-root'') ''/opt/rcm'' w2 = Map.empty"
proof -
  let ?host = "on_snd mem_fs" and ?conf = "''/etc/containerd/config.toml''"
  obtain ji ci where ji: "createJobManifest mem_kube (\<lambda>_. []) (demo_Shim ''spin-v2'') (demo_Node ''n1'' []) INSTALL no_artifact = Inr ji"
    "pod_Containers (job_Pod ji) = [ci]" "demo_ctr INSTALL ci" by (rule demo_jobs [OF disjI1 [OF refl]])
  obtain ju cu where ju: "createJobManifest mem_kube (\<lambda>_. []) (demo_Shim ''spin-v2'') (demo_Node ''n1'' []) UNINSTALL no_artifact = Inr ju"
    "pod_Containers (job_Pod ju) = [cu]" "demo_ctr UNINSTALL cu" by (rule demo_jobs [OF disjI2 [OF refl]])
  obtain m x where run1: "demo_prog ci node_world = (Ret 0, (fst node_world, m))"
    and m: "host_ready ''/opt/rcm'' ''containerd-shim-spin-v2'' m" "\<not> mem_isdir ?conf m"
    "mem_get ?conf m = Some (add_text [] spin_bin ''version = 2'')" "host_ok ?host ''/opt/rcm'' (fst node_world, m)" "Path x = spin_bin"
    "recorded ?host ''/opt/rcm'' (fst node_world, m) ''spin-v2'' = Some x" "same_elsewhere m" by (rule demo_install [OF ji(3)])
  obtain w2 where run2: "demo_prog cu (fst node_world, m) = (Ret 0, w2)" by (rule demo_uninstall [OF ju(3) m])
  have name: "shim_Name (demo_Shim ''spin-v2'') = ''spin-v2''" by (simp add: demo_Shim_def new_meta_def)
  have sf: "fi_Name spin_file = ''containerd-shim-spin-v2''" by (simp add: spin_file_def)
  have d: "conf_text ?host ?conf node_world = Some ''version = 2''"
    using node_world_ok(5) by (simp add: conf_text_def on_snd_def mem_fs_def mem_ReadFile_def)
  have quiet: "\<forall>cmd. preserves P (os_Exec signal_os cmd)" "preserves P (\<lambda>w. (None, w))" for P :: "mem \<times> mem \<Rightarrow> _"
    by (simp_all add: preserves_def signal_os_def quiet_os_def)
  have "conf_text ?host (ConfigPath (Default :: (mem \<times> mem) Settings)) w2 = Some ''version = 2'' \<and> recorded ?host ''/opt/rcm'' w2 = recorded ?host ''/opt/rcm'' node_world"
    by (rule install_job_uninstall_job [where root = demo_root and base = base_path and host = ?host and iter = "\<lambda>_. []" and bin = spin_bin
          and distro = Default and os = signal_os,
          OF simple_cobra.cobra_laws_axioms mem_kube.kube_helpers_axioms _ _ ji(1,2) ju(1,2)
          demo_host [symmetric] demo_installer [unfolded demo_host] demo_files _ _ _ node_detected [OF some_order] mem_detected [OF m(3,7) some_order]
          Default_simps(1) _ node_world_ok(1) _ _ _ _ refl _ _
          run1 [unfolded demo_prog_def] run2 [unfolded demo_prog_def]])
       (use demo_shim_file demo_spin demo_clean node_world_ok(2) d quiet in
         \<open>simp_all add: name Default_simps node_conf_outside sf demo_paths spin_bin_def signal_restart\<close>)
  then have "conf_text ?host ?conf w2 = Some ''version = 2''" "recorded ?host ''/opt/rcm'' w2 = Map.empty"
    using node_world_ok(2) by (simp_all add: Default_simps)
  with ji ju run1 run2 show ?thesis
    unfolding demo_host by (intro exI [of _ ji] exI [of _ ju] exI [of _ "(fst node_world, m)"] exI [of _ w2] conjI) simp_all
qed

end
