(* ===== verification/Fleet.thy ===== *)
theory Fleet
  imports Node_Jobs Node_Command
begin

text \<open>
  The two halves together: the cluster, the hosts of its nodes, and the pods that run the program of a
  job on the host of the node. What Kubernetes promises of jobs is the guard of the first kind of steps: an install job
  counts as completed only after its container has exited with status 0.
\<close>

section \<open>The cluster and its hosts\<close>

record 'w pod_run =
  pr_Node :: string
  pr_Container :: Container
  pr_Before :: 'w
  pr_Status :: "nat outcome"
  pr_After :: 'w

record 'w fleet =
  cluster_of :: world
  hosts :: "string \<Rightarrow> 'w"
  pod_runs :: "'w pod_run list"

definition exited :: "'w pod_run list \<Rightarrow> Job \<Rightarrow> bool" where
  "exited rs j \<longleftrightarrow> (\<exists>ctr r. pod_Containers (job_Pod j) = [ctr] \<and> r \<in> set rs \<and> pr_Node r = pod_NodeName (job_Pod j)
     \<and> pr_Container r = ctr \<and> pr_Status r = Ret 0)"

text \<open>
  A step is one of the cluster; the run of a container of a job, any number of times, with one of the results that the program
  \<open>prog\<close> may have for that container; or a change of the hosts by anything else (other programs, the download of the artifact).
\<close>

inductive fleet_step :: "(string \<Rightarrow> string) \<Rightarrow> (string \<Rightarrow> Container \<Rightarrow> 'w \<Rightarrow> nat outcome \<times> 'w \<Rightarrow> bool) \<Rightarrow> 'w fleet \<Rightarrow> 'w fleet \<Rightarrow> bool"
  for env prog where
  cluster_moves: "\<lbrakk>cluster_step env (cluster_of f) w;
      \<And>s n. \<lbrakk>(s, n) \<in> completed w; (s, n) \<notin> completed (cluster_of f)\<rbrakk>
        \<Longrightarrow> \<exists>j \<in> set (srv_jobs (api w)). installed_by j s \<and> pod_NodeName (job_Pod j) = n \<and> exited (pod_runs f) j\<rbrakk>
    \<Longrightarrow> fleet_step env prog f (f\<lparr>cluster_of := w\<rparr>)"
| pod_runs_prog: "\<lbrakk>j \<in> set (srv_jobs (api (cluster_of f))); ctr \<in> set (pod_Containers (job_Pod j)); n = pod_NodeName (job_Pod j);
      prog n ctr (hosts f n) (status, h)\<rbrakk>
    \<Longrightarrow> fleet_step env prog f (f\<lparr>hosts := (hosts f)(n := h),
      pod_runs := \<lparr>pr_Node = n, pr_Container = ctr, pr_Before = hosts f n, pr_Status = status, pr_After = h\<rparr> # pod_runs f\<rparr>)"
| hosts_change: "fleet_step env prog f (f\<lparr>hosts := hs\<rparr>)"

inductive fleet_reachable :: "(string \<Rightarrow> string) \<Rightarrow> (string \<Rightarrow> Container \<Rightarrow> 'w \<Rightarrow> nat outcome \<times> 'w \<Rightarrow> bool) \<Rightarrow> 'w fleet \<Rightarrow> bool"
  for env prog where
  start: "initial (cluster_of f) \<Longrightarrow> pod_runs f = [] \<Longrightarrow> fleet_reachable env prog f"
| step: "fleet_reachable env prog f \<Longrightarrow> fleet_step env prog f f' \<Longrightarrow> fleet_reachable env prog f'"

section \<open>What holds in every reachable state\<close>

text \<open>The fleet refines the cluster.\<close>

lemma fleet_step_cluster: "fleet_step env prog f f' \<Longrightarrow> cluster_step env (cluster_of f) (cluster_of f') \<or> cluster_of f' = cluster_of f"
  by (erule fleet_step.cases) auto

lemma fleet_cluster: "fleet_reachable env prog f \<Longrightarrow> reachable env (cluster_of f)"
  by (induction rule: fleet_reachable.induct) (auto intro: reachable.start reachable.step dest!: fleet_step_cluster)

lemma pod_runs_ok:
  "fleet_reachable env prog f \<Longrightarrow> \<forall>r \<in> set (pod_runs f). prog (pr_Node r) (pr_Container r) (pr_Before r) (pr_Status r, pr_After r)"
proof (induction rule: fleet_reachable.induct)
  case (step f f')
  from step.hyps(2) step.IH show ?case by (cases rule: fleet_step.cases) auto
qed simp

lemma pod_runs_grow: "fleet_step env prog f f' \<Longrightarrow> set (pod_runs f) \<subseteq> set (pod_runs f')"
  by (erule fleet_step.cases) auto

definition installed_run :: "'w pod_run list \<Rightarrow> string \<Rightarrow> string \<Rightarrow> bool" where
  "installed_run rs s n \<longleftrightarrow> (\<exists>r \<in> set rs. pr_Node r = n \<and> ctr_Args (pr_Container r) = job_args INSTALL s \<and> pr_Status r = Ret 0)"

lemma installed_run_mono: "installed_run rs s n \<Longrightarrow> set rs \<subseteq> set rs' \<Longrightarrow> installed_run rs' s n"
  by (auto simp: installed_run_def)

lemma installed_by_args:
  assumes "consistent j" "installed_by j s" "pod_Containers (job_Pod j) = [ctr]"
  shows "ctr_Args ctr = job_args INSTALL s"
proof -
  have "map_get (om_Annotations (job_meta j)) ''spinkube.dev/operation'' = Some ''install''"
    using assms(2) by (auto simp: installed_by_def verdict_def split: option.splits if_splits)
  with assms show ?thesis by (auto simp: consistent_def installed_by_def job_args_def INSTALL_def)
qed

lemma completed_run:
  "fleet_reachable env prog f \<Longrightarrow> (s, n) \<in> completed (cluster_of f) \<Longrightarrow> installed_run (pod_runs f) s n"
proof (induction rule: fleet_reachable.induct)
  case (start f)
  then show ?case by (simp add: initial_def)
next
  case (step f f')
  show ?case
  proof (cases "(s, n) \<in> completed (cluster_of f)")
    case True
    then show ?thesis using step.IH pod_runs_grow [OF step.hyps(2)] by (auto intro: installed_run_mono)
  next
    case False
    from step.hyps(2) show ?thesis
    proof (cases rule: fleet_step.cases)
      case (cluster_moves w)
      with False step.prems obtain j where j: "j \<in> set (srv_jobs (api w))" "installed_by j s" "pod_NodeName (job_Pod j) = n" "exited (pod_runs f) j"
        by auto
      have "reachable env w" using fleet_cluster [OF step.hyps(1)] cluster_moves(2) by (rule reachable.step)
      then have "consistent j" using reachable_ok j(1) by (auto simp: world_ok_def cluster_ok_def job_ok_def)
      with j installed_by_args [of j s] cluster_moves(1) show ?thesis by (auto simp: exited_def installed_run_def)
    qed (use False step.prems in auto)
  qed
qed

section \<open>From the label to the host\<close>

lemma installCmd_exit:
  assumes "installCmd os locs iter root base config w = (Ret 0, w')" "host = base root (Host_RootPath config)"
  shows "\<exists>distro options w1. DetectDistro locs config host w = Inr distro
    \<and> Setup distro \<lparr>HostFs = host, env_ConfigPath = ConfigPath distro\<rparr> w = (None, w1) \<and> RuntimeOptions os = Inr options
    \<and> RunInstall os iter (config\<lparr>Runtime_ConfigPath := ConfigPath distro, Runtime_Options := options\<rparr>) root host
         (Restart os (Restarter_of distro)) w1 = (Ret None, w')"
  using assms by (auto simp: installCmd_def Let_def split: sum.splits prod.splits outcome.splits option.splits)

lemma install_exit_0:
  assumes "cobra_laws cobra" "v_ReadInConfig v \<in> {None, Some ConfigFileNotFoundError}" "v_IsSet v = (\<lambda>_. False)"
    "Execute cobra v (run_command os locs iter order root base) (job_args INSTALL s) w = (Ret 0, w')"
  shows "\<exists>config distro options w1. Runtime_Name config = s \<and> RCM_Path config = ''/opt/rcm'' \<and> RCM_AssetPath config = ''/assets''
    \<and> DetectDistro locs config (base root ''/mnt/node-root'') w = Inr distro
    \<and> Setup distro \<lparr>HostFs = base root ''/mnt/node-root'', env_ConfigPath = ConfigPath distro\<rparr> w = (None, w1) \<and> RuntimeOptions os = Inr options
    \<and> RunInstall os iter (config\<lparr>Runtime_ConfigPath := ConfigPath distro, Runtime_Options := options\<rparr>) root (base root ''/mnt/node-root'')
         (Restart os (Restarter_of distro)) w1 = (Ret None, w')"
proof -
  obtain config where config: "Execute cobra v (run_command os locs iter order root base) (job_args INSTALL s) w
      = run_command os locs iter order root base InstallCommand config w" "Host_RootPath config = ''/mnt/node-root''"
    "Runtime_Name config = s" "RCM_Path config = ''/opt/rcm''" "RCM_AssetPath config = ''/assets''"
    by (rule args_command [OF assms(1) _ assms(2,3), of INSTALL InstallCommand]) simp_all
  have "installCmd os locs iter root base config w = (Ret 0, w')" using assms(4) config(1) by (simp add: run_command_def)
  from installCmd_exit [OF this refl, unfolded config(2)] obtain distro options w1 where
    "DetectDistro locs config (base root ''/mnt/node-root'') w = Inr distro"
    "Setup distro \<lparr>HostFs = base root ''/mnt/node-root'', env_ConfigPath = ConfigPath distro\<rparr> w = (None, w1)" "RuntimeOptions os = Inr options"
    "RunInstall os iter (config\<lparr>Runtime_ConfigPath := ConfigPath distro, Runtime_Options := options\<rparr>) root (base root ''/mnt/node-root'')
         (Restart os (Restarter_of distro)) w1 = (Ret None, w')" by (elim exE conjE)
  with config(3-5) show ?thesis
    by (intro exI [of _ config] exI [of _ distro] exI [of _ options] exI [of _ w1] conjI)
qed

text \<open>
  What a run of a container may do: it is the program of the node installer with the arguments and the environment of
  the container, and visits the locations and the options of the shim in some order of its own.
\<close>

definition installer_prog :: "cobra \<Rightarrow> viper \<Rightarrow> (string \<Rightarrow> 'w host_os) \<Rightarrow> 'w afero \<Rightarrow> ('w afero \<Rightarrow> path \<Rightarrow> 'w afero)
    \<Rightarrow> string \<Rightarrow> Container \<Rightarrow> 'w \<Rightarrow> nat outcome \<times> 'w \<Rightarrow> bool" where
  "installer_prog cobra v os root base n ctr w r \<longleftrightarrow>
     (\<exists>locs iter order. location_order locs
        \<and> (\<forall>opts. RuntimeOptions (container_os (os n) ctr) = Inr opts \<longrightarrow> iterates opts order \<and> (\<forall>p. iterates opts (iter p)))
        \<and> Execute cobra v (run_command (container_os (os n) ctr) locs iter order root base) (ctr_Args ctr) w = r)"

text \<open>
  C16. A node is labelled as provisioned for a shim only if, at some time, the node installer was run for that
  shim on the host of that node, found its distribution, set it up, and \<open>RunInstall\<close> returned without an error: in every
  reachable state of the cluster with its hosts, however the reconcilers, the pods, the users and the
  hosts interleave. Every run has the environment of its own container, with the runtime options of the shim, and its own orders
  of the maps. (\<open>RunInstall\<close> has then recorded every asset and restarted containerd if anything changed. The
  guarantee of Kubernetes that is used is that a job completes only after its container has exited with 0. No variable or
  configuration file overrides a flag.)
\<close>

theorem provisioned_node_installed:
  assumes "cobra_laws cobra" "v_ReadInConfig v \<in> {None, Some ConfigFileNotFoundError}" "v_IsSet v = (\<lambda>_. False)"
    "fleet_reachable env (installer_prog cobra v os root base) f"
    "nd \<in> set (srv_nodes (api (cluster_of f)))" "map_get (om_Labels (node_meta nd)) s = Some ''provisioned''"
  shows "\<exists>r \<in> set (pod_runs f). pr_Node r = node_Name nd \<and> ctr_Args (pr_Container r) = job_args INSTALL s
    \<and> (\<exists>pod_os config distro options locs iter w1. pod_os = container_os (os (node_Name nd)) (pr_Container r)
      \<and> Runtime_Name config = s \<and> RCM_Path config = ''/opt/rcm'' \<and> RCM_AssetPath config = ''/assets''
      \<and> location_order locs \<and> DetectDistro locs config (base root ''/mnt/node-root'') (pr_Before r) = Inr distro
      \<and> Setup distro \<lparr>HostFs = base root ''/mnt/node-root'', env_ConfigPath = ConfigPath distro\<rparr> (pr_Before r) = (None, w1)
      \<and> RuntimeOptions pod_os = Inr options \<and> (\<forall>p. iterates options (iter p))
      \<and> RunInstall pod_os iter (config\<lparr>Runtime_ConfigPath := ConfigPath distro, Runtime_Options := options\<rparr>) root
          (base root ''/mnt/node-root'') (Restart pod_os (Restarter_of distro)) w1 = (Ret None, pr_After r))"
proof -
  have "(s, node_Name nd) \<in> completed (cluster_of f)"
    using reachable_ok [OF fleet_cluster [OF assms(4)]] assms(5,6) by (auto simp: world_ok_def cluster_ok_def node_ok_def)
  with completed_run [OF assms(4)] obtain r where r: "r \<in> set (pod_runs f)" "pr_Node r = node_Name nd"
    "ctr_Args (pr_Container r) = job_args INSTALL s" "pr_Status r = Ret 0" by (auto simp: installed_run_def)
  let ?os = "container_os (os (node_Name nd)) (pr_Container r)"
  from pod_runs_ok [OF assms(4)] r have "installer_prog cobra v os root base (node_Name nd) (pr_Container r) (pr_Before r) (Ret 0, pr_After r)" by force
  then obtain locs iter order where maps: "location_order locs"
      "\<forall>opts. RuntimeOptions ?os = Inr opts \<longrightarrow> iterates opts order \<and> (\<forall>p. iterates opts (iter p))"
    and run: "Execute cobra v (run_command ?os locs iter order root base) (job_args INSTALL s) (pr_Before r) = (Ret 0, pr_After r)"
    unfolding installer_prog_def r(3) by (elim exE conjE)
  from install_exit_0 [OF assms(1-3) run] obtain config distro options w1 where
    inst: "Runtime_Name config = s" "RCM_Path config = ''/opt/rcm''" "RCM_AssetPath config = ''/assets''"
      "DetectDistro locs config (base root ''/mnt/node-root'') (pr_Before r) = Inr distro"
      "Setup distro \<lparr>HostFs = base root ''/mnt/node-root'', env_ConfigPath = ConfigPath distro\<rparr> (pr_Before r) = (None, w1)"
      "RuntimeOptions ?os = Inr options"
      "RunInstall ?os iter (config\<lparr>Runtime_ConfigPath := ConfigPath distro, Runtime_Options := options\<rparr>) root
          (base root ''/mnt/node-root'') (Restart ?os (Restarter_of distro)) w1 = (Ret None, pr_After r)" by (elim exE conjE)
  have "\<forall>p. iterates options (iter p)" using maps(2) inst(6) by blast
  with inst maps(1) r(1-3) show ?thesis by (intro bexI [of _ r] exI conjI) (rule refl | assumption)+
qed

section \<open>Witness\<close>

text \<open>One node, whose host is that of \<open>node_world\<close>.\<close>

definition fleet0 :: "(mem \<times> mem) fleet" where
  "fleet0 = \<lparr>cluster_of = \<lparr>api = \<lparr>srv_shims = [demo_Shim ''spin-v2''], srv_nodes = [demo_Node ''n1'' [(''arch'', ''amd64'')]],
     srv_jobs = [], srv_classes = [], srv_refused = []\<rparr>, completed = {}, runs = []\<rparr>, hosts = (\<lambda>_. node_world), pod_runs = []\<rparr>"

definition fleet_req :: NamespacedName where
  "fleet_req = \<lparr>nn_Name = ''spin-v2'', nn_Namespace = []\<rparr>"

definition job_req :: NamespacedName where
  "job_req = \<lparr>nn_Name = ''n1-spin-v2-install'', nn_Namespace = []\<rparr>"

definition fleet_api1 :: server where
  "fleet_api1 = snd (Reconcile mem_kube no_env fleet_req (api (cluster_of fleet0)))"

definition fleet_api2 :: server where
  "fleet_api2 = set_conditions ''n1-spin-v2-install'' [done_condition] fleet_api1"

definition fleet_api3 :: server where
  "fleet_api3 = snd (job_Reconcile mem_kube job_req fleet_api2)"

lemma completed_grows: "cluster_step env w w' \<Longrightarrow> completed w \<subseteq> completed w'"
  by (cases rule: cluster_step.cases) auto

lemma cluster_run_lifts:
  assumes "(cluster_step env)\<^sup>*\<^sup>* w w'" "completed w' = completed w" "fleet_reachable env prog f" "cluster_of f = w"
  shows "fleet_reachable env prog (f\<lparr>cluster_of := w'\<rparr>)"
  using assms
proof (induction rule: rtranclp_induct)
  case base
  then show ?case by (metis fleet.surjective fleet.update_convs(1) fleet.select_convs(1))
next
  case (step w1 w2)
  have "completed w \<subseteq> completed w1" using step.hyps(1) by (induction rule: rtranclp_induct) (auto dest: completed_grows)
  with completed_grows [OF step.hyps(2)] step.prems(1) have same: "completed w1 = completed w" by blast
  have "fleet_step env prog (f\<lparr>cluster_of := w1\<rparr>) ((f\<lparr>cluster_of := w1\<rparr>)\<lparr>cluster_of := w2\<rparr>)"
    using step.hyps(2) step.prems(1) same by (intro fleet_step.cluster_moves) simp_all
  with step.IH [OF same step.prems(2,3)] show ?case by (auto intro: fleet_reachable.step)
qed


lemma fleet_run_lifts:
  assumes "fleet_reachable env prog f" "cluster_of f = w"
  shows "\<exists>rs. fleet_reachable env prog (f\<lparr>cluster_of := w\<lparr>api := snd (Reconcile mem_kube env req (api w)), runs := rs\<rparr>\<rparr>)"
    "\<exists>rs. fleet_reachable env prog (f\<lparr>cluster_of := w\<lparr>api := snd (job_Reconcile mem_kube req (api w)), runs := rs\<rparr>\<rparr>)"
proof -
  from tracked_run [OF tracks_Reconcile [of env req], where env = env and w = w and r = "ShimRun req"]
  obtain rs where "(cluster_step env)\<^sup>*\<^sup>* w (w\<lparr>api := snd (Reconcile mem_kube env req (api w)), runs := rs\<rparr>)" by auto
  from cluster_run_lifts [OF this _ assms] show "\<exists>rs. fleet_reachable env prog (f\<lparr>cluster_of := w\<lparr>api := snd (Reconcile mem_kube env req (api w)), runs := rs\<rparr>\<rparr>)"
    by auto
  from tracked_run [OF tracks_job_Reconcile [of req], where env = env and w = w and r = "JobRun req"]
  obtain rs where "(cluster_step env)\<^sup>*\<^sup>* w (w\<lparr>api := snd (job_Reconcile mem_kube req (api w)), runs := rs\<rparr>)" by auto
  from cluster_run_lifts [OF this _ assms] show "\<exists>rs. fleet_reachable env prog (f\<lparr>cluster_of := w\<lparr>api := snd (job_Reconcile mem_kube req (api w)), runs := rs\<rparr>\<rparr>)"
    by auto
qed

lemma fleet_facts:
  "map (\<lambda>j. (job_Name j, pod_NodeName (job_Pod j), map (\<lambda>ctr. (ctr_Args ctr, env_of ctr ''RUNTIME_OPTIONS'')) (pod_Containers (job_Pod j))))
     (srv_jobs fleet_api1) = [(''n1-spin-v2-install'', ''n1'', [(job_args INSTALL ''spin-v2'', [])])]"
  "map job_Pod (srv_jobs fleet_api2) = map job_Pod (srv_jobs fleet_api1)"
  "map (\<lambda>nd. (node_Name nd, map_get (om_Labels (node_meta nd)) ''spin-v2'')) (srv_nodes fleet_api3) = [(''n1'', Some ''provisioned'')]"
  by (code_simp, simp add: fleet_api2_def set_conditions_def o_def if_distrib cong: if_cong, code_simp)

abbreviation demo_programs :: "string \<Rightarrow> Container \<Rightarrow> mem \<times> mem \<Rightarrow> nat outcome \<times> mem \<times> mem \<Rightarrow> bool" where
  "demo_programs \<equiv> installer_prog simple_cobra demo_viper (\<lambda>_. signal_os) demo_root base_path"

lemma demo_programs: "demo_ctr op ctr \<Longrightarrow> demo_programs n ctr w (demo_prog ctr w)"
  unfolding installer_prog_def demo_prog_def
  by (intro exI [of _ containerdConfigLocations] exI [of _ "\<lambda>_. []"] exI [of _ "[]"] conjI some_order refl)
     (simp add: demo_ctr_def signal_options iterates_def)

lemma fleet_example:
  obtains f h ctr where "fleet_reachable no_env demo_programs f" "api (cluster_of f) = fleet_api3"
    "pod_runs f = [\<lparr>pr_Node = ''n1'', pr_Container = ctr, pr_Before = node_world, pr_Status = Ret 0, pr_After = h\<rparr>]"
proof -
  have "fleet_reachable no_env demo_programs fleet0"
    by (rule fleet_reachable.start) (simp_all add: fleet0_def initial_def demo_Node_def new_meta_def)
  from fleet_run_lifts(1) [OF this refl, of fleet_req] obtain rs where
    1: "fleet_reachable no_env demo_programs (fleet0\<lparr>cluster_of := (cluster_of fleet0)\<lparr>api := fleet_api1, runs := rs\<rparr>\<rparr>)"
    unfolding fleet_api1_def by blast
  obtain j1 ctr where j1: "srv_jobs fleet_api1 = [j1]" "pod_NodeName (job_Pod j1) = ''n1''" "pod_Containers (job_Pod j1) = [ctr]" "demo_ctr INSTALL ctr"
    using fleet_facts(1) by (auto simp: map_eq_Cons_conv demo_ctr_def)
  obtain m where exit: "demo_prog ctr node_world = (Ret 0, (fst node_world, m))" by (rule demo_install [OF j1(4)])
  let ?h = "(fst node_world, m)" and ?w1 = "(cluster_of fleet0)\<lparr>api := fleet_api1, runs := rs\<rparr>"
  let ?g = "fleet0\<lparr>cluster_of := ?w1\<rparr>"
  let ?f2 = "?g\<lparr>hosts := (hosts ?g)(''n1'' := ?h), pod_runs := \<lparr>pr_Node = ''n1'', pr_Container = ctr, pr_Before = hosts ?g ''n1'',
    pr_Status = Ret 0, pr_After = ?h\<rparr> # pod_runs ?g\<rparr>"
  have world: "hosts ?g ''n1'' = node_world" "pod_runs ?g = []" by (simp_all add: fleet0_def)
  have "fleet_step no_env demo_programs ?g ?f2"
  proof (rule fleet_step.pod_runs_prog)
    show "j1 \<in> set (srv_jobs (api (cluster_of ?g)))" "ctr \<in> set (pod_Containers (job_Pod j1))" "''n1'' = pod_NodeName (job_Pod j1)"
      using j1 by simp_all
    show "demo_programs ''n1'' ctr (hosts ?g ''n1'') (Ret 0, ?h)" unfolding world exit [symmetric] by (rule demo_programs [OF j1(4)])
  qed
  with 1 have 2: "fleet_reachable no_env demo_programs ?f2" by (rule fleet_reachable.step)
  let ?w3 = "?w1\<lparr>api := fleet_api2, completed := completed ?w1 \<union> completions fleet_api2\<rparr>"
  obtain j2 where j2: "srv_jobs fleet_api2 = [j2]" "job_Pod j2 = job_Pod j1"
    using fleet_facts(2) by (auto simp: j1(1) map_eq_Cons_conv)
  have "cluster_step no_env ?w1 ?w3"
    by (rule cluster_step.job_status) (simp add: fleet_api2_def)
  then have "cluster_step no_env (cluster_of ?f2) ?w3" by simp
  then have "fleet_step no_env demo_programs ?f2 (?f2\<lparr>cluster_of := ?w3\<rparr>)"
  proof (rule fleet_step.cluster_moves)
    fix s n assume "(s, n) \<in> completed ?w3" "(s, n) \<notin> completed (cluster_of ?f2)"
    then have "(s, n) \<in> completions fleet_api2" by simp
    then obtain j where j: "j \<in> set (srv_jobs fleet_api2)" "installed_by j s" "pod_NodeName (job_Pod j) = n"
      unfolding completions_def by blast
    then have "j = j2" by (simp add: j2(1))
    then have "exited (pod_runs ?f2) j" unfolding exited_def using j2 j1
      by (intro exI [of _ ctr] exI [of _ "hd (pod_runs ?f2)"]) simp
    with j show "\<exists>j \<in> set (srv_jobs (api ?w3)). installed_by j s \<and> pod_NodeName (job_Pod j) = n \<and> exited (pod_runs ?f2) j" by auto
  qed
  with 2 have 3: "fleet_reachable no_env demo_programs (?f2\<lparr>cluster_of := ?w3\<rparr>)" by (rule fleet_reachable.step)
  from fleet_run_lifts(2) [OF 3 refl, of job_req] obtain rs3 where
    "fleet_reachable no_env demo_programs (?f2\<lparr>cluster_of := ?w3\<lparr>api := fleet_api3, runs := rs3\<rparr>\<rparr>)"
    by (auto simp: fleet_api3_def)
  then show thesis by (rule that) (use world in simp_all)
qed

theorem provisioned_node_installed_witness:
  "\<exists>h ctr distro options locs iter w1 config. RunInstall (container_os signal_os ctr) iter
      (config\<lparr>Runtime_ConfigPath := ConfigPath distro, Runtime_Options := options\<rparr>)
      demo_root (base_path demo_root ''/mnt/node-root'') (Restart (container_os signal_os ctr) (Restarter_of distro)) w1 = (Ret None, h)
    \<and> Setup distro \<lparr>HostFs = base_path demo_root ''/mnt/node-root'', env_ConfigPath = ConfigPath distro\<rparr> node_world = (None, w1)
    \<and> Runtime_Name config = ''spin-v2'' \<and> location_order locs
    \<and> DetectDistro locs config (base_path demo_root ''/mnt/node-root'') node_world = Inr distro"
proof -
  obtain f h ctr where f: "fleet_reachable no_env demo_programs f" "api (cluster_of f) = fleet_api3"
    "pod_runs f = [\<lparr>pr_Node = ''n1'', pr_Container = ctr, pr_Before = node_world, pr_Status = Ret 0, pr_After = h\<rparr>]"
    by (rule fleet_example)
  obtain nd where nd: "nd \<in> set (srv_nodes (api (cluster_of f)))" "map_get (om_Labels (node_meta nd)) ''spin-v2'' = Some ''provisioned''"
    unfolding f(2) using fleet_facts(3) by (auto simp: map_eq_Cons_conv)
  have v: "v_ReadInConfig demo_viper \<in> {None, Some ConfigFileNotFoundError}" "v_IsSet demo_viper = (\<lambda>_. False)" by simp_all
  from provisioned_node_installed [OF simple_cobra.cobra_laws_axioms v f(1) nd]
  obtain r pod_os config distro options locs iter w1 where r: "r \<in> set (pod_runs f)" "pod_os = container_os signal_os (pr_Container r)"
    "Runtime_Name config = ''spin-v2''" "location_order locs"
    "DetectDistro locs config (base_path demo_root ''/mnt/node-root'') (pr_Before r) = Inr distro"
    "Setup distro \<lparr>HostFs = base_path demo_root ''/mnt/node-root'', env_ConfigPath = ConfigPath distro\<rparr> (pr_Before r) = (None, w1)"
    "RunInstall pod_os iter (config\<lparr>Runtime_ConfigPath := ConfigPath distro, Runtime_Options := options\<rparr>) demo_root
        (base_path demo_root ''/mnt/node-root'') (Restart pod_os (Restarter_of distro)) w1 = (Ret None, pr_After r)"
    by (elim bexE exE conjE) (rule that, assumption+)
  from r(1) have "pr_Before r = node_world" "pr_Container r = ctr" "pr_After r = h" by (simp_all add: f(3))
  from r(2-7) [unfolded this] show ?thesis
    by (intro exI [of _ h] exI [of _ ctr] exI [of _ distro] exI [of _ options] exI [of _ locs] exI [of _ iter] exI [of _ w1] exI [of _ config] conjI)
       (simp_all only:)
qed

end
