(* ===== verification/Shim_Reconcile.thy ===== *)
theory Shim_Reconcile
  imports Shim_Controller
begin

text \<open>
  What a whole run of \<open>Reconcile\<close> of the shim controller sends to the API server. \<open>Reconcile_cases\<close>
  splits a run into its five courses; the properties follow from it and from the logs of the
  operations in \<open>Shim_Controller\<close>.
\<close>

section \<open>The logs of the parts\<close>

lemma with_counts_simps [simp]:
  "shim_meta (with_counts shim nodes) = shim_meta shim" "Spec (with_counts shim nodes) = Spec shim"
  by (simp_all add: with_counts_def)

lemma updateStatus_log:
  assumes K: "kube_helpers K" and run: "updateStatus (logging K) shim nodes (c, l) = ((err, shim'), (c', l'))"
  shows "\<exists>b ns. l' = l @ [UpdatedShim (with_counts shim nodes) b,
      GotShim \<lparr>nn_Name = shim_Name shim, nn_Namespace = ns\<rparr> (if err = None then Some shim' else None)]
    \<and> shim_Name shim' = shim_Name shim"
proof -
  let ?s = "with_counts shim nodes"
  obtain r c1 where up: "k_UpdateShim K ?s c = (r, c1)" by (meson surj_pair)
  define shim2 where "shim2 = (case r of Inl _ \<Rightarrow> ?s | Inr s \<Rightarrow> s)"
  have name: "shim_Name shim2 = shim_Name shim"
    using kube_helpers.UpdateShim_same [OF K, of ?s c "projr r" c1] up by (cases r) (simp_all add: shim2_def)
  let ?key = "\<lparr>nn_Name = shim_Name shim2, nn_Namespace = om_Namespace (shim_meta shim2)\<rparr>"
  obtain r2 c2 where get: "k_GetShim K ?key c1 = (r2, c2)" by (meson surj_pair)
  have "updateStatus (logging K) shim nodes (c, l) =
      ((case r2 of Inl e \<Rightarrow> Some (Wrap ''failed to fetch shim'' e) | Inr _ \<Rightarrow> None, case r2 of Inl _ \<Rightarrow> shim2 | Inr s \<Rightarrow> s),
       (c2, l @ [UpdatedShim ?s (ok_sum r), GotShim ?key (case r2 of Inl _ \<Rightarrow> None | Inr s \<Rightarrow> Some s)]))"
    using get by (cases r2) (simp_all add: updateStatus_def logging_sel log_sum_eq log_res_eq Let_def up shim2_def [symmetric])
  with run have eqs: "err = (case r2 of Inl e \<Rightarrow> Some (Wrap ''failed to fetch shim'' e) | Inr _ \<Rightarrow> None)"
      "shim' = (case r2 of Inl _ \<Rightarrow> shim2 | Inr s \<Rightarrow> s)"
      "l' = l @ [UpdatedShim ?s (ok_sum r), GotShim ?key (case r2 of Inl _ \<Rightarrow> None | Inr s \<Rightarrow> Some s)]"
    by simp_all
  have "shim_Name s = shim_Name shim" if "r2 = Inr s" for s
    using kube_helpers.GetShim_name [OF K, of ?key c1 s c2] get that name by simp
  then have "shim_Name shim' = shim_Name shim" using name by (cases r2) (simp_all add: eqs)
  moreover have "(case r2 of Inl _ \<Rightarrow> None | Inr s \<Rightarrow> Some s) = (if err = None then Some shim' else None)"
    by (cases r2) (simp_all add: eqs(1,2))
  ultimately show ?thesis using eqs(3) name
    by (intro exI [of _ "ok_sum r"] exI [of _ "om_Namespace (shim_meta shim2)"]) simp
qed

definition ensured :: "'c kube \<Rightarrow> Shim \<Rightarrow> call list \<Rightarrow> bool" where
  "ensured K shim fin \<longleftrightarrow>
     (if RCMOperatorFinalizer \<in> set (om_Finalizers (shim_meta shim)) then fin = []
      else \<exists>b. fin = [UpdatedShim (k_AddFinalizer K shim RCMOperatorFinalizer) b])"

lemma ensureFinalizer_log:
  assumes K: "kube_helpers K" and run: "snd (ensureFinalizerForShim (logging K) shim RCMOperatorFinalizer (c, l)) = (c', l')"
  shows "\<exists>fin. l' = l @ fin \<and> ensured K shim fin"
proof (cases "RCMOperatorFinalizer \<in> set (om_Finalizers (shim_meta shim))")
  case True
  with run show ?thesis
    by (simp add: ensureFinalizerForShim_def ensured_def logging_sel kube_helpers.ContainsFinalizer_iff [OF K])
next
  case False
  obtain r c1 where "k_UpdateShim K (k_AddFinalizer K shim RCMOperatorFinalizer) c = (r, c1)" by (meson surj_pair)
  with run False show ?thesis
    by (cases r) (auto simp: ensureFinalizerForShim_def ensured_def Let_def logging_sel log_sum_eq kube_helpers.ContainsFinalizer_iff [OF K])
qed

lemma list_log:
  "getNodeListFromShimsNodeSelector (logging K) shim (c, l) = (r, (c', l')) \<Longrightarrow>
     l' = l @ [ListedNodes (entries (NodeSelector (Spec shim))) (case r of Inl _ \<Rightarrow> None | Inr ns \<Rightarrow> Some ns)]"
  by (auto simp: getNodeListFromShimsNodeSelector_def logging_sel log_res_eq split: prod.splits sum.splits)

section \<open>The courses of a run\<close>

text \<open>
  The calls before the deletion or the installation. \<open>sel\<close> is the node selector of the shim.
\<close>

definition preamble :: "NamespacedName \<Rightarrow> Shim \<Rightarrow> Node list \<Rightarrow> bool \<Rightarrow> string \<Rightarrow> Shim option \<Rightarrow> call list" where
  "preamble req shim nodes b ns again =
     [GotShim req (Some shim), ListedNodes (entries (NodeSelector (Spec shim))) (Some nodes), UpdatedShim (with_counts shim nodes) b,
      GotShim \<lparr>nn_Name = nn_Name req, nn_Namespace = ns\<rparr> again]"

lemma Reconcile_cases:
  assumes K: "kube_helpers K" and run: "Reconcile (logging K) env req (c, l) = (r, (c', l'))"
  obtains
    (missing) e c1 where "k_GetShim K req c = (Inl e, c1)" "r = Ret (k_IgnoreNotFound K (Some e))" "l' = l @ [GotShim req None]"
  | (unlisted) shim c1 e fin where "k_GetShim K req c = (Inr shim, c1)" "r = Ret (Some e)"
      "l' = l @ [GotShim req (Some shim), ListedNodes (entries (NodeSelector (Spec shim))) None] @ fin" "ensured K shim fin"
  | (unfetched) shim c1 nodes b ns e shim1 fin where "k_GetShim K req c = (Inr shim, c1)" "r = Ret (Some e)"
      "l' = l @ preamble req shim nodes b ns None @ fin" "ensured K shim1 fin"
  | (deleting) shim c1 nodes b ns c2 shim1 c3 l3 shim2 fin where "k_GetShim K req c = (Inr shim, c1)"
      "om_DeletionTimestamp (shim_meta shim1) \<noteq> None" "shim_Name shim1 = nn_Name req"
      "reconcile_delete (logging K) env shim1 nodes (c2, l @ preamble req shim nodes b ns (Some shim1)) = ((r, shim2), (c3, l3))"
      "l' = l3 @ fin" "ensured K shim2 fin"
  | (installing) shim c1 nodes b ns c2 shim1 c3 l3 fin where "k_GetShim K req c = (Inr shim, c1)"
      "om_DeletionTimestamp (shim_meta shim1) = None" "shim_Name shim1 = nn_Name req"
      "reconcile_install (logging K) env shim1 nodes (c2, l @ preamble req shim nodes b ns (Some shim1)) = (r, (c3, l3))"
      "l' = l3 @ fin" "ensured K shim1 fin"
proof -
  obtain r0 c1 where get: "k_GetShim K req c = (r0, c1)" by (meson surj_pair)
  show ?thesis
  proof (cases r0)
    case (Inl e)
    with run get missing show ?thesis by (simp add: Reconcile_def logging_sel log_sum_eq log_res_eq)
  next
    case (Inr shim)
    have name: "shim_Name shim = nn_Name req"
      using kube_helpers.GetShim_name [OF K] get Inr by blast
    let ?l1 = "l @ [GotShim req (Some shim)]"
    obtain r' shim' c3 l3 where body: "reconcile_body (logging K) env shim (c1, ?l1) = ((r', shim'), (c3, l3))"
      by (metis surj_pair)
    have "r' = r" "snd (ensureFinalizerForShim (logging K) shim' RCMOperatorFinalizer (c3, l3)) = (c', l')"
      using run get Inr body by (simp_all add: Reconcile_def logging_sel log_sum_eq log_res_eq)
    with ensureFinalizer_log [OF K this(2)] obtain fin where fin: "l' = l3 @ fin" "ensured K shim' fin" by blast
    obtain rl c2 l2 where nl: "getNodeListFromShimsNodeSelector (logging K) shim (c1, ?l1) = (rl, (c2, l2))"
      by (metis surj_pair)
    show ?thesis
    proof (cases rl)
      case (Inl e)
      with nl body have "r' = Ret (Some e)" "shim' = shim" "l3 = l2" by (simp_all add: reconcile_body_def)
      with Inl list_log [OF nl] fin \<open>r' = r\<close> show ?thesis
        by (intro unlisted [OF get [unfolded \<open>r0 = Inr shim\<close>], of e fin]) simp_all
    next
      case (Inr nodes)
      obtain err shim1 c4 l4 where us: "updateStatus (logging K) shim nodes (c2, l2) = ((err, shim1), (c4, l4))"
        by (metis surj_pair)
      from updateStatus_log [OF K us] obtain b ns where
        l4: "l4 = l2 @ [UpdatedShim (with_counts shim nodes) b, GotShim \<lparr>nn_Name = shim_Name shim, nn_Namespace = ns\<rparr> (if err = None then Some shim1 else None)]"
        and name1: "shim_Name shim1 = shim_Name shim" by blast
      have op: "l4 = l @ preamble req shim nodes b ns (if err = None then Some shim1 else None)"
        using l4 list_log [OF nl] Inr name by (simp add: preamble_def)
      note shim = get [unfolded \<open>r0 = Inr shim\<close>]
      show ?thesis
      proof (cases err)
        case (Some e)
        with body nl Inr us have "r' = Ret (Some e)" "shim' = shim1" "l3 = l4" by (simp_all add: reconcile_body_def)
        with fin op Some \<open>r' = r\<close> show ?thesis by (intro unfetched [OF shim, of e nodes b ns fin shim1]) simp_all
      next
        case None
        show ?thesis
        proof (cases "om_DeletionTimestamp (shim_meta shim1)")
          case (Some t)
          with body nl Inr us None have "reconcile_delete (logging K) env shim1 nodes (c4, l4) = ((r', shim'), (c3, l3))"
            by (simp add: reconcile_body_def)
          with fin op None Some name name1 \<open>r' = r\<close> show ?thesis
            by (intro deleting [OF shim, of shim1 nodes c4 b ns shim' c3 l3 fin]) simp_all
        next
          case none: None
          with body nl Inr us None have "reconcile_install (logging K) env shim1 nodes (c4, l4) = (r', (c3, l3))" "shim' = shim1"
            by (auto simp: reconcile_body_def split: prod.splits)
          with fin op None none name name1 \<open>r' = r\<close> show ?thesis
            by (intro installing [OF shim, of shim1 nodes c4 b ns c3 l3 fin]) simp_all
        qed
      qed
    qed
  qed
qed

section \<open>Deletion\<close>

text \<open>
  A node is handled when an uninstall job for it was accepted, or when the attempt to send one ended with a NotFound
  error, of the node or of the job, and without a job. The second case is no success, but \<open>handleDeleteShim\<close> ignores it.
\<close>

definition uninstall_accepted :: "string \<Rightarrow> string \<Rightarrow> call list \<Rightarrow> bool" where
  "uninstall_accepted shim node log \<longleftrightarrow> (\<exists>tr. sublist tr log \<and> deploy_trace shim node UNINSTALL UNINSTALL None tr)"

definition uninstall_not_found :: "'c kube \<Rightarrow> string \<Rightarrow> string \<Rightarrow> call list \<Rightarrow> bool" where
  "uninstall_not_found K shim node log \<longleftrightarrow>
     (\<exists>e tr. sublist tr log \<and> deploy_trace shim node UNINSTALL UNINSTALL (Some e) tr \<and> k_IsNotFound K e
        \<and> (\<forall>job. PatchedJob job True \<notin> set tr))"

definition uninstall_handled :: "'c kube \<Rightarrow> string \<Rightarrow> string \<Rightarrow> call list \<Rightarrow> bool" where
  "uninstall_handled K shim node log \<longleftrightarrow> uninstall_accepted shim node log \<or> uninstall_not_found K shim node log"

lemma failed_trace: "deploy_trace shim node op status (Some e) tr \<Longrightarrow> PatchedJob job True \<notin> set tr"
  by (erule deploy_traceE) (auto elim!: label_traceE)

lemma uninstall_handledI:
  assumes "kube_helpers K" "sublist tr log" "deploy_trace shim node UNINSTALL UNINSTALL err tr" "k_IgnoreNotFound K err = None"
  shows "uninstall_handled K shim node log"
proof (cases err)
  case None
  with assms(2,3) show ?thesis by (auto simp: uninstall_handled_def uninstall_accepted_def)
next
  case (Some e)
  with assms(4) have "k_IsNotFound K e" using kube_helpers.IgnoreNotFound_Some [OF assms(1), of e] by (simp split: if_splits)
  with assms(2,3) Some failed_trace show ?thesis by (auto simp: uninstall_handled_def uninstall_not_found_def)
qed

definition drops_finalizer :: "call \<Rightarrow> bool" where
  "drops_finalizer ev \<longleftrightarrow> (\<exists>s b. ev = UpdatedShim s b \<and> RCMOperatorFinalizer \<notin> set (om_Finalizers (shim_meta s)))"

lemma list_all2_trace:
  assumes "list_all2 (\<lambda>n (e, log). P n e log) ns ts" "n \<in> set ns"
  shows "\<exists>e log. (e, log) \<in> set ts \<and> P n e log \<and> sublist log (concat (map snd ts))"
proof -
  obtain e log where "(e, log) \<in> set ts" "P n e log"
    using assms by (fastforce simp: list_all2_conv_all_nth in_set_conv_nth)
  moreover from this(1) obtain xs ys where "ts = xs @ (e, log) # ys" by (meson split_list)
  then have "sublist log (concat (map snd ts))" by (auto simp: sublist_def)
  ultimately show ?thesis by blast
qed

lemma unique_split:
  assumes "xs @ y # ys = pre @ ev # post" "P ev" "\<And>x. x \<in> set xs \<Longrightarrow> \<not> P x" "\<And>x. x \<in> set ys \<Longrightarrow> \<not> P x"
  shows "pre = xs \<and> ev = y \<and> post = ys"
  using assms
proof (induction xs arbitrary: pre)
  case Nil
  then show ?case by (cases pre) (auto dest: arg_cong [where f = set])
next
  case (Cons x xs)
  then show ?case by (cases pre) auto
qed

lemma reconcile_delete_log:
  assumes K: "kube_helpers K" and run: "reconcile_delete (logging K) env shim nodes (c, l) = ((r, shim'), (c', l'))"
  shows "\<exists>log fin. l' = l @ log @ fin
    \<and> (\<forall>ev \<in> set log. job_event (\<lambda>j. \<exists>n \<in> set nodes. has_label n (shim_Name shim)
          \<and> job_for j (shim_Name shim) (node_Name n) UNINSTALL) ev)
    \<and> (r = Ret None \<or> fin \<noteq> [] \<longrightarrow>
         (\<forall>n \<in> set nodes. has_label n (shim_Name shim) \<longrightarrow> uninstall_handled K (shim_Name shim) (node_Name n) log))
    \<and> (fin = [] \<or> (\<exists>b. fin = [UpdatedShim (k_RemoveFinalizer K shim RCMOperatorFinalizer) b]
         \<and> om_Finalizers (shim_meta shim') = om_Finalizers (shim_meta (k_RemoveFinalizer K shim RCMOperatorFinalizer))))"
proof -
  obtain r1 c1 l1 where del: "handleDeleteShim (logging K) env shim nodes (c, l) = (r1, (c1, l1))"
    by (metis surj_pair)
  from handleDeleteShim_events [OF K this] obtain log where log: "l1 = l @ log"
    "\<forall>ev \<in> set log. job_event (\<lambda>j. \<exists>n \<in> set nodes. has_label n (shim_Name shim)
          \<and> job_for j (shim_Name shim) (node_Name n) UNINSTALL) ev" by blast
  show ?thesis
  proof (cases "r1 = Ret None")
    case False
    then have "r = r1" "l' = l1" using run del by (auto simp: reconcile_delete_def split: outcome.splits option.splits)
    with log False show ?thesis by (intro exI [of _ log] exI [of _ "[]"]) simp
  next
    case True
    with handleDeleteShim_log [OF K, of env shim nodes c l None c1 l1] del log(1) obtain ts where
      ts: "log = concat (map snd ts)" "\<forall>(e, log) \<in> set ts. k_IgnoreNotFound K e = None"
      "list_all2 (\<lambda>n (e, log). deploy_trace (shim_Name shim) (node_Name n) UNINSTALL UNINSTALL e log)
         (filter (\<lambda>n. has_label n (shim_Name shim)) nodes) ts" by auto
    have sent: "uninstall_handled K (shim_Name shim) (node_Name n) log" if "n \<in> set nodes" "has_label n (shim_Name shim)" for n
      using list_all2_trace [OF ts(3), of n] that ts(1,2) uninstall_handledI [OF K] by fastforce
    let ?s = "k_RemoveFinalizer K shim RCMOperatorFinalizer"
    obtain ru c2 where up: "k_UpdateShim K ?s c1 = (ru, c2)" by (meson surj_pair)
    have same: "om_Finalizers (shim_meta s) = om_Finalizers (shim_meta ?s)" if "ru = Inr s" for s
      using kube_helpers.UpdateShim_same [OF K, of ?s c1 s c2] up that by simp
    have "l' = l1 \<or> (l' = l1 @ [UpdatedShim ?s (ok_sum ru)] \<and> shim' = (case ru of Inl _ \<Rightarrow> ?s | Inr s \<Rightarrow> s))"
      using run del True up
      by (cases ru) (auto simp: reconcile_delete_def removeFinalizerFromShim_def Let_def logging_sel log_sum_eq split: if_splits)
    then obtain fin where "l' = l1 @ fin" "fin = [] \<or> (\<exists>b. fin = [UpdatedShim ?s b]
        \<and> om_Finalizers (shim_meta shim') = om_Finalizers (shim_meta ?s))"
      using same by (cases ru) auto
    then show ?thesis using log sent by (intro exI [of _ log] exI [of _ fin]) simp
  qed
qed

section \<open>The runtime class\<close>

text \<open>The calls about the runtime class of a shim: the lookup by its name, and the class that is sent.\<close>

fun class_event :: "Shim \<Rightarrow> call \<Rightarrow> bool" where
  "class_event shim (GotRuntimeClass n b) = (rc_Name (RuntimeClass_of (Spec shim)) \<noteq> []
      \<and> n = \<lparr>nn_Name = rc_Name (RuntimeClass_of (Spec shim)), nn_Namespace = om_Namespace (shim_meta shim)\<rparr>)"
| "class_event shim (PatchedRuntimeClass rc b) =
     (om_Name (rcl_meta rc) = take K8sNameMaxLength (rc_Name (RuntimeClass_of (Spec shim)))
      \<and> rcl_Handler rc = rc_Handler (RuntimeClass_of (Spec shim))
      \<and> rcl_NodeSelector rc = Some (entries (NodeSelector (Spec shim))))"
| "class_event shim _ = False"

lemma runtimeClass_log:
  assumes "runtimeClassExists (logging K) shim (c, l) = ((ex, err), (c', l'))"
  shows "\<exists>log. l' = l @ log \<and> (\<forall>ev \<in> set log. class_event shim ev \<and> (\<forall>rc b. ev \<noteq> PatchedRuntimeClass rc b))
    \<and> (\<not> ex \<and> rc_Name (RuntimeClass_of (Spec shim)) \<noteq> [] \<longrightarrow> GotRuntimeClass
        \<lparr>nn_Name = rc_Name (RuntimeClass_of (Spec shim)), nn_Namespace = om_Namespace (shim_meta shim)\<rparr> False \<in> set log)"
proof (cases "rc_Name (RuntimeClass_of (Spec shim)) = []")
  case True
  with assms show ?thesis by (simp add: runtimeClassExists_def)
next
  case False
  let ?key = "\<lparr>nn_Name = rc_Name (RuntimeClass_of (Spec shim)), nn_Namespace = om_Namespace (shim_meta shim)\<rparr>"
  obtain r c1 where "k_GetRuntimeClass K ?key c = (r, c1)" by (meson surj_pair)
  with assms False show ?thesis
    by (cases r) (auto simp: runtimeClassExists_def getRuntimeClass_def logging_sel log_sum_eq)
qed

lemma deployRuntimeClass_log:
  assumes K: "kube_helpers K" and run: "handleDeployRuntimeClass (logging K) shim (c, l) = (err, (c', l'))"
  shows "\<exists>log. l' = l @ log \<and> (\<forall>ev \<in> set log. class_event shim ev)"
proof (cases "createRuntimeClassManifest (logging K) shim")
  case (Inl e)
  with run show ?thesis by (simp add: handleDeployRuntimeClass_def)
next
  case manifest: (Inr rc)
  have rc: "class_event shim (PatchedRuntimeClass rc b)" for b
    using manifest
    by (auto simp: createRuntimeClassManifest_def Let_def logging_sel new_meta_def split: sum.splits option.splits
      dest!: kube_helpers.OwnRuntimeClass_only [OF K])
  show ?thesis
  proof (cases "k_MarshalRuntimeClass K rc")
    case (Inl e)
    with run manifest show ?thesis by (simp add: handleDeployRuntimeClass_def logging_sel)
  next
    case (Inr data)
    obtain r c1 where "k_PatchRuntimeClass K rc data c = (r, c1)" by (meson surj_pair)
    with run manifest Inr rc show ?thesis by (auto simp: handleDeployRuntimeClass_def logging_sel log_opt_eq)
  qed
qed

section \<open>Installation\<close>

definition install_sent :: "string \<Rightarrow> string \<Rightarrow> call list \<Rightarrow> bool" where
  "install_sent shim node log \<longleftrightarrow>
     (\<exists>tr. sublist tr log \<and> deploy_trace shim node INSTALL ProvisioningStatusPending None tr)"

lemma sent_mono:
  "install_sent shim node log \<Longrightarrow> install_sent shim node (pre @ log @ post)"
  "uninstall_handled K shim node log \<Longrightarrow> uninstall_handled K shim node (pre @ log @ post)"
  unfolding install_sent_def uninstall_handled_def uninstall_accepted_def uninstall_not_found_def
  by (meson sublist_order.order.trans sublist_appendI)+

lemma handleInstallShim_events:
  assumes K: "kube_helpers K" and run: "handleInstallShim (logging K) env shim nodes (c, l) = (r, (c', l'))"
  shows "\<exists>log. l' = l @ log \<and> (\<forall>ev \<in> set log.
      job_event (\<lambda>j. \<exists>n \<in> set nodes. needs_install shim n \<and> job_for j (shim_Name shim) (node_Name n) INSTALL) ev)
    \<and> (r = Ret None \<longrightarrow> (\<forall>n \<in> set nodes. needs_install shim n \<longrightarrow> install_sent (shim_Name shim) (node_Name n) log))"
proof (cases "rs_Type (RolloutStrategy_of (Spec shim)) = RolloutStrategyTypeRolling")
  case True
  with run show ?thesis by (auto simp: handleInstallShim_def Let_def)
next
  case False
  obtain r1 c1 l1 where roll: "rollout (logging K) env shim nodes [] (c, l) = (r1, (c1, l1))" by (metis surj_pair)
  then have "l' = l1" using run False
    by (cases r1) (simp_all add: handleInstallShim_def recreateStrategyRollout_def Let_def)
  with rollout_events [OF K roll] obtain log where log: "l' = l @ log" "\<forall>ev \<in> set log.
      job_event (\<lambda>j. \<exists>n \<in> set nodes. needs_install shim n \<and> job_for j (shim_Name shim) (node_Name n) INSTALL) ev" by blast
  have "install_sent (shim_Name shim) (node_Name n) log" if "r = Ret None" "n \<in> set nodes" "needs_install shim n" for n
  proof -
    from handleInstallShim_log [OF K, of env shim nodes c l None c' l'] run that(1) False log(1) obtain ts where
      ts: "log = concat (map snd ts)" "errors_Join (map fst ts) = None"
      "list_all2 (\<lambda>n (e, log). deploy_trace (shim_Name shim) (node_Name n) INSTALL ProvisioningStatusPending e log)
        (filter (needs_install shim) nodes) ts" by auto
    from list_all2_trace [OF ts(3), of n] that(2,3) obtain e tr where tr: "(e, tr) \<in> set ts"
      "deploy_trace (shim_Name shim) (node_Name n) INSTALL ProvisioningStatusPending e tr" "sublist tr log"
      unfolding ts(1) by auto
    from ts(2) tr(1) have "e = None" by (auto simp: errors_Join_None_iff)
    with tr show ?thesis unfolding install_sent_def by blast
  qed
  with log show ?thesis by blast
qed

lemma reconcile_install_log:
  assumes K: "kube_helpers K" and run: "reconcile_install (logging K) env shim nodes (c, l) = (r, (c', l'))"
  shows "\<exists>g1 g2. l' = l @ g1 @ g2 \<and> (\<forall>ev \<in> set g1. class_event shim ev)
    \<and> ((\<exists>rc b. PatchedRuntimeClass rc b \<in> set g1) \<and> rc_Name (RuntimeClass_of (Spec shim)) \<noteq> [] \<longrightarrow> GotRuntimeClass
        \<lparr>nn_Name = rc_Name (RuntimeClass_of (Spec shim)), nn_Namespace = om_Namespace (shim_meta shim)\<rparr> False \<in> set g1)
    \<and> (\<forall>ev \<in> set g2.
      job_event (\<lambda>j. \<exists>n \<in> set nodes. needs_install shim n \<and> job_for j (shim_Name shim) (node_Name n) INSTALL) ev)
    \<and> (r = Ret None \<longrightarrow> (\<forall>n \<in> set nodes. needs_install shim n \<longrightarrow> install_sent (shim_Name shim) (node_Name n) g2))"
proof -
  let ?key = "\<lparr>nn_Name = rc_Name (RuntimeClass_of (Spec shim)), nn_Namespace = om_Namespace (shim_meta shim)\<rparr>"
  obtain ex err c1 l1 where rce: "runtimeClassExists (logging K) shim (c, l) = ((ex, err), (c1, l1))" by (metis surj_pair)
  from runtimeClass_log [OF this] obtain h1 where h1: "l1 = l @ h1"
    "\<forall>ev \<in> set h1. class_event shim ev \<and> (\<forall>rc b. ev \<noteq> PatchedRuntimeClass rc b)"
    "\<not> ex \<and> rc_Name (RuntimeClass_of (Spec shim)) \<noteq> [] \<longrightarrow> GotRuntimeClass ?key False \<in> set h1" by blast
  obtain err2 c2 l2 where dep: "(if ex then (err, (c1, l1)) else handleDeployRuntimeClass (logging K) shim (c1, l1)) = (err2, (c2, l2))"
    by (metis surj_pair)
  have "\<exists>h2. l2 = l1 @ h2 \<and> (\<forall>ev \<in> set h2. class_event shim ev) \<and> (ex \<longrightarrow> h2 = [])"
  proof (cases ex)
    case True
    with dep show ?thesis by simp
  next
    case False
    with dep deployRuntimeClass_log [OF K, of shim c1 l1 err2 c2 l2] show ?thesis by fastforce
  qed
  then obtain h2 where h2: "l2 = l1 @ h2" "\<forall>ev \<in> set h2. class_event shim ev" "ex \<longrightarrow> h2 = []" by blast
  have sent: "(\<exists>rc b. PatchedRuntimeClass rc b \<in> set (h1 @ h2)) \<and> rc_Name (RuntimeClass_of (Spec shim)) \<noteq> []
      \<longrightarrow> GotRuntimeClass ?key False \<in> set (h1 @ h2)" using h1(2,3) h2(3) by auto
  have cls: "\<forall>ev \<in> set (h1 @ h2). class_event shim ev" using h1(2) h2(2) by auto
  have val: "reconcile_install (logging K) env shim nodes (c, l) =
      (if \<not> ex \<and> err2 \<noteq> None then (Ret err2, (c2, l2))
       else if nodes \<noteq> [] then handleInstallShim (logging K) env shim nodes (c2, l2) else (Ret err2, (c2, l2)))"
    by (simp only: reconcile_install_def rce dep prod.case)
  show ?thesis
  proof (cases "\<not> ex \<and> err2 \<noteq> None \<or> nodes = []")
    case True
    then have eqs: "l' = l2" "r = Ret err2" using run by (auto simp only: val if_True if_False simp_thms prod.inject split: if_splits)
    with True have "r = Ret None \<Longrightarrow> nodes = []" by simp
    then have "r = Ret None \<longrightarrow> (\<forall>n \<in> set nodes. needs_install shim n \<longrightarrow> install_sent (shim_Name shim) (node_Name n) [])" by auto
    moreover have "l' = l @ (h1 @ h2) @ []" using eqs(1) h1(1) h2(1) by simp
    ultimately show ?thesis using cls sent by (intro exI conjI) (assumption, assumption, assumption, simp, assumption)
  next
    case False
    then have "handleInstallShim (logging K) env shim nodes (c2, l2) = (r, (c', l'))" using run val by (cases ex) simp_all
    from handleInstallShim_events [OF K this] obtain g2 where g2: "l' = l2 @ g2" "\<forall>ev \<in> set g2.
        job_event (\<lambda>j. \<exists>n \<in> set nodes. needs_install shim n \<and> job_for j (shim_Name shim) (node_Name n) INSTALL) ev"
      "r = Ret None \<longrightarrow> (\<forall>n \<in> set nodes. needs_install shim n \<longrightarrow> install_sent (shim_Name shim) (node_Name n) g2)" by blast
    have "l' = l @ (h1 @ h2) @ g2" using g2(1) h1(1) h2(1) by simp
    then show ?thesis using cls sent g2(2,3) by (intro exI conjI)
  qed
qed

section \<open>Which call removes the finalizer\<close>

lemma job_event_keeps: "job_event P ev \<Longrightarrow> \<not> drops_finalizer ev"
  by (cases ev) (simp_all add: drops_finalizer_def)

lemma class_event_keeps: "class_event shim ev \<Longrightarrow> \<not> drops_finalizer ev"
  by (cases ev) (simp_all add: drops_finalizer_def)

lemma ensured_keeps: "kube_helpers K \<Longrightarrow> ensured K shim fin \<Longrightarrow> ev \<in> set fin \<Longrightarrow> \<not> drops_finalizer ev"
  using kube_helpers.AddFinalizer_contains [of K RCMOperatorFinalizer shim]
  by (auto simp: ensured_def drops_finalizer_def split: if_splits)

lemma preamble_keeps:
  "RCMOperatorFinalizer \<in> set (om_Finalizers (shim_meta shim)) \<Longrightarrow> ev \<in> set (preamble req shim nodes b ns ok)
     \<Longrightarrow> \<not> drops_finalizer ev"
  by (auto simp: preamble_def drops_finalizer_def)

lemma Reconcile_drop:
  assumes K: "kube_helpers K" and run: "Reconcile (logging K) env req (c, []) = (r, (c', pre @ ev # post))"
    and has: "k_GetShim K req c = (Inr shim0, c0)" "RCMOperatorFinalizer \<in> set (om_Finalizers (shim_meta shim0))"
    and drops: "drops_finalizer ev"
  obtains nodes b ns shim1 log shim2 where "pre = preamble req shim0 nodes b ns (Some shim1) @ log"
    "\<forall>n \<in> set nodes. has_label n (nn_Name req) \<longrightarrow> uninstall_handled K (nn_Name req) (node_Name n) log"
    "om_DeletionTimestamp (shim_meta shim1) \<noteq> None"
    "om_Finalizers (shim_meta shim2) = om_Finalizers (shim_meta (k_RemoveFinalizer K shim1 RCMOperatorFinalizer))"
    "ensured K shim2 post"
  using K run
proof (cases rule: Reconcile_cases)
  case missing
  with has show ?thesis by simp
next
  case (unlisted shim c1 e fin)
  have "ev \<in> set ([GotShim req (Some shim), ListedNodes (entries (NodeSelector (Spec shim))) None] @ fin)"
    using unlisted(3) by (metis append_Nil in_set_conv_decomp)
  then have "ev \<in> set fin" using drops by (auto simp: drops_finalizer_def)
  with ensured_keeps [OF K unlisted(4)] drops show ?thesis by blast
next
  case (unfetched shim c1 nodes b ns e shim1 fin)
  from unfetched(3) have "ev \<in> set (preamble req shim nodes b ns None) \<union> set fin"
    by (metis Un_iff append_Nil in_set_conv_decomp set_append)
  with ensured_keeps [OF K unfetched(4)] preamble_keeps [of shim ev req nodes b ns None] has unfetched(1) drops show ?thesis by auto
next
  case (installing shim c1 nodes b ns c2 shim1 c3 l3 fin)
  obtain g1 g2 where g: "l3 = ([] @ preamble req shim nodes b ns (Some shim1)) @ g1 @ g2"
    "\<forall>ev \<in> set g1. class_event shim1 ev" "\<forall>ev \<in> set g2. job_event (\<lambda>j. \<exists>n \<in> set nodes. needs_install shim1 n
      \<and> job_for j (shim_Name shim1) (node_Name n) INSTALL) ev"
    using reconcile_install_log [OF K installing(4)] by blast
  define log where "log = g1 @ g2"
  have log: "l3 = ([] @ preamble req shim nodes b ns (Some shim1)) @ log" "\<forall>ev \<in> set log. \<not> drops_finalizer ev"
    using g job_event_keeps class_event_keeps by (auto simp: log_def)
  have "ev \<in> set ((preamble req shim nodes b ns (Some shim1) @ log) @ fin)"
    using installing(5) log(1) by (metis append_Nil in_set_conv_decomp)
  with log(2) ensured_keeps [OF K installing(6)] preamble_keeps [of shim ev req nodes b ns "Some shim1"] has installing(1) drops
  show ?thesis by auto
next
  case (deleting shim c1 nodes b ns c2 shim1 c3 l3 shim2 fin)
  have shim: "shim = shim0" using has deleting(1) by simp
  obtain log fin1 where l3: "l3 = ([] @ preamble req shim nodes b ns (Some shim1)) @ log @ fin1"
    and jobs: "\<forall>ev \<in> set log. job_event (\<lambda>j. \<exists>n \<in> set nodes. has_label n (nn_Name req)
          \<and> job_for j (nn_Name req) (node_Name n) UNINSTALL) ev"
    and sent: "r = Ret None \<or> fin1 \<noteq> [] \<longrightarrow>
         (\<forall>n \<in> set nodes. has_label n (nn_Name req) \<longrightarrow> uninstall_handled K (nn_Name req) (node_Name n) log)"
    and fin1: "fin1 = [] \<or> (\<exists>b. fin1 = [UpdatedShim (k_RemoveFinalizer K shim1 RCMOperatorFinalizer) b]
         \<and> om_Finalizers (shim_meta shim2) = om_Finalizers (shim_meta (k_RemoveFinalizer K shim1 RCMOperatorFinalizer)))"
    using reconcile_delete_log [OF K deleting(4), unfolded deleting(3)] by blast
  have log: "l3 = preamble req shim nodes b ns (Some shim1) @ log @ fin1" "\<forall>ev \<in> set log. \<not> drops_finalizer ev"
    using l3 jobs job_event_keeps by auto
  let ?p = "preamble req shim nodes b ns (Some shim1)"
  have keeps: "x \<in> set (?p @ log) \<Longrightarrow> \<not> drops_finalizer x" "x \<in> set fin \<Longrightarrow> \<not> drops_finalizer x" for x
    using log(2) ensured_keeps [OF K deleting(6)] preamble_keeps [of shim x req nodes b ns "Some shim1"] has(2) shim by auto
  have eq: "pre @ ev # post = (?p @ log) @ fin1 @ fin" using deleting(5) log(1) by simp
  from fin1 show ?thesis
  proof (elim disjE exE conjE)
    assume "fin1 = []"
    then have "ev \<in> set ((?p @ log) @ fin)" using eq by (metis append_Nil in_set_conv_decomp)
    with keeps drops show ?thesis by auto
  next
    fix b2 assume f: "fin1 = [UpdatedShim (k_RemoveFinalizer K shim1 RCMOperatorFinalizer) b2]"
      and same: "om_Finalizers (shim_meta shim2) = om_Finalizers (shim_meta (k_RemoveFinalizer K shim1 RCMOperatorFinalizer))"
    have "pre = ?p @ log \<and> ev = UpdatedShim (k_RemoveFinalizer K shim1 RCMOperatorFinalizer) b2 \<and> post = fin"
      by (rule unique_split [where P = drops_finalizer]) (use eq f drops keeps in auto)
    with that [of nodes b ns shim1 log shim2] sent f same deleting(2,6) shim show ?thesis by simp
  qed
qed

section \<open>Properties\<close>

text \<open>
  C10. Deletion: the finalizer of a shim that has it is removed only after every listed node that
  has the shim's label has been sent an uninstall job that was accepted (or the attempt ended in
  a NotFound error and no job was accepted, which the code ignores). This holds for every outcome of the run, whatever the API server answers.
\<close>

theorem Reconcile_finalizer_safe:
  assumes "kube_helpers K" "Reconcile (logging K) env req (c, []) = (r, (c', pre @ ev # post))"
    and "k_GetShim K req c = (Inr shim0, c0)" "RCMOperatorFinalizer \<in> set (om_Finalizers (shim_meta shim0))"
    and "drops_finalizer ev"
  shows "\<exists>sel nodes. ListedNodes sel (Some nodes) \<in> set pre
    \<and> (\<forall>n \<in> set nodes. has_label n (nn_Name req) \<longrightarrow> uninstall_handled K (nn_Name req) (node_Name n) pre)"
proof -
  obtain nodes b ns shim1 log where pre: "pre = preamble req shim0 nodes b ns (Some shim1) @ log"
    and sent: "\<forall>n \<in> set nodes. has_label n (nn_Name req) \<longrightarrow> uninstall_handled K (nn_Name req) (node_Name n) log"
    using Reconcile_drop [OF assms] by metis
  have "uninstall_handled K (nn_Name req) (node_Name n) pre" if "n \<in> set nodes" "has_label n (nn_Name req)" for n
    using sent_mono(2) [of K "nn_Name req" "node_Name n" log "preamble req shim0 nodes b ns (Some shim1)" "[]"] sent that pre by simp
  moreover have "ListedNodes (entries (NodeSelector (Spec shim0))) (Some nodes) \<in> set pre"
    by (simp add: pre preamble_def)
  ultimately show ?thesis by blast
qed

text \<open>
  C30. The deferred call tries to undo the removal of the finalizer, whatever the API server answers: right after the update that
  removes it, and as its last call, the run sends the shim with the finalizer added again. (The server rejects that if the
  shim is gone; a shim that another finalizer still holds gets this one back.)
\<close>

theorem Reconcile_finalizer_readded:
  assumes "kube_helpers K" "Reconcile (logging K) env req (c, []) = (r, (c', pre @ ev # post))"
    and "k_GetShim K req c = (Inr shim0, c0)" "RCMOperatorFinalizer \<in> set (om_Finalizers (shim_meta shim0))"
    and "drops_finalizer ev"
  shows "\<exists>s b. post = [UpdatedShim s b] \<and> RCMOperatorFinalizer \<in> set (om_Finalizers (shim_meta s))"
proof -
  obtain shim1 shim2 where same: "om_Finalizers (shim_meta shim2) = om_Finalizers (shim_meta (k_RemoveFinalizer K shim1 RCMOperatorFinalizer))"
    and post: "ensured K shim2 post"
    using Reconcile_drop [OF assms] by metis
  have "RCMOperatorFinalizer \<notin> set (om_Finalizers (shim_meta shim2))"
    using kube_helpers.RemoveFinalizer_gone [OF assms(1)] same by simp
  with post kube_helpers.AddFinalizer_contains [OF assms(1)] show ?thesis by (auto simp: ensured_def)
qed

text \<open>
  C18. Jobs are sent only where they are needed, whatever the outcome of the run: every job a run
  sends is for a node of the listing of this run, and it is an install job if the node has neither
  the label \<open>provisioned\<close> nor the label \<open>pending\<close> for the shim, or an uninstall job if the node has a
  label for the shim.
\<close>

theorem Reconcile_jobs_needed:
  assumes K: "kube_helpers K" and run: "Reconcile (logging K) env req (c, []) = (r, (c', log))"
    and job: "PatchedJob job b \<in> set log"
  shows "\<exists>sel nodes n. ListedNodes sel (Some nodes) \<in> set log \<and> n \<in> set nodes
    \<and> (job_for job (nn_Name req) (node_Name n) INSTALL \<and> label_of n (nn_Name req) \<notin> {''provisioned'', ''pending''}
      \<or> job_for job (nn_Name req) (node_Name n) UNINSTALL \<and> has_label n (nn_Name req))"
  using K run
proof (cases rule: Reconcile_cases)
  case missing
  with job show ?thesis by simp
next
  case unlisted
  with job show ?thesis by (auto simp: ensured_def split: if_splits)
next
  case unfetched
  with job show ?thesis by (auto simp: ensured_def preamble_def split: if_splits)
next
  case (installing shim c1 nodes b' ns c2 shim1 c3 l3 fin)
  from reconcile_install_log [OF K installing(4)] obtain g1 log1 where l3: "l3 = preamble req shim nodes b' ns (Some shim1) @ g1 @ log1"
    and g1: "\<forall>ev \<in> set g1. class_event shim1 ev"
    and ok: "\<forall>ev \<in> set log1. job_event (\<lambda>j. \<exists>n \<in> set nodes. needs_install shim1 n \<and> job_for j (nn_Name req) (node_Name n) INSTALL) ev"
    using installing(3) by auto
  have "PatchedJob job b \<in> set log1" using job installing(5,6) l3 g1 by (auto simp: ensured_def preamble_def split: if_splits)
  with ok obtain n where "n \<in> set nodes" "needs_install shim1 n" "job_for job (nn_Name req) (node_Name n) INSTALL" by fastforce
  moreover have "ListedNodes (entries (NodeSelector (Spec shim))) (Some nodes) \<in> set log"
    using installing(5) l3 by (simp add: preamble_def)
  ultimately show ?thesis using installing(3)
    by (auto simp: needs_install_def ProvisioningStatusPending_def ProvisioningStatusProvisioned_def)
next
  case (deleting shim c1 nodes b' ns c2 shim1 c3 l3 shim2 fin)
  obtain log1 fin1 where l3': "l3 = ([] @ preamble req shim nodes b' ns (Some shim1)) @ log1 @ fin1"
    and ok: "\<forall>ev \<in> set log1. job_event (\<lambda>j. \<exists>n \<in> set nodes. has_label n (nn_Name req) \<and> job_for j (nn_Name req) (node_Name n) UNINSTALL) ev"
    and fin1: "fin1 = [] \<or> (\<exists>b. fin1 = [UpdatedShim (k_RemoveFinalizer K shim1 RCMOperatorFinalizer) b]
         \<and> om_Finalizers (shim_meta shim2) = om_Finalizers (shim_meta (k_RemoveFinalizer K shim1 RCMOperatorFinalizer)))"
    using reconcile_delete_log [OF K deleting(4), unfolded deleting(3)] by blast
  then have l3: "l3 = preamble req shim nodes b' ns (Some shim1) @ log1 @ fin1" by simp
  have "PatchedJob job b \<in> set log1" using job fin1 deleting(5,6) l3 by (auto simp: ensured_def preamble_def split: if_splits)
  with ok obtain n where "n \<in> set nodes" "has_label n (nn_Name req)" "job_for job (nn_Name req) (node_Name n) UNINSTALL" by fastforce
  moreover have "ListedNodes (entries (NodeSelector (Spec shim))) (Some nodes) \<in> set log"
    using deleting(5) l3 by (simp add: preamble_def)
  ultimately show ?thesis by auto
qed

text \<open>What a run is to do for the listed nodes, depending on whether the shim is being deleted.\<close>

definition served :: "'c kube \<Rightarrow> string \<Rightarrow> Shim \<Rightarrow> Node list \<Rightarrow> call list \<Rightarrow> bool" where
  "served K name shim nodes log \<longleftrightarrow>
     (if om_DeletionTimestamp (shim_meta shim) = None
      then \<forall>n \<in> set nodes. label_of n name \<notin> {''provisioned'', ''pending''} \<longrightarrow> install_sent name (node_Name n) log
      else \<forall>n \<in> set nodes. has_label n name \<longrightarrow> uninstall_handled K name (node_Name n) log)"

text \<open>
  C17. What a run that returns without an error has achieved: the shim does not exist any more, or the
  run listed the nodes and fetched the shim again, and then either every listed node that needed
  the shim has an accepted install job, or (if the shim is being deleted) for every listed node that
  has the shim's label an uninstall job was accepted, or the attempt to send one ended in a NotFound error without a job, which the
  run ignores.
\<close>

theorem Reconcile_success:
  assumes K: "kube_helpers K" and run: "Reconcile (logging K) env req (c, []) = (Ret None, (c', log))"
  shows "(\<exists>e c1. k_GetShim K req c = (Inl e, c1) \<and> k_IsNotFound K e \<and> log = [GotShim req None])
    \<or> (\<exists>shim0 sel nodes s b key shim rest.
        log = [GotShim req (Some shim0), ListedNodes sel (Some nodes), UpdatedShim s b, GotShim key (Some shim)] @ rest
        \<and> served K (nn_Name req) shim nodes log)"
  using K run
proof (cases rule: Reconcile_cases)
  case (missing e c1)
  then show ?thesis using kube_helpers.IgnoreNotFound_Some [OF K, of e] by (auto split: if_splits)
next
  case unlisted
  then show ?thesis by simp
next
  case unfetched
  then show ?thesis by simp
next
  case (installing shim c1 nodes b' ns c2 shim1 c3 l3 fin)
  let ?p = "preamble req shim nodes b' ns (Some shim1)"
  from reconcile_install_log [OF K installing(4)] obtain g1 log1 where l3: "l3 = ?p @ g1 @ log1"
    and ok: "\<forall>n \<in> set nodes. needs_install shim1 n \<longrightarrow> install_sent (nn_Name req) (node_Name n) log1"
    using installing(3) by auto
  have "install_sent (nn_Name req) (node_Name n) log" if "n \<in> set nodes" "label_of n (nn_Name req) \<notin> {''provisioned'', ''pending''}" for n
    using sent_mono(1) [of "nn_Name req" "node_Name n" log1 "?p @ g1" fin] ok that installing(3,5) l3
    by (simp add: needs_install_def ProvisioningStatusPending_def ProvisioningStatusProvisioned_def)
  then have "served K (nn_Name req) shim1 nodes log" using installing(2) by (simp add: served_def)
  with installing(5) l3 show ?thesis by (simp add: preamble_def)
next
  case (deleting shim c1 nodes b' ns c2 shim1 c3 l3 shim2 fin)
  let ?p = "preamble req shim nodes b' ns (Some shim1)"
  from reconcile_delete_log [OF K deleting(4)] obtain log1 fin1 where l3: "l3 = ?p @ log1 @ fin1"
    and ok: "\<forall>n \<in> set nodes. has_label n (nn_Name req) \<longrightarrow> uninstall_handled K (nn_Name req) (node_Name n) log1"
    using deleting(3) by auto
  have "uninstall_handled K (nn_Name req) (node_Name n) log" if "n \<in> set nodes" "has_label n (nn_Name req)" for n
    using sent_mono(2) [of K "nn_Name req" "node_Name n" log1 ?p "fin1 @ fin"] ok that deleting(5) l3 by simp
  then have "served K (nn_Name req) shim1 nodes log" using deleting(2) by (auto simp: served_def)
  with deleting(5) l3 show ?thesis by (simp add: preamble_def)
qed

section \<open>Witnesses\<close>

text \<open>
  A cluster with two nodes, one of them provisioned with the shim \<open>spin\<close>, and the run of the
  reconciler for this shim, which exists or is being deleted.
\<close>

definition demo_req :: NamespacedName where
  "demo_req = \<lparr>nn_Name = ''spin'', nn_Namespace = []\<rparr>"

definition deleted_Shim :: Shim where
  "deleted_Shim = (demo_Shim ''spin'')\<lparr>shim_meta := (shim_meta (demo_Shim ''spin''))\<lparr>om_DeletionTimestamp := Some 1\<rparr>\<rparr>"

definition demo_n1 :: Node where "demo_n1 = demo_Node ''n1'' [(''spin'', ''provisioned'')]"
definition demo_n2 :: Node where "demo_n2 = demo_Node ''n2'' []"

definition demo_server :: "Shim \<Rightarrow> server" where
  "demo_server s = \<lparr>srv_shims = [s], srv_nodes = [demo_n1, demo_n2], srv_jobs = [], srv_classes = [], srv_refused = []\<rparr>"

definition demo_run :: "Shim \<Rightarrow> error option outcome \<times> server \<times> call list" where
  "demo_run s = Reconcile (logging mem_kube) (\<lambda>_. []) demo_req (demo_server s, [])"

definition demo_log :: "Shim \<Rightarrow> call list" where
  "demo_log s = snd (snd (demo_run s))"

lemma demo_run_eq:
  "Reconcile (logging mem_kube) (\<lambda>_. []) demo_req (demo_server s, []) = (fst (demo_run s), (fst (snd (demo_run s)), demo_log s))"
  by (simp add: demo_log_def demo_run_def)

definition listed_demo :: "call \<Rightarrow> bool" where
  "listed_demo ev = (case ev of ListedNodes _ r \<Rightarrow> r = Some [demo_n1, demo_n2] | _ \<Rightarrow> True)"

lemma demo_deletion:
  "length (demo_log deleted_Shim) = 9" "list_all listed_demo (demo_log deleted_Shim)"
  "case demo_log deleted_Shim ! 7 of UpdatedShim s b \<Rightarrow> om_Finalizers (shim_meta s) = [] | _ \<Rightarrow> False"
  "fst (demo_run deleted_Shim) = Ret None"
  by code_simp+

lemma demo_drops:
  "drops_finalizer (demo_log deleted_Shim ! 7)"
  using demo_deletion(3) by (auto simp: drops_finalizer_def split: call.splits)

lemma demo_split:
  "demo_log deleted_Shim = take 7 (demo_log deleted_Shim) @ demo_log deleted_Shim ! 7 # drop 8 (demo_log deleted_Shim)"
  using id_take_nth_drop [of 7 "demo_log deleted_Shim"] demo_deletion(1) by simp

lemma demo_get:
  "k_GetShim mem_kube demo_req (demo_server s) = (if shim_Name s = ''spin'' then Inr s else Inl ApiNotFound, demo_server s)"
  by (simp add: mem_kube_def demo_server_def demo_req_def find_by_def)

lemma deleted_has: "RCMOperatorFinalizer \<in> set (om_Finalizers (shim_meta deleted_Shim))" "shim_Name deleted_Shim = ''spin''"
  by (simp_all add: deleted_Shim_def demo_Shim_def)

lemma demo_deletion_run:
  "Reconcile (logging mem_kube) (\<lambda>_. []) demo_req (demo_server deleted_Shim, [])
     = (fst (demo_run deleted_Shim), (fst (snd (demo_run deleted_Shim)),
        take 7 (demo_log deleted_Shim) @ demo_log deleted_Shim ! 7 # drop 8 (demo_log deleted_Shim)))"
  using demo_run_eq [of deleted_Shim] demo_split by simp

theorem Reconcile_finalizer_safe_witness:
  "drops_finalizer (demo_log deleted_Shim ! 7)
   \<and> uninstall_handled mem_kube ''spin'' ''n1'' (take 7 (demo_log deleted_Shim))"
proof -
  let ?log = "demo_log deleted_Shim"
  from Reconcile_finalizer_safe [OF mem_kube.kube_helpers_axioms demo_deletion_run _ deleted_has(1) demo_drops, of "demo_server deleted_Shim"]
  obtain sel nodes where l: "ListedNodes sel (Some nodes) \<in> set (take 7 ?log)"
    and sent: "\<forall>n \<in> set nodes. has_label n ''spin'' \<longrightarrow> uninstall_handled mem_kube ''spin'' (node_Name n) (take 7 ?log)"
    using demo_get [of deleted_Shim] deleted_has(2) by (auto simp: demo_req_def)
  from l demo_deletion(2) have "nodes = [demo_n1, demo_n2]"
    by (auto simp: list_all_iff listed_demo_def dest!: in_set_takeD)
  moreover have "has_label demo_n1 ''spin''" "node_Name demo_n1 = ''n1''" by code_simp+
  ultimately show ?thesis using sent demo_drops by auto
qed

theorem Reconcile_finalizer_readded_witness:
  "\<exists>s b. drop 8 (demo_log deleted_Shim) = [UpdatedShim s b] \<and> RCMOperatorFinalizer \<in> set (om_Finalizers (shim_meta s))"
  by (rule Reconcile_finalizer_readded [OF mem_kube.kube_helpers_axioms demo_deletion_run _ deleted_has(1) demo_drops, of "demo_server deleted_Shim"])
       (simp add: demo_get deleted_has(2))

theorem Reconcile_jobs_needed_witness:
  "\<exists>job. PatchedJob job True \<in> set (demo_log (demo_Shim ''spin'')) \<and> pod_NodeName (job_Pod job) = ''n2''"
proof -
  let ?log = "demo_log (demo_Shim ''spin'')"
  have at: "8 < length ?log" "list_all listed_demo ?log"
    "case ?log ! 8 of PatchedJob j b \<Rightarrow> b \<and> map_get (om_Annotations (job_meta j)) ''spinkube.dev/operation'' = Some ''install'' | _ \<Rightarrow> False"
    by code_simp+
  then obtain job where job: "PatchedJob job True \<in> set ?log"
    and op: "map_get (om_Annotations (job_meta job)) ''spinkube.dev/operation'' = Some ''install''"
    using nth_mem [OF at(1)] by (cases "?log ! 8") auto
  from Reconcile_jobs_needed [OF mem_kube.kube_helpers_axioms demo_run_eq job] obtain sel nodes n
    where l: "ListedNodes sel (Some nodes) \<in> set ?log" "n \<in> set nodes"
    and n: "job_for job ''spin'' (node_Name n) INSTALL \<and> label_of n ''spin'' \<notin> {''provisioned'', ''pending''}
      \<or> job_for job ''spin'' (node_Name n) UNINSTALL" by (auto simp: demo_req_def)
  have "n = demo_n1 \<or> n = demo_n2" using l at(2) by (auto simp: list_all_iff listed_demo_def)
  moreover have "label_of demo_n1 ''spin'' = ''provisioned''" "node_Name demo_n2 = ''n2''" by code_simp+
  ultimately have "pod_NodeName (job_Pod job) = ''n2''"
    using n op by (auto simp: job_for_def INSTALL_def UNINSTALL_def)
  with job show ?thesis by blast
qed

theorem Reconcile_success_witness:
  "install_sent ''spin'' ''n2'' (demo_log (demo_Shim ''spin''))"
proof -
  let ?log = "demo_log (demo_Shim ''spin'')"
  have at: "fst (demo_run (demo_Shim ''spin'')) = Ret None"
    "case ?log ! 1 of ListedNodes _ r \<Rightarrow> r = Some [demo_n1, demo_n2] | _ \<Rightarrow> False"
    "case ?log ! 3 of GotShim _ r \<Rightarrow> r \<noteq> None \<and> om_DeletionTimestamp (shim_meta (the r)) = None | _ \<Rightarrow> False" by code_simp+
  have run: "Reconcile (logging mem_kube) (\<lambda>_. []) demo_req (demo_server (demo_Shim ''spin''), [])
      = (Ret None, (fst (snd (demo_run (demo_Shim ''spin''))), ?log))"
    using demo_run_eq [of "demo_Shim ''spin''"] at(1) by simp
  from Reconcile_success [OF mem_kube.kube_helpers_axioms run] obtain shim0 sel nodes s b key shim rest where
    log: "?log = [GotShim demo_req (Some shim0), ListedNodes sel (Some nodes), UpdatedShim s b, GotShim key (Some shim)] @ rest"
    and served: "served mem_kube (nn_Name demo_req) shim nodes ?log" by (auto simp: demo_get)
  from at(2,3) have "nodes = [demo_n1, demo_n2]" "om_DeletionTimestamp (shim_meta shim) = None"
    unfolding log by simp_all
  moreover have "label_of demo_n2 ''spin'' = []" "node_Name demo_n2 = ''n2''" by code_simp+
  ultimately show ?thesis using served by (auto simp: served_def demo_req_def)
qed

section \<open>Properties of the operations\<close>

text \<open>
  The order of the calls of a deployment: the node is read; it is labelled (as pending, or as
  being uninstalled) before the job is sent; the job is for this node, shim and operation; no error is
  returned exactly when the job was accepted; a refused job is followed by the label \<open>failed\<close>. An error
  after the labelling and before the job leaves the node labelled, with no job for it.
\<close>

lemma deployJobOnNode_trace:
  assumes "kube_helpers K" "op = INSTALL \<and> status = ''pending'' \<or> op = UNINSTALL \<and> status = ''uninstall''"
    "deployJobOnNode (logging K) env shim node op (c, []) = (Ret err, (c', log))"
  shows "deploy_trace (shim_Name shim) (node_Name node) op status err log"
  using deployJobOnNode_log [OF assms(1) _ assms(3), of status] assms(2)
  by (auto simp: ProvisioningStatusPending_def INSTALL_def UNINSTALL_def)

lemma deployJobOnNode_trace_witness:
  "\<exists>log. deploy_trace ''spin'' ''n2'' INSTALL ''pending'' None log \<and> length log = 3"
proof -
  let ?run = "deployJobOnNode (logging mem_kube) (\<lambda>_. []) (demo_Shim ''spin'') demo_n2 INSTALL (demo_server (demo_Shim ''spin''), [])"
  have ev: "fst ?run = Ret None" "length (snd (snd ?run)) = 3" by code_simp+
  have run: "?run = (Ret None, (fst (snd ?run), snd (snd ?run)))" using ev(1) by (metis prod.collapse)
  have "INSTALL = INSTALL \<and> ''pending'' = ''pending'' \<or> INSTALL = UNINSTALL \<and> ''pending'' = ''uninstall''" by simp
  from deployJobOnNode_trace [OF mem_kube.kube_helpers_axioms this run] ev(2) show ?thesis
    by (auto simp: demo_n2_def)
qed

text \<open>
  C37. A deployment of an uninstall job panics exactly when the API server returns the node and it has no labels at all (a
  nil map, to which the label cannot be assigned), whether or not an artifact matches it; one of an install job panics exactly when,
  besides, an artifact matches the node, because without one it ends before with an error.
\<close>

theorem deployJobOnNode_nil_labels:
  assumes "kube_helpers K" "op = INSTALL \<or> op = UNINSTALL"
  shows "(\<exists>m c'. deployJobOnNode K env shim node op c = (Panic m, c')) \<longleftrightarrow>
    (\<exists>nd c1. k_GetNode K \<lparr>nn_Name = node_Name node, nn_Namespace = []\<rparr> c = (Inr nd, c1) \<and> om_Labels (node_meta nd) = None
      \<and> (op = INSTALL \<longrightarrow> (\<exists>a. resolveArtifactForNode shim nd = Inr a)))"
  by (rule deployJobOnNode_panic [OF assms])

theorem deployJobOnNode_nil_labels_witness:
  "\<exists>srv m c'. deployJobOnNode mem_kube (\<lambda>_. []) (demo_Shim ''spin'') demo_n2 UNINSTALL srv = (Panic m, c')"
proof -
  let ?srv = "(demo_server (demo_Shim ''spin''))\<lparr>srv_nodes := [with_labels demo_n2 None]\<rparr>"
  have "k_GetNode mem_kube \<lparr>nn_Name = node_Name demo_n2, nn_Namespace = []\<rparr> ?srv = (Inr (with_labels demo_n2 None), ?srv)"
    by (simp add: mem_kube_def find_by_def)
  then have "\<exists>nd c1. k_GetNode mem_kube \<lparr>nn_Name = node_Name demo_n2, nn_Namespace = []\<rparr> ?srv = (Inr nd, c1)
      \<and> om_Labels (node_meta nd) = None \<and> (UNINSTALL = INSTALL \<longrightarrow> (\<exists>a. resolveArtifactForNode (demo_Shim ''spin'') nd = Inr a))"
    by (auto simp: INSTALL_def UNINSTALL_def)
  then show ?thesis
    using deployJobOnNode_nil_labels [OF mem_kube.kube_helpers_axioms, of UNINSTALL "\<lambda>_. []" "demo_Shim ''spin''" demo_n2 ?srv] by blast
qed

text \<open>
  The status that is reported: the number of listed nodes and the number of them that carry the
  label \<open>provisioned\<close>, which is between zero and the former, and equal to it exactly when every listed
  node is provisioned; nothing but the status of the shim is changed. The error of the update is
  not returned, only that of the second read is.
\<close>

lemma updateStatus_counts:
  assumes "kube_helpers K" "updateStatus (logging K) shim nodes (c, []) = ((err, shim'), (c', log))"
  shows "\<exists>s b key got. log = [UpdatedShim s b, GotShim key got] \<and> (err = None \<longleftrightarrow> got = Some shim')
    \<and> s = shim\<lparr>Status := Status s\<rparr> \<and> NodeCount (Status s) = int (length nodes)
    \<and> 0 \<le> NodeReadyCount (Status s) \<and> NodeReadyCount (Status s) \<le> NodeCount (Status s)
    \<and> (NodeReadyCount (Status s) = NodeCount (Status s) \<longleftrightarrow> (\<forall>n \<in> set nodes. label_of n (shim_Name shim) = ''provisioned''))"
proof -
  let ?P = "\<lambda>n. label_of n (shim_Name shim) = ProvisioningStatusProvisioned" and ?s = "with_counts shim nodes"
  obtain b ns where log: "log = [UpdatedShim ?s b, GotShim \<lparr>nn_Name = shim_Name shim, nn_Namespace = ns\<rparr> (if err = None then Some shim' else None)]"
    using updateStatus_log [OF assms] by auto
  have "length (filter P xs) = length xs \<longleftrightarrow> (\<forall>x \<in> set xs. P x)" for P and xs :: "Node list"
  proof (induction xs)
    case (Cons x xs)
    have "length (filter P xs) \<noteq> Suc (length xs)" using length_filter_le [of P xs] by linarith
    with Cons show ?case by simp
  qed simp
  then have "length (filter ?P nodes) = length nodes \<longleftrightarrow> (\<forall>n \<in> set nodes. ?P n)" .
  then have "NodeReadyCount (Status ?s) = NodeCount (Status ?s) \<longleftrightarrow> (\<forall>n \<in> set nodes. ?P n)"
    by (simp add: with_counts_def ready_count_def)
  moreover have "?s = shim\<lparr>Status := Status ?s\<rparr>" "NodeCount (Status ?s) = int (length nodes)"
    "0 \<le> NodeReadyCount (Status ?s)" "NodeReadyCount (Status ?s) \<le> NodeCount (Status ?s)"
    by (simp_all add: with_counts_def ready_count_def)
  ultimately show ?thesis unfolding ProvisioningStatusProvisioned_def
    by (intro exI conjI) (rule log, simp, assumption+)
qed

lemma updateStatus_counts_witness:
  "\<exists>s b ev. snd (snd (updateStatus (logging mem_kube) (demo_Shim ''spin'') [demo_n1, demo_n2] (demo_server (demo_Shim ''spin''), [])))
      = [UpdatedShim s b, ev] \<and> NodeCount (Status s) = 2 \<and> NodeReadyCount (Status s) \<noteq> 2"
proof -
  let ?run = "updateStatus (logging mem_kube) (demo_Shim ''spin'') [demo_n1, demo_n2] (demo_server (demo_Shim ''spin''), [])"
  have "?run = ((fst (fst ?run), snd (fst ?run)), (fst (snd ?run), snd (snd ?run)))" by simp
  from updateStatus_counts [OF mem_kube.kube_helpers_axioms this] obtain s b key got where
    "snd (snd ?run) = [UpdatedShim s b, GotShim key got]" "NodeCount (Status s) = int (length [demo_n1, demo_n2])"
    "NodeReadyCount (Status s) = NodeCount (Status s)
      \<longleftrightarrow> (\<forall>n \<in> set [demo_n1, demo_n2]. label_of n (shim_Name (demo_Shim ''spin'')) = ''provisioned'')"
    by blast
  moreover have "label_of demo_n2 ''spin'' \<noteq> ''provisioned''" by code_simp
  ultimately show ?thesis by auto
qed

text \<open>
  C29. The runtime class: if the shim names one, a run sends it only if looking the name up failed (with any error); if
  it names none, the run sends one without a name and looks nothing up. What it sends has the handler and the node selector of the shim and the first 63
  characters of the name. So a class with a longer name is looked up under a name it never gets.
\<close>

theorem runtimeClass_sent:
  assumes "kube_helpers K" "reconcile_install (logging K) env shim nodes (c, []) = (r, (c', log))"
    "PatchedRuntimeClass rc b \<in> set log"
  shows "om_Name (rcl_meta rc) = take 63 (rc_Name (RuntimeClass_of (Spec shim)))
    \<and> rcl_Handler rc = rc_Handler (RuntimeClass_of (Spec shim))
    \<and> rcl_NodeSelector rc = Some (entries (NodeSelector (Spec shim)))
    \<and> (rc_Name (RuntimeClass_of (Spec shim)) \<noteq> [] \<longrightarrow> GotRuntimeClass
        \<lparr>nn_Name = rc_Name (RuntimeClass_of (Spec shim)), nn_Namespace = om_Namespace (shim_meta shim)\<rparr> False \<in> set log)
    \<and> (rc_Name (RuntimeClass_of (Spec shim)) = [] \<longrightarrow> (\<forall>n b'. GotRuntimeClass n b' \<notin> set log))
    \<and> (length (rc_Name (RuntimeClass_of (Spec shim))) > 63 \<longrightarrow> om_Name (rcl_meta rc) \<noteq> rc_Name (RuntimeClass_of (Spec shim)))"
proof -
  let ?key = "\<lparr>nn_Name = rc_Name (RuntimeClass_of (Spec shim)), nn_Namespace = om_Namespace (shim_meta shim)\<rparr>"
  obtain g1 g2 where log: "log = [] @ g1 @ g2" and g1: "\<forall>ev \<in> set g1. class_event shim ev"
    and looked: "(\<exists>rc b. PatchedRuntimeClass rc b \<in> set g1) \<and> rc_Name (RuntimeClass_of (Spec shim)) \<noteq> [] \<longrightarrow> GotRuntimeClass ?key False \<in> set g1"
    and g2: "\<forall>ev \<in> set g2. job_event (\<lambda>j. \<exists>n \<in> set nodes. needs_install shim n \<and> job_for j (shim_Name shim) (node_Name n) INSTALL) ev"
    using reconcile_install_log [OF assms(1,2)] by blast
  have "PatchedRuntimeClass rc b \<in> set g1" using assms(3) log g2 by auto
  then have "class_event shim (PatchedRuntimeClass rc b)" using g1 by blast
  moreover have "rc_Name (RuntimeClass_of (Spec shim)) \<noteq> [] \<longrightarrow> GotRuntimeClass ?key False \<in> set log"
    using \<open>PatchedRuntimeClass rc b \<in> set g1\<close> looked log by auto
  moreover have "rc_Name (RuntimeClass_of (Spec shim)) = [] \<longrightarrow> (\<forall>n b'. GotRuntimeClass n b' \<notin> set log)"
    using g1 g2 log by fastforce
  moreover have "length xs > 63 \<longrightarrow> take 63 xs \<noteq> xs" for xs :: string by (metis length_take min.strict_order_iff min.commute nless_le)
  ultimately show ?thesis by (simp add: K8sNameMaxLength_def)
qed

theorem runtimeClass_sent_witness:
  "\<exists>rc b. PatchedRuntimeClass rc b \<in> set (snd (snd (reconcile_install (logging mem_kube) (\<lambda>_. []) (demo_Shim ''spin'') []
      (demo_server (demo_Shim ''spin''), []))))
    \<and> om_Name (rcl_meta rc) = ''wasmtime-spin-v2'' \<and> rcl_Handler rc = ''spin-v2''"
proof -
  let ?run = "reconcile_install (logging mem_kube) (\<lambda>_. []) (demo_Shim ''spin'') [] (demo_server (demo_Shim ''spin''), [])"
  have ev: "1 < length (snd (snd ?run))" "case snd (snd ?run) ! 1 of PatchedRuntimeClass rc b \<Rightarrow> True | _ \<Rightarrow> False" by code_simp+
  obtain rc b where "snd (snd ?run) ! 1 = PatchedRuntimeClass rc b" using ev(2) by (cases "snd (snd ?run) ! 1") auto
  then have sent: "PatchedRuntimeClass rc b \<in> set (snd (snd ?run))" using nth_mem [OF ev(1)] by simp
  have run: "?run = (fst ?run, (fst (snd ?run), snd (snd ?run)))" by simp
  from runtimeClass_sent [OF mem_kube.kube_helpers_axioms run sent] sent show ?thesis
    by (auto simp: demo_Shim_def)
qed

end
