(* ===== verification/Manager.thy ===== *)
theory Manager
  imports Shim_Controller Job_Controller
begin

text \<open>
  \<open>cmd/rcm/main.go\<close>, the \<open>SetupWithManager\<close> of both reconcilers and the registration of the API
  group: how the operator starts, and which events wake its reconcilers. The package \<open>flag\<close> of the
  standard library is modelled; controller-runtime is a record of the calls that \<open>main\<close> makes.
\<close>

section \<open>The package flag\<close>

text \<open>\<open>sf_Set\<close> is the \<open>Set\<close> of the flag's value: the new value as text, or none if the text is refused.\<close>

record std_flag =
  sf_Name :: string
  sf_IsBool :: bool
  sf_Set :: "string \<Rightarrow> string option"
  sf_Value :: string

definition ParseBool :: "string \<Rightarrow> bool option" where
  "ParseBool s =
     (if s \<in> set [''1'', ''t'', ''T'', ''TRUE'', ''true'', ''True''] then Some True
      else if s \<in> set [''0'', ''f'', ''F'', ''FALSE'', ''false'', ''False''] then Some False
      else None)"

definition FormatBool :: "bool \<Rightarrow> string" where
  "FormatBool b = (if b then ''true'' else ''false'')"

definition StringVar :: "string \<Rightarrow> string \<Rightarrow> std_flag" where
  "StringVar name val = \<lparr>sf_Name = name, sf_IsBool = False, sf_Set = Some, sf_Value = val\<rparr>"

definition BoolVar :: "string \<Rightarrow> bool \<Rightarrow> std_flag" where
  "BoolVar name val = \<lparr>sf_Name = name, sf_IsBool = True, sf_Set = (\<lambda>s. map_option FormatBool (ParseBool s)), sf_Value = FormatBool val\<rparr>"

datatype flag_result =
    FlagsParsed "std_flag list" "string list"
  | FlagHelp
  | FlagError string

definition assign :: "std_flag list \<Rightarrow> std_flag \<Rightarrow> string \<Rightarrow> std_flag list" where
  "assign fs f val = map (\<lambda>g. if sf_Name g = sf_Name f then g\<lparr>sf_Value := val\<rparr> else g) fs"

text \<open>A flag as it is written: the name behind one or two dashes, and the value behind the first \<open>=\<close>.\<close>

definition split_flag :: "string \<Rightarrow> string \<times> string option" where
  "split_flag s =
     (let t = (if s ! 1 = CHR ''-'' then drop 2 s else drop 1 s);
          name = takeWhile (\<lambda>c. c \<noteq> CHR ''='') t
      in (name, if name = t then None else Some (drop (Suc (length name)) t)))"

fun parse_flags :: "std_flag list \<Rightarrow> string list \<Rightarrow> flag_result" where
  "parse_flags fs [] = FlagsParsed fs []"
| "parse_flags fs (s # as) =
     (if length s < 2 \<or> hd s \<noteq> CHR ''-'' then FlagsParsed fs (s # as)
      else if s = ''--'' then FlagsParsed fs as
      else (case split_flag s of (name, val) \<Rightarrow>
        if name = [] \<or> hd name = CHR ''-'' then FlagError ''bad flag syntax''
        else (case find (\<lambda>f. sf_Name f = name) fs of
          None \<Rightarrow> if name = ''help'' \<or> name = ''h'' then FlagHelp else FlagError ''flag provided but not defined''
        | Some f \<Rightarrow>
            if sf_IsBool f then
              (case sf_Set f (case val of None \<Rightarrow> ''true'' | Some v \<Rightarrow> v) of
                 None \<Rightarrow> FlagError ''invalid boolean value''
               | Some v \<Rightarrow> parse_flags (assign fs f v) as)
            else (case val of
                Some v \<Rightarrow> (case sf_Set f v of
                   None \<Rightarrow> FlagError ''invalid value''
                 | Some v' \<Rightarrow> parse_flags (assign fs f v') as)
              | None \<Rightarrow> (case as of
                   [] \<Rightarrow> FlagError ''flag needs an argument''
                 | v # as' \<Rightarrow> (case sf_Set f v of
                      None \<Rightarrow> FlagError ''invalid value''
                    | Some v' \<Rightarrow> parse_flags (assign fs f v') as'))))))"

definition std_value :: "std_flag list \<Rightarrow> string \<Rightarrow> string" where
  "std_value fs name = (case find (\<lambda>f. sf_Name f = name) fs of None \<Rightarrow> [] | Some f \<Rightarrow> sf_Value f)"

section \<open>Controllers\<close>

datatype kind = KShim | KShimList | KJob | KNode

datatype reconciler = ShimReconciler | JobReconciler

text \<open>A watch of objects that the controller does not own, mapped by \<open>findShimsToReconcile\<close>.\<close>

record watch =
  wt_Kind :: kind
  wt_LabelChangedPredicate :: bool

record controller =
  ct_For :: kind
  ct_Owns :: "kind list"
  ct_Watches :: "watch list"
  ct_Reconciler :: reconciler

definition shim_SetupWithManager :: controller where
  "shim_SetupWithManager = \<lparr>ct_For = KShim, ct_Owns = [KJob], ct_Watches = [\<lparr>wt_Kind = KNode, wt_LabelChangedPredicate = True\<rparr>],
     ct_Reconciler = ShimReconciler\<rparr>"

definition job_SetupWithManager :: controller where
  "job_SetupWithManager = \<lparr>ct_For = KJob, ct_Owns = [], ct_Watches = [], ct_Reconciler = JobReconciler\<rparr>"

section \<open>The registration of the API group\<close>

record GroupVersion =
  gv_Group :: string
  gv_Version :: string

definition GroupVersion_v1alpha1 :: GroupVersion where
  "GroupVersion_v1alpha1 = \<lparr>gv_Group = ''runtime.spinkube.dev'', gv_Version = ''v1alpha1''\<rparr>"

text \<open>The types that the \<open>init\<close> of \<open>shim_types.go\<close> registers.\<close>

definition SchemeBuilder :: "GroupVersion \<times> kind list" where
  "SchemeBuilder = (GroupVersion_v1alpha1, [KShim, KShimList])"

section \<open>main\<close>

record Options =
  op_MetricsBindAddress :: string
  op_HealthProbeBindAddress :: string
  op_LeaderElection :: bool
  op_LeaderElectionID :: string

text \<open>The calls into controller-runtime, over a state \<open>'m\<close>. \<open>None\<close> is success.\<close>

datatype step =
    AddClientGoScheme
  | AddScheme GroupVersion "kind list"
  | GetConfig
  | NewManager Options
  | Complete controller
  | AddHealthzCheck string
  | AddReadyzCheck string
  | Start

type_synonym 'm runtime = "step \<Rightarrow> 'm \<Rightarrow> error option \<times> 'm"

text \<open>Steps that all have to succeed; the first failure ends the program in the way that \<open>fail\<close> says.\<close>

fun steps :: "'m runtime \<Rightarrow> nat outcome \<Rightarrow> step list \<Rightarrow> 'm \<Rightarrow> nat outcome option \<times> 'm" where
  "steps R fail [] m = (None, m)"
| "steps R fail (s # ss) m = (case R s m of (Some err, m1) \<Rightarrow> (Some fail, m1) | (None, m1) \<Rightarrow> steps R fail ss m1)"

text \<open>The schemes are added by \<open>init\<close>; \<open>utilruntime.Must\<close> panics.\<close>

definition main_init :: "'m runtime \<Rightarrow> 'm \<Rightarrow> nat outcome option \<times> 'm" where
  "main_init R m = steps R (Panic ''scheme'') [AddClientGoScheme, AddScheme (fst SchemeBuilder) (snd SchemeBuilder)] m"

definition main_flags :: "std_flag list" where
  "main_flags = [StringVar ''metrics-bind-address'' '':8080'', StringVar ''health-probe-bind-address'' '':8082'', BoolVar ''leader-elect'' False]"

definition main_options :: "std_flag list \<Rightarrow> Options" where
  "main_options fs = \<lparr>op_MetricsBindAddress = std_value fs ''metrics-bind-address'',
     op_HealthProbeBindAddress = std_value fs ''health-probe-bind-address'',
     op_LeaderElection = (std_value fs ''leader-elect'' = ''true''), op_LeaderElectionID = ''7584d300.spinkube.dev''\<rparr>"

text \<open>
  The result is the exit status, or a panic. \<open>zap_flags\<close> are the flags that zap's options bind. A flag
  error ends the program with status 2, a request for help with 0; \<open>GetConfigOrDie\<close> ends it with 1.
\<close>

definition main :: "'m runtime \<Rightarrow> std_flag list \<Rightarrow> string list \<Rightarrow> 'm \<Rightarrow> nat outcome \<times> 'm" where
  "main R zap_flags argv m =
     (case main_init R m of
        (Some r, m1) \<Rightarrow> (r, m1)
      | (None, m1) \<Rightarrow>
          (case parse_flags (main_flags @ zap_flags) argv of
             FlagHelp \<Rightarrow> (Ret 0, m1)
           | FlagError _ \<Rightarrow> (Ret 2, m1)
           | FlagsParsed fs _ \<Rightarrow>
               (case steps R (Ret 1) [GetConfig, NewManager (main_options fs), Complete shim_SetupWithManager,
                       Complete job_SetupWithManager, AddHealthzCheck ''healthz'', AddReadyzCheck ''readyz'', Start] m1 of
                  (Some r, m2) \<Rightarrow> (r, m2)
                | (None, m2) \<Rightarrow> (Ret 0, m2))))"

section \<open>What main has done when it starts the manager\<close>

definition logged :: "'m runtime \<Rightarrow> ('m \<times> (step \<times> bool) list) runtime" where
  "logged R s ml = (case ml of (m, l) \<Rightarrow> case R s m of (e, m') \<Rightarrow> (e, (m', l @ [(s, e = None)])))"

lemma logged_simp: "logged R s (m, l) = (fst (R s m), (snd (R s m), l @ [(s, fst (R s m) = None)]))"
  by (simp add: logged_def split: prod.split)

lemma steps_logged:
  "steps (logged R) fail ss (m, l) = (r, (m', l')) \<Longrightarrow>
     (r = None \<and> l' = l @ map (\<lambda>s. (s, True)) ss)
   \<or> (\<exists>done s rest. r = Some fail \<and> ss = done @ s # rest \<and> l' = l @ map (\<lambda>s. (s, True)) done @ [(s, False)])"
proof (induction ss arbitrary: m l)
  case (Cons s ss)
  obtain e m1 where s: "R s m = (e, m1)" by fastforce
  show ?case
  proof (cases e)
    case None
    with Cons.prems s have "steps (logged R) fail ss (m1, l @ [(s, True)]) = (r, (m', l'))" by (simp add: logged_simp s)
    from Cons.IH [OF this] show ?thesis
    proof
      assume "\<exists>done t rest. r = Some fail \<and> ss = done @ t # rest \<and> l' = (l @ [(s, True)]) @ map (\<lambda>s. (s, True)) done @ [(t, False)]"
      then obtain don t rest where "r = Some fail" "ss = don @ t # rest" "l' = (l @ [(s, True)]) @ map (\<lambda>s. (s, True)) don @ [(t, False)]"
        by (elim exE conjE)
      then show ?thesis by (intro disjI2 exI [of _ "s # don"] exI [of _ t] exI [of _ rest]) simp
    qed simp
  next
    case (Some err)
    with Cons.prems s show ?thesis by (intro disjI2 exI [of _ "[]"] exI [of _ s] exI [of _ ss]) (simp add: logged_simp s)
  qed
qed simp

text \<open>The order in which the steps of the start are taken.\<close>

definition start_steps :: "std_flag list \<Rightarrow> step list" where
  "start_steps fs = [AddClientGoScheme, AddScheme \<lparr>gv_Group = ''runtime.spinkube.dev'', gv_Version = ''v1alpha1''\<rparr> [KShim, KShimList],
     GetConfig, NewManager (main_options fs), Complete shim_SetupWithManager, Complete job_SetupWithManager,
     AddHealthzCheck ''healthz'', AddReadyzCheck ''readyz'', Start]"

lemma map_done: "map (\<lambda>s. (s, True)) xs @ map (\<lambda>s. (s, True)) ys = map (\<lambda>s. (s, True)) (xs @ ys)"
  by simp

text \<open>
  C21. The manager is started only as the last step, after the two schemes, both reconcilers and both probes
  have been set up, with the addresses and the leader election that the flags ask for. When any step fails
  the program takes no further one and does not exit with status 0; it exits with status 0 only after the manager has
  ended without an error or when help was asked for.
\<close>

theorem main_steps:
  assumes "main (logged R) zap_flags argv (m, []) = (r, (m', l))"
  shows "(\<exists>fs rest. parse_flags (main_flags @ zap_flags) argv = FlagsParsed fs rest \<and> r = Ret 0 \<and> l = map (\<lambda>s. (s, True)) (start_steps fs))
    \<or> (\<exists>fs don s rest. start_steps fs = don @ s # rest \<and> r \<noteq> Ret 0 \<and> l = map (\<lambda>s. (s, True)) don @ [(s, False)])
    \<or> l = map (\<lambda>s. (s, True)) (take 2 (start_steps [])) \<and>
        (parse_flags (main_flags @ zap_flags) argv = FlagHelp \<and> r = Ret 0
         \<or> (\<exists>msg. parse_flags (main_flags @ zap_flags) argv = FlagError msg) \<and> r = Ret 2)"
proof -
  let ?two = "[AddClientGoScheme, AddScheme \<lparr>gv_Group = ''runtime.spinkube.dev'', gv_Version = ''v1alpha1''\<rparr> [KShim, KShimList]]"
  let ?rest = "\<lambda>fs. [GetConfig, NewManager (main_options fs), Complete shim_SetupWithManager, Complete job_SetupWithManager,
     AddHealthzCheck ''healthz'', AddReadyzCheck ''readyz'', Start]"
  have all: "start_steps fs = ?two @ ?rest fs" "take 2 (start_steps fs) = ?two" for fs by (simp_all add: start_steps_def)
  obtain r1 m1 l1 where init: "steps (logged R) (Panic ''scheme'') ?two (m, []) = (r1, (m1, l1))" by (metis prod.collapse)
  then have main_init: "main_init (logged R) (m, []) = (r1, (m1, l1))" by (simp add: main_init_def SchemeBuilder_def GroupVersion_v1alpha1_def)
  from steps_logged [OF init] show ?thesis
  proof
    assume "r1 = None \<and> l1 = [] @ map (\<lambda>s. (s, True)) ?two"
    then have l1: "r1 = None" "l1 = map (\<lambda>s. (s, True)) ?two" by simp_all
    show ?thesis
    proof (cases "parse_flags (main_flags @ zap_flags) argv")
      case (FlagsParsed fs rest)
      obtain r2 m2 l2 where run: "steps (logged R) (Ret 1) (?rest fs) (m1, l1) = (r2, (m2, l2))" by (metis prod.collapse)
      with assms main_init l1(1) FlagsParsed have r: "r = (case r2 of None \<Rightarrow> Ret 0 | Some r \<Rightarrow> r)" "l = l2"
        by (auto simp: main_def split: option.splits)
      from steps_logged [OF run] show ?thesis
      proof
        assume "r2 = None \<and> l2 = l1 @ map (\<lambda>s. (s, True)) (?rest fs)"
        with r l1 FlagsParsed show ?thesis by (intro disjI1 exI [of _ fs] exI [of _ rest]) (simp only: all map_append option.case simp_thms)
      next
        assume "\<exists>don s rest. r2 = Some (Ret 1) \<and> ?rest fs = don @ s # rest \<and> l2 = l1 @ map (\<lambda>s. (s, True)) don @ [(s, False)]"
        then obtain don s rest' where "r2 = Some (Ret 1)" "?rest fs = don @ s # rest'" "l2 = l1 @ map (\<lambda>s. (s, True)) don @ [(s, False)]"
          by (elim exE conjE)
        with r l1 show ?thesis
          by (intro disjI2 disjI1 exI [of _ fs] exI [of _ "?two @ don"] exI [of _ s] exI [of _ rest'])
             (simp only: all map_append option.case append_assoc simp_thms, simp)
      qed
    qed (use assms main_init l1 in \<open>auto simp: main_def all\<close>)
  next
    assume "\<exists>don s rest. r1 = Some (Panic ''scheme'') \<and> ?two = don @ s # rest \<and> l1 = [] @ map (\<lambda>s. (s, True)) don @ [(s, False)]"
    then obtain don s rest where d: "r1 = Some (Panic ''scheme'')" "?two = don @ s # rest" "l1 = map (\<lambda>s. (s, True)) don @ [(s, False)]"
      by (elim exE conjE) simp
    with assms main_init have "r = Panic ''scheme''" "l = l1" by (simp_all add: main_def)
    moreover have "start_steps [] = don @ s # (rest @ ?rest [])" by (simp only: all d(2) append_assoc append_Cons)
    ultimately show ?thesis using d(3)
      by (intro disjI2 disjI1 exI [of _ "[]"] exI [of _ don] exI [of _ s] exI [of _ "rest @ ?rest []"]) simp
  qed
qed

section \<open>Which events wake a reconciler\<close>

text \<open>
  What the controllers that \<open>SetupWithManager\<close> describes enqueue for an event, as documented: the object itself, the
  owners of an owned job, and what \<open>findShimsToReconcile\<close> lists for a watched node, for an update once
  for the old and once for the new object. The predicate drops updates that leave the labels alone.
\<close>

datatype event =
    ShimEvent Shim
  | JobEvent Job
  | NodeCreated Node
  | NodeUpdated Node Node

definition same_labels :: "Node \<Rightarrow> Node \<Rightarrow> bool" where
  "same_labels old new \<longleftrightarrow>
     list_all (\<lambda>(k, _). map_get (om_Labels (node_meta old)) k = map_get (om_Labels (node_meta new)) k)
       (entries (om_Labels (node_meta old)) @ entries (om_Labels (node_meta new)))"

fun enqueued :: "'c kube \<Rightarrow> controller \<Rightarrow> event \<Rightarrow> 'c \<Rightarrow> NamespacedName list \<times> 'c" where
  "enqueued K ct (ShimEvent s) c =
     (if ct_For ct = KShim then [\<lparr>nn_Name = shim_Name s, nn_Namespace = om_Namespace (shim_meta s)\<rparr>] else [], c)"
| "enqueued K ct (JobEvent j) c =
     (if ct_For ct = KJob then [\<lparr>nn_Name = om_Name (job_meta j), nn_Namespace = om_Namespace (job_meta j)\<rparr>]
      else if KJob \<in> set (ct_Owns ct) then map (\<lambda>own. \<lparr>nn_Name = own, nn_Namespace = []\<rparr>) (om_OwnerReferences (job_meta j)) else [], c)"
| "enqueued K ct (NodeCreated n) c =
     (if list_ex (\<lambda>w. wt_Kind w = KNode) (ct_Watches ct) then findShimsToReconcile K n c else ([], c))"
| "enqueued K ct (NodeUpdated old new) c =
     (if list_ex (\<lambda>w. wt_Kind w = KNode \<and> \<not> (wt_LabelChangedPredicate w \<and> same_labels old new)) (ct_Watches ct)
      then (case findShimsToReconcile K old c of (rs, c1) \<Rightarrow> case findShimsToReconcile K new c1 of (rs', c2) \<Rightarrow> (rs @ rs', c2))
      else ([], c))"

lemma same_labels_iff:
  "same_labels old new \<longleftrightarrow> (\<forall>k. map_get (om_Labels (node_meta old)) k = map_get (om_Labels (node_meta new)) k)"
proof
  assume same: "same_labels old new"
  show "\<forall>k. map_get (om_Labels (node_meta old)) k = map_get (om_Labels (node_meta new)) k"
  proof
    fix k
    show "map_get (om_Labels (node_meta old)) k = map_get (om_Labels (node_meta new)) k"
    proof (cases "k \<in> fst ` set (entries (om_Labels (node_meta old)) @ entries (om_Labels (node_meta new)))")
      case True
      with same show ?thesis by (fastforce simp: same_labels_def list_all_iff)
    next
      case False
      then show ?thesis by (simp add: map_get_def image_Un map_of_eq_None_iff [THEN iffD2])
    qed
  qed
qed (auto simp: same_labels_def list_all_iff)

text \<open>
  C22. When a label of a node changes, such as the provisioning status that the job reconciler writes, every
  shim is reconciled again; an update that changes no label wakes nothing. If the shims cannot be
  listed, both times, the change is lost: no shim is reconciled for it.
\<close>

theorem label_change_wakes_shims:
  "(\<forall>k shims c1 s. map_get (om_Labels (node_meta old)) k \<noteq> map_get (om_Labels (node_meta new)) k \<longrightarrow> k_ListShims K c = (Inr shims, c1)
      \<longrightarrow> s \<in> set shims
      \<longrightarrow> \<lparr>nn_Name = shim_Name s, nn_Namespace = om_Namespace (shim_meta s)\<rparr> \<in> set (fst (enqueued K shim_SetupWithManager (NodeUpdated old new) c)))
    \<and> ((\<forall>k. map_get (om_Labels (node_meta old)) k = map_get (om_Labels (node_meta new)) k)
      \<longrightarrow> enqueued K shim_SetupWithManager (NodeUpdated old new) c = ([], c))
    \<and> (\<forall>e c1 e2 c2. k_ListShims K c = (Inl e, c1) \<longrightarrow> k_ListShims K c1 = (Inl e2, c2)
      \<longrightarrow> fst (enqueued K shim_SetupWithManager (NodeUpdated old new) c) = [])"
  by (auto simp: shim_SetupWithManager_def findShimsToReconcile_def same_labels_iff split: prod.split)

section \<open>Witnesses\<close>

text \<open>A runtime in which the registration of the job reconciler fails.\<close>

theorem main_steps_witness:
  "\<exists>fs don s rest. start_steps fs = don @ s # rest
     \<and> main (logged (\<lambda>s m. (if s = Complete job_SetupWithManager then Some (Msg ''no'') else None, m))) []
         [''-leader-elect'', ''--metrics-bind-address=:9090''] ((), []) = (Ret 1, ((), map (\<lambda>s. (s, True)) don @ [(s, False)]))"
proof -
  let ?R = "\<lambda>s m. (if s = Complete job_SetupWithManager then Some (Msg ''no'') else None, m :: unit)"
  have flags: "case parse_flags (main_flags @ []) [''-leader-elect'', ''--metrics-bind-address=:9090''] of FlagsParsed fs rest \<Rightarrow>
      op_LeaderElection (main_options fs) \<and> op_MetricsBindAddress (main_options fs) = '':9090'' \<and> rest = [] | _ \<Rightarrow> False"
    by code_simp
  then obtain fs where fs: "parse_flags (main_flags @ []) [''-leader-elect'', ''--metrics-bind-address=:9090''] = FlagsParsed fs []"
    by (auto split: flag_result.splits)
  obtain l where run: "main (logged ?R) [] [''-leader-elect'', ''--metrics-bind-address=:9090''] ((), []) = (Ret 1, ((), l))" and "length l = 6"
    using fs by (simp add: main_def main_init_def SchemeBuilder_def logged_simp shim_SetupWithManager_def job_SetupWithManager_def)
  with main_steps [OF run] fs obtain fs don s rest where "start_steps fs = don @ s # rest" "l = map (\<lambda>s. (s, True)) don @ [(s, False)]"
    by auto
  with run show ?thesis by blast
qed

text \<open>A node becomes provisioned on the API server in memory.\<close>

theorem label_change_wakes_shims_witness:
  "\<lparr>nn_Name = ''spin'', nn_Namespace = []\<rparr> \<in> set (fst (enqueued mem_kube shim_SetupWithManager
      (NodeUpdated (demo_Node ''n1'' [(''spin'', ''pending'')]) (demo_Node ''n1'' [(''spin'', ''provisioned'')]))
      \<lparr>srv_shims = [demo_Shim ''spin''], srv_nodes = [], srv_jobs = [], srv_classes = [], srv_refused = []\<rparr>))"
proof -
  let ?old = "demo_Node ''n1'' [(''spin'', ''pending'')]" and ?new = "demo_Node ''n1'' [(''spin'', ''provisioned'')]"
    and ?c = "\<lparr>srv_shims = [demo_Shim ''spin''], srv_nodes = [], srv_jobs = [], srv_classes = [], srv_refused = []\<rparr>"
  have "map_get (om_Labels (node_meta ?old)) ''spin'' \<noteq> map_get (om_Labels (node_meta ?new)) ''spin''"
    by (simp add: demo_Node_def map_get_Some)
  moreover have "k_ListShims mem_kube ?c = (Inr [demo_Shim ''spin''], ?c)" by (simp add: mem_kube_def)
  ultimately have "\<lparr>nn_Name = shim_Name (demo_Shim ''spin''), nn_Namespace = om_Namespace (shim_meta (demo_Shim ''spin''))\<rparr>
      \<in> set (fst (enqueued mem_kube shim_SetupWithManager (NodeUpdated ?old ?new) ?c))"
    using label_change_wakes_shims [of ?old ?new mem_kube ?c] by (metis list.set_intros(1))
  then show ?thesis by (simp add: demo_Shim_def new_meta_def)
qed

end
