(* ===== verification/Go_Heap.thy ===== *)
theory Go_Heap
  imports Shim_Types
begin

text \<open>
  Pointers, slices and maps as references. The controllers work on values; the deep copies of
  \<open>zz_generated.deepcopy.go\<close> are about sharing, so here a struct that contains a pointer, a slice or a
  map contains an address, and what it refers to is a cell of a heap. \<open>deep_copier\<close> is the contract of a
  \<open>DeepCopyInto\<close>; the lemmas build copiers of structs, maps and slices from copiers of their parts.
\<close>

section \<open>The heap\<close>

type_synonym addr = nat

text \<open>A slice that is not nil: its array, the offset of its first element and its length.\<close>

record slice =
  sl_array :: addr
  sl_offset :: nat
  sl_len :: nat

record TypeMeta =
  tm_Kind :: string
  tm_APIVersion :: string

text \<open>
  The structs with references. A nil pointer, slice or map is \<open>None\<close>. The values of the struct types of
  the API machinery (\<open>ObjectMeta\<close>, \<open>ListMeta\<close>, \<open>Condition\<close>), which are not part of the repository, are
  of a type \<open>'x\<close>.
\<close>

record go_FetchStrategy =
  gf_Type :: string
  gf_AnonHTTP :: "addr option"
  gf_Platforms :: "slice option"

record go_ShimSpec =
  gp_NodeSelector :: "addr option"
  gp_FetchStrategy :: go_FetchStrategy
  gp_RuntimeClass :: RuntimeClassSpec
  gp_RolloutStrategy :: RolloutStrategy
  gp_ContainerdRuntimeOptions :: "addr option"

record go_ShimStatus =
  gs_Conditions :: "slice option"
  gs_NodeCount :: int
  gs_NodeReadyCount :: int

record 'x go_Shim =
  g_TypeMeta :: TypeMeta
  g_ObjectMeta :: 'x
  g_Spec :: go_ShimSpec
  g_Status :: go_ShimStatus

record 'x go_ShimList =
  gl_TypeMeta :: TypeMeta
  gl_ListMeta :: 'x
  gl_Items :: "slice option"

datatype 'x cell =
    MapCell (un_Map: "(string \<times> string) list")
  | AnonHTTPSpecCell (un_AnonHTTPSpec: AnonHTTPSpec)
  | PlatformArtifactsCell (un_PlatformArtifacts: "PlatformArtifact list")
  | ConditionsCell (un_Conditions: "'x list")
  | ShimsCell (un_Shims: "'x go_Shim list")
  | FetchStrategyCell (un_FetchStrategy: go_FetchStrategy)
  | PlatformArtifactCell (un_PlatformArtifact: PlatformArtifact)
  | RollingSpecCell (un_RollingSpec: RollingSpec)
  | RolloutStrategyCell (un_RolloutStrategy: RolloutStrategy)
  | RuntimeClassSpecCell (un_RuntimeClassSpec: RuntimeClassSpec)
  | ShimSpecCell (un_ShimSpec: go_ShimSpec)
  | ShimStatusCell (un_ShimStatus: go_ShimStatus)
  | ShimCell (un_Shim: "'x go_Shim")
  | ShimListCell (un_ShimList: "'x go_ShimList")
  | OtherCell 'x

text \<open>Addresses from \<open>h_next\<close> on have not been allocated.\<close>

record 'x heap =
  h_cells :: "addr \<Rightarrow> 'x cell"
  h_next :: addr

definition alloc :: "'x cell \<Rightarrow> 'x heap \<Rightarrow> addr \<times> 'x heap" where
  "alloc v h = (h_next h, h\<lparr>h_cells := (h_cells h)(h_next h := v), h_next := Suc (h_next h)\<rparr>)"

definition store :: "addr \<Rightarrow> 'x cell \<Rightarrow> 'x heap \<Rightarrow> 'x heap" where
  "store a v h = h\<lparr>h_cells := (h_cells h)(a := v)\<rparr>"

text \<open>The heap has only grown.\<close>

definition extends :: "'x heap \<Rightarrow> 'x heap \<Rightarrow> bool" where
  "extends h h' \<longleftrightarrow> h_next h \<le> h_next h' \<and> (\<forall>a < h_next h. h_cells h' a = h_cells h a)"

lemma extends_refl: "extends h h"
  by (simp add: extends_def)

lemma extends_trans: "extends h1 h2 \<Longrightarrow> extends h2 h3 \<Longrightarrow> extends h1 h3"
  by (auto simp: extends_def)

lemma extends_alloc: "alloc v h = (a, h') \<Longrightarrow> extends h h'"
  by (auto simp: extends_def alloc_def)

lemma extends_store: "extends h h' \<Longrightarrow> h_next h \<le> a \<Longrightarrow> extends h (store a v h')"
  by (auto simp: extends_def store_def)

section \<open>The contract of a copy\<close>

text \<open>
  \<open>val h x\<close> is the value of \<open>x\<close> with all references followed, \<open>refs h x\<close> the cells it depends on, and
  \<open>ok h x\<close> says that these are allocated and of the right kind. A copy only allocates; it has the value of
  the original, and depends only on cells that did not exist before.
\<close>

locale deep_copier =
  fixes copy :: "'t \<Rightarrow> 'x heap \<Rightarrow> 't \<times> 'x heap" and val :: "'x heap \<Rightarrow> 't \<Rightarrow> 'v"
    and refs :: "'x heap \<Rightarrow> 't \<Rightarrow> addr set" and ok :: "'x heap \<Rightarrow> 't \<Rightarrow> bool"
  assumes frame: "(\<forall>a \<in> refs h x. h_cells h' a = h_cells h a) \<Longrightarrow> h_next h \<le> h_next h'
      \<Longrightarrow> val h' x = val h x \<and> refs h' x = refs h x \<and> (ok h x \<longrightarrow> ok h' x)"
    and ok_refs: "ok h x \<Longrightarrow> refs h x \<subseteq> {..<h_next h}"
    and copy_spec: "ok h x \<Longrightarrow> copy x h = (y, h')
      \<Longrightarrow> extends h h' \<and> val h' y = val h x \<and> ok h' y \<and> refs h' y \<inter> {..<h_next h} = {}"
begin

lemma extends_keeps: "ok h x \<Longrightarrow> extends h h' \<Longrightarrow> val h' x = val h x \<and> refs h' x = refs h x \<and> ok h' x"
  using frame [of h x h'] ok_refs [of h x] by (auto simp: extends_def)

text \<open>
  What is written to the cells of the copy is not seen through the original, and the other way
  round.
\<close>

lemma independent:
  assumes "ok h x" "copy x h = (y, h')"
  shows "refs h' x \<inter> refs h' y = {}"
    and "(\<forall>a. a \<notin> refs h' y \<longrightarrow> h_cells h2 a = h_cells h' a) \<Longrightarrow> h_next h' \<le> h_next h2 \<Longrightarrow> val h2 x = val h x"
    and "(\<forall>a. a \<notin> refs h' x \<longrightarrow> h_cells h2 a = h_cells h' a) \<Longrightarrow> h_next h' \<le> h_next h2 \<Longrightarrow> val h2 y = val h x"
proof -
  from copy_spec [OF assms] have ext: "extends h h'" and y: "val h' y = val h x" "refs h' y \<inter> {..<h_next h} = {}" by auto
  from extends_keeps [OF assms(1) ext] ok_refs [OF assms(1)]
  have x: "val h' x = val h x" "refs h' x \<subseteq> {..<h_next h}" by auto
  with y show disj: "refs h' x \<inter> refs h' y = {}" by auto
  show "val h2 x = val h x" if "\<forall>a. a \<notin> refs h' y \<longrightarrow> h_cells h2 a = h_cells h' a" "h_next h' \<le> h_next h2"
    using frame [of h' x h2] that disj x by auto
  show "val h2 y = val h x" if "\<forall>a. a \<notin> refs h' x \<longrightarrow> h_cells h2 a = h_cells h' a" "h_next h' \<le> h_next h2"
    using frame [of h' y h2] that disj y by auto
qed

end

section \<open>Copiers of structs\<close>

text \<open>Values without references are copied by the assignment \<open>*out = *in\<close>.\<close>

lemma deep_copier_plain: "deep_copier (\<lambda>x h. (x, h)) (\<lambda>_ x. x) (\<lambda>_ _. {}) (\<lambda>_ _. True)"
  by unfold_locales (auto simp: extends_refl)

text \<open>Two parts of a struct, one after the other.\<close>

lemma deep_copier_pair:
  assumes c1: "deep_copier c1 v1 r1 ok1" and c2: "deep_copier c2 v2 r2 ok2"
  shows "deep_copier (\<lambda>(x, y) h. case c1 x h of (x', h1) \<Rightarrow> case c2 y h1 of (y', h2) \<Rightarrow> ((x', y'), h2))
    (\<lambda>h (x, y). (v1 h x, v2 h y)) (\<lambda>h (x, y). r1 h x \<union> r2 h y) (\<lambda>h (x, y). ok1 h x \<and> ok2 h y)"
proof (rule deep_copier.intro, goal_cases)
  case (1 h p h')
  obtain x y where p: "p = (x, y)" by fastforce
  from 1 have "\<forall>a \<in> r1 h x. h_cells h' a = h_cells h a" "\<forall>a \<in> r2 h y. h_cells h' a = h_cells h a" by (auto simp: p)
  with deep_copier.frame [OF c1, of h x h'] deep_copier.frame [OF c2, of h y h'] 1(2) show ?case by (simp add: p)
next
  case (2 h p)
  then show ?case using deep_copier.ok_refs [OF c1, of h "fst p"] deep_copier.ok_refs [OF c2, of h "snd p"]
    by (simp add: case_prod_beta)
next
  case (3 h p q h')
  obtain x y where p: "p = (x, y)" by fastforce
  obtain x' h1 where x': "c1 x h = (x', h1)" by fastforce
  obtain y' where y': "c2 y h1 = (y', h')" and q: "q = (x', y')" using 3(2) by (auto simp: p x' split: prod.splits)
  have ok: "ok1 h x" "ok2 h y" using 3(1) by (simp_all add: p)
  note s1 = deep_copier.copy_spec [OF c1 ok(1) x']
  note k2 = deep_copier.extends_keeps [OF c2 ok(2), of h1]
  from k2 s1 have "ok2 h1 y" by simp
  note s2 = deep_copier.copy_spec [OF c2 this y']
  note k1 = deep_copier.extends_keeps [OF c1, of h1 x' h']
  from s1 s2 have "extends h h'" using extends_trans by blast
  moreover have "r1 h' x' \<inter> {..<h_next h} = {}" using k1 s1 s2 by auto
  moreover have "r2 h' y' \<inter> {..<h_next h} = {}" using s1 s2 by (auto simp: extends_def)
  ultimately show ?case using s1 s2 k1 k2 by (auto simp: p q)
qed

text \<open>A struct of which the parts \<open>get s\<close> contain all references, and \<open>put\<close> replaces them.\<close>

lemma deep_copier_struct:
  assumes c: "deep_copier c v r k"
    and C: "\<And>s h. C s h = (case c (get s) h of (x, h') \<Rightarrow> (put s x, h'))"
    and get: "\<And>s x. get (put s x) = x" and plain: "\<And>s x. plain (put s x) = plain s"
  shows "deep_copier C (\<lambda>h s. (plain s, v h (get s))) (\<lambda>h s. r h (get s)) (\<lambda>h s. k h (get s))"
proof (rule deep_copier.intro, goal_cases)
  case (1 h s h')
  with deep_copier.frame [OF c, of h "get s" h'] show ?case by simp
next
  case (2 h s)
  with deep_copier.ok_refs [OF c, of h "get s"] show ?case by simp
next
  case (3 h s y h')
  obtain x where x: "c (get s) h = (x, h')" and y: "y = put s x" using 3(2) by (auto simp: C split: prod.splits)
  from deep_copier.copy_spec [OF c 3(1) x] show ?case by (simp add: y get plain)
qed

section \<open>Copies of what a reference refers to\<close>

text \<open>
  \<open>mk\<close> and \<open>un\<close> are a constructor of \<open>cell\<close> and its selector; a cell \<open>c\<close> is of this kind if
  \<open>mk (un c) = c\<close>. A pointer to a struct that \<open>into\<close> copies, as in
  \<open>out := new(T); in.DeepCopyInto(out)\<close>; the new struct is first \<open>zero\<close>.
\<close>

definition copy_pointer :: "('t \<Rightarrow> 'x cell) \<Rightarrow> ('x cell \<Rightarrow> 't) \<Rightarrow> 't \<Rightarrow> ('t \<Rightarrow> 'x heap \<Rightarrow> 't \<times> 'x heap)
    \<Rightarrow> addr option \<Rightarrow> 'x heap \<Rightarrow> addr option \<times> 'x heap" where
  "copy_pointer mk un zero into inn h =
     (case inn of
        None \<Rightarrow> (None, h)
      | Some a \<Rightarrow>
          (case alloc (mk zero) h of (out, h1) \<Rightarrow>
             case into (un (h_cells h1 a)) h1 of (y, h2) \<Rightarrow> (Some out, store out (mk y) h2)))"

definition pointer_val :: "('x cell \<Rightarrow> 't) \<Rightarrow> ('x heap \<Rightarrow> 't \<Rightarrow> 'v) \<Rightarrow> 'x heap \<Rightarrow> addr option \<Rightarrow> 'v option" where
  "pointer_val un v h p = map_option (\<lambda>a. v h (un (h_cells h a))) p"

definition pointer_refs :: "('x cell \<Rightarrow> 't) \<Rightarrow> ('x heap \<Rightarrow> 't \<Rightarrow> addr set) \<Rightarrow> 'x heap \<Rightarrow> addr option \<Rightarrow> addr set" where
  "pointer_refs un r h p = (case p of None \<Rightarrow> {} | Some a \<Rightarrow> insert a (r h (un (h_cells h a))))"

definition pointer_ok :: "('t \<Rightarrow> 'x cell) \<Rightarrow> ('x cell \<Rightarrow> 't) \<Rightarrow> ('x heap \<Rightarrow> 't \<Rightarrow> bool) \<Rightarrow> 'x heap \<Rightarrow> addr option \<Rightarrow> bool" where
  "pointer_ok mk un k h p = (case p of None \<Rightarrow> True
     | Some a \<Rightarrow> a < h_next h \<and> mk (un (h_cells h a)) = h_cells h a \<and> k h (un (h_cells h a)))"

lemmas pointer_defs = pointer_val_def pointer_refs_def pointer_ok_def

lemma deep_copier_pointer:
  assumes c: "deep_copier into v r k" and un: "\<And>x. un (mk x) = x"
  shows "deep_copier (copy_pointer mk un zero into) (pointer_val un v) (pointer_refs un r) (pointer_ok mk un k)"
proof (rule deep_copier.intro, goal_cases)
  case (1 h p h')
  show ?case
  proof (cases p)
    case (Some a)
    with 1 have "h_cells h' a = h_cells h a" by (simp add: pointer_refs_def)
    with 1 Some deep_copier.frame [OF c, of h "un (h_cells h a)" h'] show ?thesis by (simp add: pointer_defs)
  qed (simp add: pointer_defs)
next
  case (2 h p)
  then show ?case using deep_copier.ok_refs [OF c, of h "un (h_cells h (the p))"] by (auto simp: pointer_defs split: option.splits)
next
  case (3 h p q h')
  show ?case
  proof (cases p)
    case None
    with 3 show ?thesis by (auto simp: copy_pointer_def pointer_defs extends_refl)
  next
    case (Some a)
    let ?x = "un (h_cells h a)" and ?out = "h_next h"
    obtain h1 where h1: "alloc (mk zero) h = (?out, h1)" by (simp add: alloc_def)
    have ext1: "extends h h1" by (rule extends_alloc [OF h1])
    have ok: "a < h_next h" "mk ?x = h_cells h a" "k h ?x" using 3(1) Some by (simp_all add: pointer_ok_def)
    with ext1 have same: "h_cells h1 a = h_cells h a" by (simp add: extends_def)
    obtain y h2 where y: "into ?x h1 = (y, h2)" by fastforce
    have q: "q = Some ?out" "h' = store ?out (mk y) h2" using 3(2) Some h1 y same by (simp_all add: copy_pointer_def)
    from deep_copier.extends_keeps [OF c ok(3) ext1] have k1: "v h1 ?x = v h ?x" "k h1 ?x" by auto
    from deep_copier.copy_spec [OF c k1(2) y] have s: "extends h1 h2" "v h2 y = v h1 ?x" "k h2 y" "r h2 y \<inter> {..<h_next h1} = {}" by auto
    have out: "?out < h_next h1" using h1 by (auto simp: alloc_def)
    with s(4) have "\<forall>b \<in> r h2 y. h_cells h' b = h_cells h2 b" by (auto simp: q store_def)
    with deep_copier.frame [OF c, of h2 y h'] s(3) have f: "v h' y = v h2 y" "r h' y = r h2 y" "k h' y" by (simp_all add: q store_def)
    have "extends h h'" unfolding q by (rule extends_store [OF extends_trans [OF ext1 s(1)]]) simp
    moreover have "h_cells h' ?out = mk y" "?out < h_next h'" using s(1) out by (auto simp: q store_def extends_def)
    moreover have "r h' y \<inter> {..<h_next h} = {}" using f(2) s(4) ext1 by (auto simp: extends_def)
    ultimately show ?thesis using f s k1 un Some by (simp add: q(1) pointer_defs)
  qed
qed

text \<open>
  A map: \<open>make\<close>, and the loop that stores the entries one by one. Its order is the order in which the
  entries are visited.
\<close>

definition copy_map :: "addr option \<Rightarrow> 'x heap \<Rightarrow> addr option \<times> 'x heap" where
  "copy_map inn h =
     (case inn of
        None \<Rightarrow> (None, h)
      | Some a \<Rightarrow>
          (case alloc (MapCell []) h of (out, h1) \<Rightarrow>
             (Some out, fold (\<lambda>(key, val) h. store out (MapCell (AList.update key val (un_Map (h_cells h out)))) h)
                (un_Map (h_cells h1 a)) h1)))"

definition map_ok :: "'x heap \<Rightarrow> addr option \<Rightarrow> bool" where
  "map_ok h p = pointer_ok MapCell un_Map (\<lambda>_ kvs. distinct (map fst kvs)) h p"

lemma update_new: "key \<notin> fst ` set m \<Longrightarrow> AList.update key val m = m @ [(key, val)]"
  by (induction m) auto

lemma store_entries:
  "h_cells h out = MapCell m \<Longrightarrow> distinct (map fst (m @ kvs))
    \<Longrightarrow> fold (\<lambda>(key, val) h. store out (MapCell (AList.update key val (un_Map (h_cells h out)))) h) kvs h = store out (MapCell (m @ kvs)) h"
proof (induction kvs arbitrary: m h)
  case Nil
  then show ?case by (cases h) (auto simp: store_def)
next
  case (Cons e kvs)
  obtain key val where e: "e = (key, val)" by fastforce
  with Cons.prems(2) have "AList.update key val m = m @ [(key, val)]"
    by (intro update_new) auto
  with Cons.IH [of "store out (MapCell (m @ [(key, val)])) h" "m @ [(key, val)]"] Cons.prems
  show ?case by (simp add: e store_def)
qed

lemma deep_copier_map:
  "deep_copier copy_map (pointer_val un_Map (\<lambda>_ x. x)) (pointer_refs un_Map (\<lambda>_ _. {})) (map_ok :: 'x heap \<Rightarrow> addr option \<Rightarrow> bool)"
proof -
  have plain: "deep_copier (\<lambda>x h. (x, h)) (\<lambda>_ x. x) (\<lambda>_ _. {}) (\<lambda>_ kvs. distinct (map fst kvs))"
    by unfold_locales (auto simp: extends_refl)
  note p = deep_copier_pointer [OF plain, of un_Map MapCell "[]", simplified]
  show ?thesis
  proof (rule deep_copier.intro, goal_cases)
    case (1 h p h')
    with deep_copier.frame [OF p, of h p h'] show ?case by (simp add: map_ok_def [abs_def])
  next
    case (2 h p)
    with deep_copier.ok_refs [OF p, of h p] show ?case by (simp add: map_ok_def [abs_def])
  next
    case (3 h p q h')
    have "copy_map p h = copy_pointer MapCell un_Map [] (\<lambda>x h. (x, h)) p h"
    proof (cases p)
      case (Some a)
      with 3(1) have "un_Map (h_cells (snd (alloc (MapCell []) h)) a) = un_Map (h_cells h a)" "distinct (map fst (un_Map (h_cells h a)))"
        by (auto simp: map_ok_def pointer_ok_def alloc_def)
      with Some show ?thesis by (simp add: copy_map_def copy_pointer_def alloc_def store_entries [where m = "[]", simplified])
    qed (simp add: copy_map_def copy_pointer_def)
    with 3 deep_copier.copy_spec [OF p, of h p q h'] show ?case by (simp add: map_ok_def [abs_def])
  qed
qed

section \<open>Copies of slices\<close>

text \<open>The elements of a slice of an array of a kind with the selector \<open>un\<close>.\<close>

definition elems :: "('x cell \<Rightarrow> 't list) \<Rightarrow> 'x heap \<Rightarrow> slice \<Rightarrow> 't list" where
  "elems un h s = take (sl_len s) (drop (sl_offset s) (un (h_cells h (sl_array s))))"

text \<open>\<open>make\<close> and the loop that copies the elements one by one, as in \<open>(*in)[i].DeepCopyInto(&(*out)[i])\<close>.\<close>

fun copy_elems :: "('t \<Rightarrow> 'x heap \<Rightarrow> 't \<times> 'x heap) \<Rightarrow> ('t list \<Rightarrow> 'x cell) \<Rightarrow> ('x cell \<Rightarrow> 't list) \<Rightarrow> addr \<Rightarrow> nat \<Rightarrow> 't list
    \<Rightarrow> 'x heap \<Rightarrow> 'x heap" where
  "copy_elems into mk un out i [] h = h"
| "copy_elems into mk un out i (x # xs) h =
     (case into x h of (y, h1) \<Rightarrow>
        copy_elems into mk un out (Suc i) xs (store out (mk ((un (h_cells h1 out))[i := y])) h1))"

definition copy_slice :: "('t list \<Rightarrow> 'x cell) \<Rightarrow> ('x cell \<Rightarrow> 't list) \<Rightarrow> 't \<Rightarrow> ('t \<Rightarrow> 'x heap \<Rightarrow> 't \<times> 'x heap)
    \<Rightarrow> slice option \<Rightarrow> 'x heap \<Rightarrow> slice option \<times> 'x heap" where
  "copy_slice mk un zero into inn h =
     (case inn of
        None \<Rightarrow> (None, h)
      | Some s \<Rightarrow>
          (case alloc (mk (replicate (sl_len s) zero)) h of (out, h1) \<Rightarrow>
             (Some \<lparr>sl_array = out, sl_offset = 0, sl_len = sl_len s\<rparr>, copy_elems into mk un out 0 (elems un h1 s) h1)))"

text \<open>The built-in \<open>copy\<close>, for elements without references.\<close>

definition copy_array :: "('t list \<Rightarrow> 'x cell) \<Rightarrow> ('x cell \<Rightarrow> 't list) \<Rightarrow> 't \<Rightarrow> slice option \<Rightarrow> 'x heap \<Rightarrow> slice option \<times> 'x heap" where
  "copy_array mk un zero inn h =
     (case inn of
        None \<Rightarrow> (None, h)
      | Some s \<Rightarrow>
          (case alloc (mk (replicate (sl_len s) zero)) h of (out, h1) \<Rightarrow>
             (Some \<lparr>sl_array = out, sl_offset = 0, sl_len = sl_len s\<rparr>, store out (mk (elems un h1 s)) h1)))"

definition slice_val :: "('x cell \<Rightarrow> 't list) \<Rightarrow> ('x heap \<Rightarrow> 't \<Rightarrow> 'v) \<Rightarrow> 'x heap \<Rightarrow> slice option \<Rightarrow> 'v list option" where
  "slice_val un v h s = map_option (\<lambda>s. map (v h) (elems un h s)) s"

definition slice_refs :: "('x cell \<Rightarrow> 't list) \<Rightarrow> ('x heap \<Rightarrow> 't \<Rightarrow> addr set) \<Rightarrow> 'x heap \<Rightarrow> slice option \<Rightarrow> addr set" where
  "slice_refs un r h s = (case s of None \<Rightarrow> {} | Some s \<Rightarrow> insert (sl_array s) (\<Union>x \<in> set (elems un h s). r h x))"

definition slice_ok :: "('t list \<Rightarrow> 'x cell) \<Rightarrow> ('x cell \<Rightarrow> 't list) \<Rightarrow> ('x heap \<Rightarrow> 't \<Rightarrow> bool) \<Rightarrow> 'x heap \<Rightarrow> slice option \<Rightarrow> bool" where
  "slice_ok mk un k h s = (case s of None \<Rightarrow> True
     | Some s \<Rightarrow> sl_array s < h_next h \<and> mk (un (h_cells h (sl_array s))) = h_cells h (sl_array s)
         \<and> sl_offset s + sl_len s \<le> length (un (h_cells h (sl_array s))) \<and> (\<forall>x \<in> set (elems un h s). k h x))"

lemmas slice_defs = slice_val_def slice_refs_def slice_ok_def

text \<open>The elements that have been copied are kept while the others are copied.\<close>

lemma copy_elems_spec:
  assumes c: "deep_copier into v r k" and un: "\<And>x. un (mk x) = x"
  shows "\<lbrakk>h_cells h out = mk (ds @ us); length us = length xs; n \<le> out; out < h_next h;
      \<And>x. x \<in> set xs \<Longrightarrow> k h x \<and> out \<notin> r h x; \<And>y. y \<in> set ds \<Longrightarrow> k h y \<and> out \<notin> r h y \<and> r h y \<inter> {..<n} = {};
      h' = copy_elems into mk un out (length ds) xs h\<rbrakk>
    \<Longrightarrow> \<exists>ys. h_cells h' out = mk (ds @ ys) \<and> length ys = length xs \<and> map (v h') (ds @ ys) = map (v h) (ds @ xs)
      \<and> (\<forall>y \<in> set (ds @ ys). k h' y \<and> r h' y \<inter> {..<n} = {})
      \<and> h_next h \<le> h_next h' \<and> (\<forall>a < h_next h. a \<noteq> out \<longrightarrow> h_cells h' a = h_cells h a)"
proof (induction xs arbitrary: ds us h)
  case Nil
  then show ?case by simp
next
  case (Cons x xs)
  obtain u us' where us: "us = u # us'" using Cons.prems(2) by (cases us) auto
  obtain y h1 where y: "into x h = (y, h1)" by fastforce
  let ?h2 = "store out (mk (ds @ y # us')) h1"
  from Cons.prems(5) have kx: "k h x" "out \<notin> r h x" by auto
  from deep_copier.copy_spec [OF c kx(1) y]
  have s: "extends h h1" "v h1 y = v h x" "k h1 y" "r h1 y \<inter> {..<h_next h} = {}" by auto
  have out1: "h_cells h1 out = mk (ds @ us)" using s(1) Cons.prems(1,4) by (simp add: extends_def)
  have keep: "v ?h2 z = v h z \<and> r ?h2 z = r h z \<and> k ?h2 z" if "k h z" "out \<notin> r h z" for z
  proof -
    from deep_copier.extends_keeps [OF c that(1) s(1)] have z: "v h1 z = v h z" "r h1 z = r h z" "k h1 z" by auto
    with that(2) have "\<forall>a \<in> r h1 z. h_cells ?h2 a = h_cells h1 a" by (auto simp: store_def)
    with deep_copier.frame [OF c, of h1 z ?h2] z show ?thesis by (simp add: store_def)
  qed
  have "out \<notin> r h1 y" using s(4) Cons.prems(4) by auto
  then have "\<forall>a \<in> r h1 y. h_cells ?h2 a = h_cells h1 a" by (auto simp: store_def)
  with deep_copier.frame [OF c, of h1 y ?h2] s(3) have fy: "v ?h2 y = v h1 y" "r ?h2 y = r h1 y" "k ?h2 y" by (simp_all add: store_def)
  have "n \<le> h_next h" using Cons.prems(3,4) by simp
  with s(4) have new: "r h1 y \<inter> {..<n} = {}" by auto
  have next2: "h_next h \<le> h_next ?h2" and out2: "out < h_next ?h2" using s(1) Cons.prems(4) by (auto simp: extends_def store_def)
  have h': "h' = copy_elems into mk un out (length (ds @ [y])) xs ?h2" using Cons.prems(7) y out1 us un by simp
  have "\<exists>ys. h_cells h' out = mk ((ds @ [y]) @ ys) \<and> length ys = length xs \<and> map (v h') ((ds @ [y]) @ ys) = map (v ?h2) ((ds @ [y]) @ xs)
      \<and> (\<forall>z \<in> set ((ds @ [y]) @ ys). k h' z \<and> r h' z \<inter> {..<n} = {})
      \<and> h_next ?h2 \<le> h_next h' \<and> (\<forall>a < h_next ?h2. a \<noteq> out \<longrightarrow> h_cells h' a = h_cells ?h2 a)"
  proof (rule Cons.IH [of ?h2 "ds @ [y]" us'])
    show "h_cells ?h2 out = mk ((ds @ [y]) @ us')" by (simp add: store_def)
    show "k ?h2 z \<and> out \<notin> r ?h2 z" if "z \<in> set xs" for z using keep [of z] Cons.prems(5) [of z] that by simp
    show "k ?h2 z \<and> out \<notin> r ?h2 z \<and> r ?h2 z \<inter> {..<n} = {}" if "z \<in> set (ds @ [y])" for z
      using keep [of z] Cons.prems(6) [of z] that fy \<open>out \<notin> r h1 y\<close> new by auto
  qed (use Cons.prems(2,3) us out2 h' in simp_all)
  then obtain ys where ys: "h_cells h' out = mk (ds @ y # ys)" "length ys = length xs"
    "map (v h') (ds @ y # ys) = map (v ?h2) (ds @ y # xs)" "\<forall>z \<in> set (ds @ y # ys). k h' z \<and> r h' z \<inter> {..<n} = {}"
    "h_next ?h2 \<le> h_next h'" "\<forall>a < h_next ?h2. a \<noteq> out \<longrightarrow> h_cells h' a = h_cells ?h2 a" by auto
  have "map (v ?h2) (ds @ y # xs) = map (v h) (ds @ x # xs)"
    using keep Cons.prems(5,6) fy(1) s(2) by simp
  moreover have "\<forall>a < h_next h. a \<noteq> out \<longrightarrow> h_cells h' a = h_cells h a"
    using ys(6) next2 s(1) by (simp add: store_def extends_def)
  ultimately show ?case using ys next2 by (intro exI [of _ "y # ys"]) simp
qed

lemma elems_full: "elems un h \<lparr>sl_array = a, sl_offset = 0, sl_len = length xs\<rparr> = xs" if "un (h_cells h a) = xs"
  using that by (simp add: elems_def)

lemma deep_copier_slice:
  assumes c: "deep_copier into v r k" and un: "\<And>x. un (mk x) = x"
  shows "deep_copier (copy_slice mk un zero into) (slice_val un v) (slice_refs un r) (slice_ok mk un k)"
proof (rule deep_copier.intro, goal_cases)
  case (1 h p h')
  show ?case
  proof (cases p)
    case (Some s)
    with 1 have cell: "h_cells h' (sl_array s) = h_cells h (sl_array s)" by (simp add: slice_refs_def)
    then have el: "elems un h' s = elems un h s" by (simp add: elems_def)
    have "v h' x = v h x \<and> r h' x = r h x \<and> (k h x \<longrightarrow> k h' x)" if "x \<in> set (elems un h s)" for x
      using 1 Some that by (intro deep_copier.frame [OF c]) (auto simp: slice_refs_def)
    with 1(2) Some cell el show ?thesis by (auto simp: slice_defs)
  qed (simp add: slice_defs)
next
  case (2 h p)
  then show ?case using deep_copier.ok_refs [OF c, of h] by (fastforce simp: slice_defs split: option.splits)
next
  case (3 h p q h')
  show ?case
  proof (cases p)
    case None
    with 3 show ?thesis by (auto simp: copy_slice_def slice_defs extends_refl)
  next
    case (Some s)
    let ?out = "h_next h" and ?zs = "replicate (sl_len s) zero"
    obtain h1 where h1: "alloc (mk ?zs) h = (?out, h1)" by (simp add: alloc_def)
    have ext1: "extends h h1" by (rule extends_alloc [OF h1])
    have ok: "sl_array s < h_next h" "sl_offset s + sl_len s \<le> length (un (h_cells h (sl_array s)))"
      "\<And>x. x \<in> set (elems un h s) \<Longrightarrow> k h x" using 3(1) Some by (simp_all add: slice_ok_def)
    then have el: "elems un h1 s = elems un h s" "length (elems un h s) = sl_len s" using ext1 by (simp_all add: elems_def extends_def)
    have k1: "v h1 x = v h x \<and> r h1 x = r h x \<and> k h1 x" if "x \<in> set (elems un h s)" for x
      by (rule deep_copier.extends_keeps [OF c ok(3) [OF that] ext1])
    have q: "q = Some \<lparr>sl_array = ?out, sl_offset = 0, sl_len = sl_len s\<rparr>" "h' = copy_elems into mk un ?out 0 (elems un h s) h1"
      using 3(2) Some h1 el by (auto simp: copy_slice_def)
    have "?out \<notin> r h x" if "x \<in> set (elems un h s)" for x using deep_copier.ok_refs [OF c ok(3) [OF that]] by auto
    with k1 have "\<And>x. x \<in> set (elems un h s) \<Longrightarrow> k h1 x \<and> ?out \<notin> r h1 x" by simp
    then have "\<exists>ys. h_cells h' ?out = mk ([] @ ys) \<and> length ys = length (elems un h s) \<and> map (v h') ([] @ ys) = map (v h1) ([] @ elems un h s)
      \<and> (\<forall>y \<in> set ([] @ ys). k h' y \<and> r h' y \<inter> {..<?out} = {})
      \<and> h_next h1 \<le> h_next h' \<and> (\<forall>a < h_next h1. a \<noteq> ?out \<longrightarrow> h_cells h' a = h_cells h1 a)"
      using h1 el(2) by (intro copy_elems_spec [OF c un, where us = ?zs]) (auto simp: alloc_def q(2))
    then obtain ys where ys: "h_cells h' ?out = mk ys" "length ys = sl_len s" "map (v h') ys = map (v h) (elems un h s)"
      "\<And>y. y \<in> set ys \<Longrightarrow> k h' y \<and> r h' y \<inter> {..<?out} = {}" "h_next h1 \<le> h_next h'"
      "\<forall>a < h_next h1. a \<noteq> ?out \<longrightarrow> h_cells h' a = h_cells h1 a"
      using k1 el(2) by auto
    have "extends h h'" using ys(5,6) ext1 by (auto simp: extends_def)
    moreover have "elems un h' \<lparr>sl_array = ?out, sl_offset = 0, sl_len = sl_len s\<rparr> = ys"
      using ys(1,2) by (simp add: elems_def un)
    moreover have "?out < h_next h'" using ys(5) h1 by (auto simp: alloc_def)
    ultimately show ?thesis using ys un Some by (auto simp: q(1) slice_defs)
  qed
qed

lemma copy_elems_plain:
  assumes un: "\<And>x. un (mk x) = x"
  shows "h_cells h out = mk (ds @ us) \<Longrightarrow> length us = length xs \<Longrightarrow> 
    copy_elems (\<lambda>x h. (x, h)) mk un out (length ds) xs h = store out (mk (ds @ xs)) h"
proof (induction xs arbitrary: ds us h)
  case Nil
  then show ?case by (cases h) (auto simp: store_def)
next
  case (Cons x xs)
  obtain u us' where us: "us = u # us'" using Cons.prems(2) by (cases us) auto
  with Cons.IH [of "store out (mk (ds @ x # us')) h" "ds @ [x]" us'] Cons.prems un
  show ?case by (simp add: store_def)
qed

lemma deep_copier_array:
  assumes un: "\<And>x. un (mk x) = x"
  shows "deep_copier (copy_array mk un zero) (slice_val un (\<lambda>_ x. x)) (slice_refs un (\<lambda>_ _. {})) (slice_ok mk un (\<lambda>_ _. True))"
proof -
  note s = deep_copier_slice [OF deep_copier_plain, of un mk zero, OF un]
  show ?thesis
  proof (rule deep_copier.intro, goal_cases)
    case (1 h p h')
    with deep_copier.frame [OF s] show ?case by blast
  next
    case (2 h p)
    with deep_copier.ok_refs [OF s] show ?case by blast
  next
    case (3 h p q h')
    have "copy_array mk un zero p h = copy_slice mk un zero (\<lambda>x h. (x, h)) p h"
    proof (cases p)
      case (Some s)
      let ?h1 = "snd (alloc (mk (replicate (sl_len s) zero)) h)"
      have "length (elems un ?h1 s) = sl_len s" using 3(1) Some by (auto simp: slice_ok_def elems_def alloc_def)
      with copy_elems_plain [OF un, of ?h1 "h_next h" "[]" "replicate (sl_len s) zero" "elems un ?h1 s"] Some
      show ?thesis by (simp add: copy_array_def copy_slice_def alloc_def)
    qed (simp add: copy_array_def copy_slice_def)
    with 3 deep_copier.copy_spec [OF s, of h p q h'] show ?case by simp
  qed
qed

end
