(* ===== verification/Deep_Copy.thy ===== *)
theory Deep_Copy
  imports Go_Heap
begin

text \<open>
  \<open>zz_generated.deepcopy.go\<close>: the copies that the API machinery and its caches make of shims, so that the
  controllers may change what they have read. Every \<open>DeepCopyInto(in, out)\<close> takes the struct \<open>*in\<close> and
  yields the struct it stores in \<open>*out\<close>; all of them start with \<open>*out = *in\<close>, so nothing of the
  old \<open>*out\<close> is left. Each satisfies the contract \<open>deep_copier\<close>.
\<close>

section \<open>The API machinery\<close>

text \<open>The \<open>DeepCopyInto\<close> of the structs that are not part of the repository, and their zero values.\<close>

record 'x machinery =
  ObjectMeta_DeepCopyInto :: "'x \<Rightarrow> 'x heap \<Rightarrow> 'x \<times> 'x heap"
  ListMeta_DeepCopyInto :: "'x \<Rightarrow> 'x heap \<Rightarrow> 'x \<times> 'x heap"
  Condition_DeepCopyInto :: "'x \<Rightarrow> 'x heap \<Rightarrow> 'x \<times> 'x heap"
  zero_ObjectMeta :: 'x
  zero_ListMeta :: 'x
  zero_Condition :: 'x

section \<open>Structs without references\<close>

definition zero_PlatformArtifact :: PlatformArtifact where
  "zero_PlatformArtifact = \<lparr>pa_OS = [], pa_Arch = [], pa_Location = [], pa_SHA256 = []\<rparr>"

definition zero_RuntimeClassSpec :: RuntimeClassSpec where
  "zero_RuntimeClassSpec = \<lparr>rc_Name = [], rc_Handler = []\<rparr>"

definition zero_RolloutStrategy :: RolloutStrategy where
  "zero_RolloutStrategy = \<lparr>rs_Type = [], Rolling = \<lparr>MaxUpdate = 0\<rparr>\<rparr>"

definition AnonHTTPSpec_DeepCopyInto :: "AnonHTTPSpec \<Rightarrow> 'x heap \<Rightarrow> AnonHTTPSpec \<times> 'x heap" where
  "AnonHTTPSpec_DeepCopyInto inn h = (inn, h)"

definition AnonHTTPSpec_DeepCopy :: "addr option \<Rightarrow> 'x heap \<Rightarrow> addr option \<times> 'x heap" where
  "AnonHTTPSpec_DeepCopy = copy_pointer AnonHTTPSpecCell un_AnonHTTPSpec \<lparr>http_Location = []\<rparr> AnonHTTPSpec_DeepCopyInto"

definition PlatformArtifact_DeepCopyInto :: "PlatformArtifact \<Rightarrow> 'x heap \<Rightarrow> PlatformArtifact \<times> 'x heap" where
  "PlatformArtifact_DeepCopyInto inn h = (inn, h)"

definition PlatformArtifact_DeepCopy :: "addr option \<Rightarrow> 'x heap \<Rightarrow> addr option \<times> 'x heap" where
  "PlatformArtifact_DeepCopy = copy_pointer PlatformArtifactCell un_PlatformArtifact zero_PlatformArtifact PlatformArtifact_DeepCopyInto"

definition RollingSpec_DeepCopyInto :: "RollingSpec \<Rightarrow> 'x heap \<Rightarrow> RollingSpec \<times> 'x heap" where
  "RollingSpec_DeepCopyInto inn h = (inn, h)"

definition RollingSpec_DeepCopy :: "addr option \<Rightarrow> 'x heap \<Rightarrow> addr option \<times> 'x heap" where
  "RollingSpec_DeepCopy = copy_pointer RollingSpecCell un_RollingSpec \<lparr>MaxUpdate = 0\<rparr> RollingSpec_DeepCopyInto"

definition RolloutStrategy_DeepCopyInto :: "RolloutStrategy \<Rightarrow> 'x heap \<Rightarrow> RolloutStrategy \<times> 'x heap" where
  "RolloutStrategy_DeepCopyInto inn h = (let out = inn in (out\<lparr>Rolling := Rolling inn\<rparr>, h))"

definition RolloutStrategy_DeepCopy :: "addr option \<Rightarrow> 'x heap \<Rightarrow> addr option \<times> 'x heap" where
  "RolloutStrategy_DeepCopy = copy_pointer RolloutStrategyCell un_RolloutStrategy zero_RolloutStrategy RolloutStrategy_DeepCopyInto"

definition RuntimeClassSpec_DeepCopyInto :: "RuntimeClassSpec \<Rightarrow> 'x heap \<Rightarrow> RuntimeClassSpec \<times> 'x heap" where
  "RuntimeClassSpec_DeepCopyInto inn h = (inn, h)"

definition RuntimeClassSpec_DeepCopy :: "addr option \<Rightarrow> 'x heap \<Rightarrow> addr option \<times> 'x heap" where
  "RuntimeClassSpec_DeepCopy = copy_pointer RuntimeClassSpecCell un_RuntimeClassSpec zero_RuntimeClassSpec RuntimeClassSpec_DeepCopyInto"

section \<open>Structs with references\<close>

text \<open>\<open>*out = new(AnonHTTPSpec); **out = **in\<close>.\<close>

definition copy_AnonHTTP :: "addr option \<Rightarrow> 'x heap \<Rightarrow> addr option \<times> 'x heap" where
  "copy_AnonHTTP = copy_pointer AnonHTTPSpecCell un_AnonHTTPSpec \<lparr>http_Location = []\<rparr> (\<lambda>x h. (x, h))"

definition FetchStrategy_DeepCopyInto :: "go_FetchStrategy \<Rightarrow> 'x heap \<Rightarrow> go_FetchStrategy \<times> 'x heap" where
  "FetchStrategy_DeepCopyInto inn h =
     (let out = inn in
      case copy_AnonHTTP (gf_AnonHTTP inn) h of (p, h1) \<Rightarrow>
      case copy_array PlatformArtifactsCell un_PlatformArtifacts zero_PlatformArtifact (gf_Platforms inn) h1 of (s, h2) \<Rightarrow>
      (out\<lparr>gf_AnonHTTP := p, gf_Platforms := s\<rparr>, h2))"

definition zero_FetchStrategy :: go_FetchStrategy where
  "zero_FetchStrategy = \<lparr>gf_Type = [], gf_AnonHTTP = None, gf_Platforms = None\<rparr>"

definition FetchStrategy_DeepCopy :: "addr option \<Rightarrow> 'x heap \<Rightarrow> addr option \<times> 'x heap" where
  "FetchStrategy_DeepCopy = copy_pointer FetchStrategyCell un_FetchStrategy zero_FetchStrategy FetchStrategy_DeepCopyInto"

definition ShimSpec_DeepCopyInto :: "go_ShimSpec \<Rightarrow> 'x heap \<Rightarrow> go_ShimSpec \<times> 'x heap" where
  "ShimSpec_DeepCopyInto inn h =
     (let out = inn in
      case copy_map (gp_NodeSelector inn) h of (sel, h1) \<Rightarrow>
      case FetchStrategy_DeepCopyInto (gp_FetchStrategy inn) h1 of (fs, h2) \<Rightarrow>
      let out = out\<lparr>gp_NodeSelector := sel, gp_FetchStrategy := fs, gp_RuntimeClass := gp_RuntimeClass inn,
            gp_RolloutStrategy := gp_RolloutStrategy inn\<rparr> in
      case copy_map (gp_ContainerdRuntimeOptions inn) h2 of (opts, h3) \<Rightarrow>
      (out\<lparr>gp_ContainerdRuntimeOptions := opts\<rparr>, h3))"

definition zero_ShimSpec :: go_ShimSpec where
  "zero_ShimSpec = \<lparr>gp_NodeSelector = None, gp_FetchStrategy = zero_FetchStrategy, gp_RuntimeClass = zero_RuntimeClassSpec,
     gp_RolloutStrategy = zero_RolloutStrategy, gp_ContainerdRuntimeOptions = None\<rparr>"

definition ShimSpec_DeepCopy :: "addr option \<Rightarrow> 'x heap \<Rightarrow> addr option \<times> 'x heap" where
  "ShimSpec_DeepCopy = copy_pointer ShimSpecCell un_ShimSpec zero_ShimSpec ShimSpec_DeepCopyInto"

definition ShimStatus_DeepCopyInto :: "'x machinery \<Rightarrow> go_ShimStatus \<Rightarrow> 'x heap \<Rightarrow> go_ShimStatus \<times> 'x heap" where
  "ShimStatus_DeepCopyInto A inn h =
     (let out = inn in
      case copy_slice ConditionsCell un_Conditions (zero_Condition A) (Condition_DeepCopyInto A) (gs_Conditions inn) h of (s, h1) \<Rightarrow>
      (out\<lparr>gs_Conditions := s\<rparr>, h1))"

definition zero_ShimStatus :: go_ShimStatus where
  "zero_ShimStatus = \<lparr>gs_Conditions = None, gs_NodeCount = 0, gs_NodeReadyCount = 0\<rparr>"

definition ShimStatus_DeepCopy :: "'x machinery \<Rightarrow> addr option \<Rightarrow> 'x heap \<Rightarrow> addr option \<times> 'x heap" where
  "ShimStatus_DeepCopy A = copy_pointer ShimStatusCell un_ShimStatus zero_ShimStatus (ShimStatus_DeepCopyInto A)"

definition Shim_DeepCopyInto :: "'x machinery \<Rightarrow> 'x go_Shim \<Rightarrow> 'x heap \<Rightarrow> 'x go_Shim \<times> 'x heap" where
  "Shim_DeepCopyInto A inn h =
     (let out = inn\<lparr>g_TypeMeta := g_TypeMeta inn\<rparr> in
      case ObjectMeta_DeepCopyInto A (g_ObjectMeta inn) h of (m, h1) \<Rightarrow>
      case ShimSpec_DeepCopyInto (g_Spec inn) h1 of (spec, h2) \<Rightarrow>
      case ShimStatus_DeepCopyInto A (g_Status inn) h2 of (status, h3) \<Rightarrow>
      (out\<lparr>g_ObjectMeta := m, g_Spec := spec, g_Status := status\<rparr>, h3))"

definition zero_Shim :: "'x machinery \<Rightarrow> 'x go_Shim" where
  "zero_Shim A = \<lparr>g_TypeMeta = \<lparr>tm_Kind = [], tm_APIVersion = []\<rparr>, g_ObjectMeta = zero_ObjectMeta A, g_Spec = zero_ShimSpec,
     g_Status = zero_ShimStatus\<rparr>"

definition Shim_DeepCopy :: "'x machinery \<Rightarrow> addr option \<Rightarrow> 'x heap \<Rightarrow> addr option \<times> 'x heap" where
  "Shim_DeepCopy A = copy_pointer ShimCell un_Shim (zero_Shim A) (Shim_DeepCopyInto A)"

text \<open>A \<open>runtime.Object\<close> that is not nil holds a pointer to a shim or to a list of shims.\<close>

datatype object = ObjShim addr | ObjShimList addr

definition Shim_DeepCopyObject :: "'x machinery \<Rightarrow> addr option \<Rightarrow> 'x heap \<Rightarrow> object option \<times> 'x heap" where
  "Shim_DeepCopyObject A inn h = (case Shim_DeepCopy A inn h of (Some c, h1) \<Rightarrow> (Some (ObjShim c), h1) | (None, h1) \<Rightarrow> (None, h1))"

definition ShimList_DeepCopyInto :: "'x machinery \<Rightarrow> 'x go_ShimList \<Rightarrow> 'x heap \<Rightarrow> 'x go_ShimList \<times> 'x heap" where
  "ShimList_DeepCopyInto A inn h =
     (let out = inn\<lparr>gl_TypeMeta := gl_TypeMeta inn\<rparr> in
      case ListMeta_DeepCopyInto A (gl_ListMeta inn) h of (m, h1) \<Rightarrow>
      case copy_slice ShimsCell un_Shims (zero_Shim A) (Shim_DeepCopyInto A) (gl_Items inn) h1 of (s, h2) \<Rightarrow>
      (out\<lparr>gl_ListMeta := m, gl_Items := s\<rparr>, h2))"

definition zero_ShimList :: "'x machinery \<Rightarrow> 'x go_ShimList" where
  "zero_ShimList A = \<lparr>gl_TypeMeta = \<lparr>tm_Kind = [], tm_APIVersion = []\<rparr>, gl_ListMeta = zero_ListMeta A, gl_Items = None\<rparr>"

definition ShimList_DeepCopy :: "'x machinery \<Rightarrow> addr option \<Rightarrow> 'x heap \<Rightarrow> addr option \<times> 'x heap" where
  "ShimList_DeepCopy A = copy_pointer ShimListCell un_ShimList (zero_ShimList A) (ShimList_DeepCopyInto A)"

definition ShimList_DeepCopyObject :: "'x machinery \<Rightarrow> addr option \<Rightarrow> 'x heap \<Rightarrow> object option \<times> 'x heap" where
  "ShimList_DeepCopyObject A inn h = (case ShimList_DeepCopy A inn h of (Some c, h1) \<Rightarrow> (Some (ObjShimList c), h1) | (None, h1) \<Rightarrow> (None, h1))"

section \<open>The contract of the copies\<close>

text \<open>
  For each struct its value with all references followed, the cells it depends on, and that these are
  allocated and of the right kind. \<open>v\<close>, \<open>r\<close> and \<open>k\<close> are these for the structs of the API machinery.
\<close>

definition FetchStrategy_val :: "'x heap \<Rightarrow> go_FetchStrategy \<Rightarrow> string \<times> AnonHTTPSpec option \<times> PlatformArtifact list option" where
  "FetchStrategy_val h s = (gf_Type s, pointer_val un_AnonHTTPSpec (\<lambda>_ x. x) h (gf_AnonHTTP s),
     slice_val un_PlatformArtifacts (\<lambda>_ x. x) h (gf_Platforms s))"

definition FetchStrategy_refs :: "'x heap \<Rightarrow> go_FetchStrategy \<Rightarrow> addr set" where
  "FetchStrategy_refs h s = pointer_refs un_AnonHTTPSpec (\<lambda>_ _. {}) h (gf_AnonHTTP s)
     \<union> slice_refs un_PlatformArtifacts (\<lambda>_ _. {}) h (gf_Platforms s)"

definition FetchStrategy_ok :: "'x heap \<Rightarrow> go_FetchStrategy \<Rightarrow> bool" where
  "FetchStrategy_ok h s \<longleftrightarrow> pointer_ok AnonHTTPSpecCell un_AnonHTTPSpec (\<lambda>_ _. True) h (gf_AnonHTTP s)
     \<and> slice_ok PlatformArtifactsCell un_PlatformArtifacts (\<lambda>_ _. True) h (gf_Platforms s)"

definition ShimSpec_val :: "'x heap \<Rightarrow> go_ShimSpec \<Rightarrow> (RuntimeClassSpec \<times> RolloutStrategy) \<times> (string \<times> string) list option
    \<times> (string \<times> AnonHTTPSpec option \<times> PlatformArtifact list option) \<times> (string \<times> string) list option" where
  "ShimSpec_val h s = ((gp_RuntimeClass s, gp_RolloutStrategy s), pointer_val un_Map (\<lambda>_ x. x) h (gp_NodeSelector s),
     FetchStrategy_val h (gp_FetchStrategy s), pointer_val un_Map (\<lambda>_ x. x) h (gp_ContainerdRuntimeOptions s))"

definition ShimSpec_refs :: "'x heap \<Rightarrow> go_ShimSpec \<Rightarrow> addr set" where
  "ShimSpec_refs h s = pointer_refs un_Map (\<lambda>_ _. {}) h (gp_NodeSelector s) \<union> (FetchStrategy_refs h (gp_FetchStrategy s)
     \<union> pointer_refs un_Map (\<lambda>_ _. {}) h (gp_ContainerdRuntimeOptions s))"

definition ShimSpec_ok :: "'x heap \<Rightarrow> go_ShimSpec \<Rightarrow> bool" where
  "ShimSpec_ok h s \<longleftrightarrow> map_ok h (gp_NodeSelector s) \<and> FetchStrategy_ok h (gp_FetchStrategy s) \<and> map_ok h (gp_ContainerdRuntimeOptions s)"

definition ShimStatus_val :: "('x heap \<Rightarrow> 'x \<Rightarrow> 'v) \<Rightarrow> 'x heap \<Rightarrow> go_ShimStatus \<Rightarrow> (int \<times> int) \<times> 'v list option" where
  "ShimStatus_val v h s = ((gs_NodeCount s, gs_NodeReadyCount s), slice_val un_Conditions v h (gs_Conditions s))"

definition Shim_val :: "('x heap \<Rightarrow> 'x \<Rightarrow> 'v) \<Rightarrow> 'x heap \<Rightarrow> 'x go_Shim \<Rightarrow> TypeMeta \<times> 'v
    \<times> ((RuntimeClassSpec \<times> RolloutStrategy) \<times> (string \<times> string) list option
        \<times> (string \<times> AnonHTTPSpec option \<times> PlatformArtifact list option) \<times> (string \<times> string) list option)
    \<times> ((int \<times> int) \<times> 'v list option)" where
  "Shim_val v h s = (g_TypeMeta s, v h (g_ObjectMeta s), ShimSpec_val h (g_Spec s), ShimStatus_val v h (g_Status s))"

definition Shim_refs :: "('x heap \<Rightarrow> 'x \<Rightarrow> addr set) \<Rightarrow> 'x heap \<Rightarrow> 'x go_Shim \<Rightarrow> addr set" where
  "Shim_refs r h s = r h (g_ObjectMeta s) \<union> (ShimSpec_refs h (g_Spec s) \<union> slice_refs un_Conditions r h (gs_Conditions (g_Status s)))"

definition Shim_ok :: "('x heap \<Rightarrow> 'x \<Rightarrow> bool) \<Rightarrow> 'x heap \<Rightarrow> 'x go_Shim \<Rightarrow> bool" where
  "Shim_ok k h s \<longleftrightarrow> k h (g_ObjectMeta s) \<and> ShimSpec_ok h (g_Spec s) \<and> slice_ok ConditionsCell un_Conditions k h (gs_Conditions (g_Status s))"

definition ShimList_val :: "('x heap \<Rightarrow> 'x \<Rightarrow> 'v) \<Rightarrow> 'x heap \<Rightarrow> 'x go_ShimList \<Rightarrow> TypeMeta \<times> 'v \<times> (TypeMeta \<times> 'v
    \<times> ((RuntimeClassSpec \<times> RolloutStrategy) \<times> (string \<times> string) list option
        \<times> (string \<times> AnonHTTPSpec option \<times> PlatformArtifact list option) \<times> (string \<times> string) list option)
    \<times> ((int \<times> int) \<times> 'v list option)) list option" where
  "ShimList_val v h s = (gl_TypeMeta s, v h (gl_ListMeta s), slice_val un_Shims (Shim_val v) h (gl_Items s))"

definition ShimList_refs :: "('x heap \<Rightarrow> 'x \<Rightarrow> addr set) \<Rightarrow> 'x heap \<Rightarrow> 'x go_ShimList \<Rightarrow> addr set" where
  "ShimList_refs r h s = r h (gl_ListMeta s) \<union> slice_refs un_Shims (Shim_refs r) h (gl_Items s)"

definition ShimList_ok :: "('x heap \<Rightarrow> 'x \<Rightarrow> bool) \<Rightarrow> 'x heap \<Rightarrow> 'x go_ShimList \<Rightarrow> bool" where
  "ShimList_ok k h s \<longleftrightarrow> k h (gl_ListMeta s) \<and> slice_ok ShimsCell un_Shims (Shim_ok k) h (gl_Items s)"

interpretation FetchStrategy_copy: deep_copier FetchStrategy_DeepCopyInto FetchStrategy_val FetchStrategy_refs FetchStrategy_ok
proof -
  have "deep_copier FetchStrategy_DeepCopyInto
    (\<lambda>h s. (gf_Type s, (\<lambda>h (x, y). (pointer_val un_AnonHTTPSpec (\<lambda>_ x. x) h x, slice_val un_PlatformArtifacts (\<lambda>_ x. x) h y))
       h (gf_AnonHTTP s, gf_Platforms s)))
    (\<lambda>h s. (\<lambda>h (x, y). pointer_refs un_AnonHTTPSpec (\<lambda>_ _. {}) h x \<union> slice_refs un_PlatformArtifacts (\<lambda>_ _. {}) h y)
       h (gf_AnonHTTP s, gf_Platforms s))
    (\<lambda>h s. (\<lambda>h (x, y). pointer_ok AnonHTTPSpecCell un_AnonHTTPSpec (\<lambda>_ _. True) h x \<and> slice_ok PlatformArtifactsCell un_PlatformArtifacts (\<lambda>_ _. True) h y)
       h (gf_AnonHTTP s, gf_Platforms s))"
    by (rule deep_copier_struct [OF deep_copier_pair
          [OF deep_copier_pointer [OF deep_copier_plain, of un_AnonHTTPSpec AnonHTTPSpecCell "\<lparr>http_Location = []\<rparr>"]
              deep_copier_array [of un_PlatformArtifacts PlatformArtifactsCell zero_PlatformArtifact]],
        where put = "\<lambda>s (x, y). s\<lparr>gf_AnonHTTP := x, gf_Platforms := y\<rparr>"])
       (auto simp: FetchStrategy_DeepCopyInto_def copy_AnonHTTP_def split: prod.splits)
  then show "deep_copier FetchStrategy_DeepCopyInto FetchStrategy_val FetchStrategy_refs FetchStrategy_ok"
    by (simp add: FetchStrategy_val_def [abs_def] FetchStrategy_refs_def [abs_def] FetchStrategy_ok_def [abs_def])
qed

interpretation ShimSpec_copy: deep_copier ShimSpec_DeepCopyInto ShimSpec_val ShimSpec_refs ShimSpec_ok
proof -
  let ?get = "\<lambda>s. (gp_NodeSelector s, gp_FetchStrategy s, gp_ContainerdRuntimeOptions s)"
  have "deep_copier ShimSpec_DeepCopyInto
    (\<lambda>h s. ((gp_RuntimeClass s, gp_RolloutStrategy s), (\<lambda>h (x, y). (pointer_val un_Map (\<lambda>_ x. x) h x,
       (\<lambda>h (x, y). (FetchStrategy_val h x, pointer_val un_Map (\<lambda>_ x. x) h y)) h y)) h (?get s)))
    (\<lambda>h s. (\<lambda>h (x, y). pointer_refs un_Map (\<lambda>_ _. {}) h x \<union>
       (\<lambda>h (x, y). FetchStrategy_refs h x \<union> pointer_refs un_Map (\<lambda>_ _. {}) h y) h y) h (?get s))
    (\<lambda>h s. (\<lambda>h (x, y). map_ok h x \<and> (\<lambda>h (x, y). FetchStrategy_ok h x \<and> map_ok h y) h y) h (?get s))"
    by (rule deep_copier_struct [OF deep_copier_pair
          [OF deep_copier_map deep_copier_pair [OF FetchStrategy_copy.deep_copier_axioms deep_copier_map]],
        where put = "\<lambda>s (x, y, z). s\<lparr>gp_NodeSelector := x, gp_FetchStrategy := y, gp_ContainerdRuntimeOptions := z\<rparr>"])
       (auto simp: ShimSpec_DeepCopyInto_def Let_def split: prod.splits)
  then show "deep_copier ShimSpec_DeepCopyInto ShimSpec_val ShimSpec_refs ShimSpec_ok"
    by (simp add: ShimSpec_val_def [abs_def] ShimSpec_refs_def [abs_def] ShimSpec_ok_def [abs_def])
qed

locale machinery_laws =
  fixes A :: "'x machinery" and v :: "'x heap \<Rightarrow> 'x \<Rightarrow> 'v" and r :: "'x heap \<Rightarrow> 'x \<Rightarrow> addr set" and k :: "'x heap \<Rightarrow> 'x \<Rightarrow> bool"
  assumes ObjectMeta_copy: "deep_copier (ObjectMeta_DeepCopyInto A) v r k"
    and ListMeta_copy: "deep_copier (ListMeta_DeepCopyInto A) v r k"
    and Condition_copy: "deep_copier (Condition_DeepCopyInto A) v r k"
begin

lemma ShimStatus_copy:
  "deep_copier (ShimStatus_DeepCopyInto A) (ShimStatus_val v) (\<lambda>h s. slice_refs un_Conditions r h (gs_Conditions s))
     (\<lambda>h s. slice_ok ConditionsCell un_Conditions k h (gs_Conditions s))"
  unfolding ShimStatus_val_def [abs_def]
  by (rule deep_copier_struct [OF deep_copier_slice [OF Condition_copy], where put = "\<lambda>s x. s\<lparr>gs_Conditions := x\<rparr>"])
     (auto simp: ShimStatus_DeepCopyInto_def)

lemma Shim_copy: "deep_copier (Shim_DeepCopyInto A) (Shim_val v) (Shim_refs r) (Shim_ok k)"
proof -
  let ?get = "\<lambda>s. (g_ObjectMeta s, g_Spec s, g_Status s)"
  have "deep_copier (Shim_DeepCopyInto A)
    (\<lambda>h s. (g_TypeMeta s, (\<lambda>h (x, y). (v h x, (\<lambda>h (x, y). (ShimSpec_val h x, ShimStatus_val v h y)) h y)) h (?get s)))
    (\<lambda>h s. (\<lambda>h (x, y). r h x \<union> (\<lambda>h (x, y). ShimSpec_refs h x \<union> slice_refs un_Conditions r h (gs_Conditions y)) h y) h (?get s))
    (\<lambda>h s. (\<lambda>h (x, y). k h x \<and> (\<lambda>h (x, y). ShimSpec_ok h x \<and> slice_ok ConditionsCell un_Conditions k h (gs_Conditions y)) h y) h (?get s))"
    by (rule deep_copier_struct [OF deep_copier_pair
          [OF ObjectMeta_copy deep_copier_pair [OF ShimSpec_copy.deep_copier_axioms ShimStatus_copy]],
        where put = "\<lambda>s (x, y, z). s\<lparr>g_ObjectMeta := x, g_Spec := y, g_Status := z\<rparr>"])
       (auto simp: Shim_DeepCopyInto_def Let_def split: prod.splits)
  then show ?thesis by (simp add: Shim_val_def [abs_def] Shim_refs_def [abs_def] Shim_ok_def [abs_def])
qed

lemma ShimList_copy: "deep_copier (ShimList_DeepCopyInto A) (ShimList_val v) (ShimList_refs r) (ShimList_ok k)"
proof -
  let ?get = "\<lambda>s. (gl_ListMeta s, gl_Items s)"
  have "deep_copier (ShimList_DeepCopyInto A)
    (\<lambda>h s. (gl_TypeMeta s, (\<lambda>h (x, y). (v h x, slice_val un_Shims (Shim_val v) h y)) h (?get s)))
    (\<lambda>h s. (\<lambda>h (x, y). r h x \<union> slice_refs un_Shims (Shim_refs r) h y) h (?get s))
    (\<lambda>h s. (\<lambda>h (x, y). k h x \<and> slice_ok ShimsCell un_Shims (Shim_ok k) h y) h (?get s))"
    by (rule deep_copier_struct [OF deep_copier_pair [OF ListMeta_copy deep_copier_slice [OF Shim_copy, where zero = "zero_Shim A"]],
        where put = "\<lambda>s (x, y). s\<lparr>gl_ListMeta := x, gl_Items := y\<rparr>"])
       (auto simp: ShimList_DeepCopyInto_def Let_def split: prod.splits)
  then show ?thesis by (simp add: ShimList_val_def [abs_def] ShimList_refs_def [abs_def] ShimList_ok_def [abs_def])
qed

lemma Shim_pointer_copy:
  "deep_copier (Shim_DeepCopy A) (pointer_val un_Shim (Shim_val v)) (pointer_refs un_Shim (Shim_refs r)) (pointer_ok ShimCell un_Shim (Shim_ok k))"
  unfolding Shim_DeepCopy_def by (rule deep_copier_pointer [OF Shim_copy]) simp

lemma ShimList_pointer_copy:
  "deep_copier (ShimList_DeepCopy A) (pointer_val un_ShimList (ShimList_val v)) (pointer_refs un_ShimList (ShimList_refs r))
     (pointer_ok ShimListCell un_ShimList (ShimList_ok k))"
  unfolding ShimList_DeepCopy_def by (rule deep_copier_pointer [OF ShimList_copy]) simp

end

section \<open>Copies of shims and of lists of shims\<close>

lemma deep_copier_writes:
  assumes c: "deep_copier c val refs ok" and "ok h x" "c x h = (y, h')"
  shows "val h' y = val h x \<and> extends h h' \<and> refs h' x \<inter> refs h' y = {}
    \<and> (\<forall>h2. h_next h' \<le> h_next h2 \<longrightarrow> (\<forall>a. a \<notin> refs h' y \<longrightarrow> h_cells h2 a = h_cells h' a) \<longrightarrow> val h2 x = val h x)
    \<and> (\<forall>h2. h_next h' \<le> h_next h2 \<longrightarrow> (\<forall>a. a \<notin> refs h' x \<longrightarrow> h_cells h2 a = h_cells h' a) \<longrightarrow> val h2 y = val h x)"
  using deep_copier.copy_spec [OF assms] deep_copier.independent [OF assms] by blast

text \<open>
  C20. The copy of a shim has the value of the shim, nothing that existed is changed, and the two share no
  cell: whatever is written through the copy (to its maps, its artifacts, its conditions), the value of
  the original stays as it is, and the other way round.
\<close>

theorem Shim_DeepCopy_independent:
  assumes "machinery_laws A v r k" "pointer_ok ShimCell un_Shim (Shim_ok k) h p" "Shim_DeepCopy A p h = (q, h')"
  shows "pointer_val un_Shim (Shim_val v) h' q = pointer_val un_Shim (Shim_val v) h p \<and> extends h h'
    \<and> pointer_refs un_Shim (Shim_refs r) h' p \<inter> pointer_refs un_Shim (Shim_refs r) h' q = {}
    \<and> (\<forall>h2. h_next h' \<le> h_next h2 \<longrightarrow> (\<forall>a. a \<notin> pointer_refs un_Shim (Shim_refs r) h' q \<longrightarrow> h_cells h2 a = h_cells h' a)
        \<longrightarrow> pointer_val un_Shim (Shim_val v) h2 p = pointer_val un_Shim (Shim_val v) h p)
    \<and> (\<forall>h2. h_next h' \<le> h_next h2 \<longrightarrow> (\<forall>a. a \<notin> pointer_refs un_Shim (Shim_refs r) h' p \<longrightarrow> h_cells h2 a = h_cells h' a)
        \<longrightarrow> pointer_val un_Shim (Shim_val v) h2 q = pointer_val un_Shim (Shim_val v) h p)"
  by (rule deep_copier_writes [OF machinery_laws.Shim_pointer_copy [OF assms(1)] assms(2,3)])

text \<open>
  What the cache hands out for a list of shims is a list of copies: the object holds a list
  with the same values, and shares no cell with the list in the cache.
\<close>

lemma ShimList_DeepCopyObject_independent:
  assumes "machinery_laws A v r k" "pointer_ok ShimListCell un_ShimList (ShimList_ok k) h (Some p)"
  shows "\<exists>q h'. ShimList_DeepCopyObject A (Some p) h = (Some (ObjShimList q), h')
    \<and> ShimList_val v h' (un_ShimList (h_cells h' q)) = ShimList_val v h (un_ShimList (h_cells h p)) \<and> extends h h'
    \<and> (\<forall>h2. h_next h' \<le> h_next h2 \<longrightarrow> (\<forall>a. a \<notin> pointer_refs un_ShimList (ShimList_refs r) h' (Some q) \<longrightarrow> h_cells h2 a = h_cells h' a)
        \<longrightarrow> ShimList_val v h2 (un_ShimList (h_cells h2 p)) = ShimList_val v h (un_ShimList (h_cells h p)))"
proof -
  obtain q' h' where copy: "ShimList_DeepCopy A (Some p) h = (q', h')" by fastforce
  then obtain q where q: "q' = Some q" by (auto simp: ShimList_DeepCopy_def copy_pointer_def split: prod.splits)
  from deep_copier_writes [OF machinery_laws.ShimList_pointer_copy [OF assms(1)] assms(2) copy] copy q
  show ?thesis by (intro exI [of _ q] exI [of _ h']) (simp add: ShimList_DeepCopyObject_def pointer_val_def)
qed

section \<open>Witnesses\<close>

text \<open>Object metadata with a name and a reference to the labels; conditions have no labels.\<close>

type_synonym demo_meta = "string \<times> addr option"

definition demo_copy :: "demo_meta \<Rightarrow> demo_meta heap \<Rightarrow> demo_meta \<times> demo_meta heap" where
  "demo_copy m h = (case copy_map (snd m) h of (p, h1) \<Rightarrow> ((fst m, p), h1))"

definition demo_machinery :: "demo_meta machinery" where
  "demo_machinery = \<lparr>ObjectMeta_DeepCopyInto = demo_copy, ListMeta_DeepCopyInto = demo_copy, Condition_DeepCopyInto = demo_copy,
     zero_ObjectMeta = ([], None), zero_ListMeta = ([], None), zero_Condition = ([], None)\<rparr>"

interpretation demo: machinery_laws demo_machinery "\<lambda>h m. (fst m, pointer_val un_Map (\<lambda>_ x. x) h (snd m))"
  "\<lambda>h m. pointer_refs un_Map (\<lambda>_ _. {}) h (snd m)" "\<lambda>h m. map_ok h (snd m)"
proof -
  have "deep_copier demo_copy (\<lambda>h m. (fst m, pointer_val un_Map (\<lambda>_ x. x) h (snd m)))
    (\<lambda>h m. pointer_refs un_Map (\<lambda>_ _. {}) h (snd m)) (\<lambda>h m. map_ok h (snd m))"
    by (rule deep_copier_struct [OF deep_copier_map, where put = "\<lambda>m p. (fst m, p)"]) (auto simp: demo_copy_def split: prod.splits)
  then show "machinery_laws demo_machinery (\<lambda>h m. (fst m, pointer_val un_Map (\<lambda>_ x. x) h (snd m)))
    (\<lambda>h m. pointer_refs un_Map (\<lambda>_ _. {}) h (snd m)) (\<lambda>h m. map_ok h (snd m))"
    by (intro machinery_laws.intro) (simp_all add: demo_machinery_def)
qed

text \<open>A shim at address 4 with a node selector (0), labels (1), platforms (2) and a condition (3), in a list (5, 6).\<close>

definition demo_go_Shim :: "demo_meta go_Shim" where
  "demo_go_Shim = \<lparr>g_TypeMeta = \<lparr>tm_Kind = ''Shim'', tm_APIVersion = ''runtime.spinkube.dev/v1alpha1''\<rparr>, g_ObjectMeta = (''spin'', Some 1),
     g_Spec = \<lparr>gp_NodeSelector = Some 0,
       gp_FetchStrategy = \<lparr>gf_Type = [], gf_AnonHTTP = None, gf_Platforms = Some \<lparr>sl_array = 2, sl_offset = 1, sl_len = 1\<rparr>\<rparr>,
       gp_RuntimeClass = \<lparr>rc_Name = ''wasmtime-spin'', rc_Handler = ''spin''\<rparr>,
       gp_RolloutStrategy = \<lparr>rs_Type = ''recreate'', Rolling = \<lparr>MaxUpdate = 0\<rparr>\<rparr>, gp_ContainerdRuntimeOptions = None\<rparr>,
     g_Status = \<lparr>gs_Conditions = Some \<lparr>sl_array = 3, sl_offset = 0, sl_len = 1\<rparr>, gs_NodeCount = 2, gs_NodeReadyCount = 1\<rparr>\<rparr>"

definition demo_heap :: "demo_meta heap" where
  "demo_heap = \<lparr>h_cells = (!) [MapCell [(''spin'', ''true'')], MapCell [(''app'', ''rcm'')],
       PlatformArtifactsCell [zero_PlatformArtifact, \<lparr>pa_OS = ''linux'', pa_Arch = ''amd64'', pa_Location = ''https://a'', pa_SHA256 = []\<rparr>],
       ConditionsCell [(''Ready'', None)], ShimCell demo_go_Shim, ShimsCell [demo_go_Shim],
       ShimListCell \<lparr>gl_TypeMeta = \<lparr>tm_Kind = ''ShimList'', tm_APIVersion = []\<rparr>, gl_ListMeta = ([], None),
         gl_Items = Some \<lparr>sl_array = 5, sl_offset = 0, sl_len = 1\<rparr>\<rparr>], h_next = 7\<rparr>"

lemmas demo_ok_defs = demo_heap_def demo_go_Shim_def pointer_ok_def Shim_ok_def ShimSpec_ok_def map_ok_def FetchStrategy_ok_def
  slice_ok_def elems_def ShimList_ok_def

text \<open>The copy's node selector is emptied; the original keeps its own.\<close>

theorem Shim_DeepCopy_independent_witness:
  "case Shim_DeepCopy demo_machinery (Some 4) demo_heap of (q, h') \<Rightarrow>
     (case gp_NodeSelector (g_Spec (un_Shim (h_cells h' (the q)))) of Some a \<Rightarrow>
        pointer_val un_Map (\<lambda>_ x. x) (store a (MapCell []) h') (Some 0) = Some [(''spin'', ''true'')])"
proof -
  obtain q h' where copy: "Shim_DeepCopy demo_machinery (Some 4) demo_heap = (q, h')" by fastforce
  have ok: "pointer_ok ShimCell un_Shim (Shim_ok (\<lambda>h m. map_ok h (snd m))) demo_heap (Some 4)"
    by (simp add: demo_ok_defs)
  obtain b where q: "q = Some b" using copy by (auto simp: Shim_DeepCopy_def copy_pointer_def split: prod.splits)
  note spec = Shim_DeepCopy_independent [OF demo.machinery_laws_axioms ok copy]
  let ?s = "un_Shim (h_cells h' b)"
  have "ShimSpec_val h' (g_Spec ?s) = ShimSpec_val demo_heap (g_Spec demo_go_Shim)"
    using spec q by (simp add: pointer_val_def Shim_val_def demo_heap_def)
  then have "pointer_val un_Map (\<lambda>_ x. x) h' (gp_NodeSelector (g_Spec ?s)) = Some [(''spin'', ''true'')]"
    by (simp add: ShimSpec_val_def) (simp add: demo_heap_def demo_go_Shim_def pointer_val_def)
  then obtain a where a: "gp_NodeSelector (g_Spec ?s) = Some a" by (auto simp: pointer_val_def)
  let ?h2 = "store a (MapCell []) h'"
  have "a \<in> pointer_refs un_Shim (Shim_refs (\<lambda>h m. pointer_refs un_Map (\<lambda>_ _. {}) h (snd m))) h' q"
    using a by (simp add: q pointer_refs_def Shim_refs_def ShimSpec_refs_def)
  then have "pointer_val un_Shim (Shim_val (\<lambda>h m. (fst m, pointer_val un_Map (\<lambda>_ x. x) h (snd m)))) ?h2 (Some 4)
      = pointer_val un_Shim (Shim_val (\<lambda>h m. (fst m, pointer_val un_Map (\<lambda>_ x. x) h (snd m)))) demo_heap (Some 4)"
    using spec by (auto simp: store_def)
  moreover have "un_Shim (h_cells ?h2 4) = demo_go_Shim"
  proof -
    have "a \<noteq> 4" using spec a by (auto simp: q pointer_refs_def Shim_refs_def ShimSpec_refs_def)
    moreover have "h_cells h' 4 = h_cells demo_heap 4" using spec by (simp add: extends_def demo_heap_def)
    ultimately show ?thesis by (simp add: store_def demo_heap_def)
  qed
  ultimately have "ShimSpec_val ?h2 (g_Spec demo_go_Shim) = ShimSpec_val demo_heap (g_Spec demo_go_Shim)"
    by (simp add: pointer_val_def Shim_val_def) (simp add: demo_heap_def)
  then have "pointer_val un_Map (\<lambda>_ x. x) ?h2 (Some 0) = Some [(''spin'', ''true'')]"
    by (simp add: ShimSpec_val_def demo_go_Shim_def) (simp add: demo_heap_def pointer_val_def)
  then show ?thesis by (simp add: copy q a)
qed

lemma ShimList_DeepCopyObject_independent_witness:
  "\<exists>q h'. ShimList_DeepCopyObject demo_machinery (Some 6) demo_heap = (Some (ObjShimList q), h') \<and> extends demo_heap h'"
proof -
  have "pointer_ok ShimListCell un_ShimList (ShimList_ok (\<lambda>h m. map_ok h (snd m))) demo_heap (Some 6)"
    by (simp add: demo_ok_defs)
  from ShimList_DeepCopyObject_independent [OF demo.machinery_laws_axioms this] show ?thesis by blast
qed

end
