(* ===== verification/Convergence.thy ===== *)
theory Convergence
  imports Node_Jobs
begin

text \<open>
  Progress: what a round of undisturbed runs achieves on the server in memory. The shim reconciler labels the
  nodes and sends the jobs, the jobs complete, the job reconciler reports them, and the next run of the
  shim reconciler finds everything done. \<open>Node_Jobs\<close> shows that such a round is an execution of the
  cluster.
\<close>

section \<open>Status and finalizer on the server in memory\<close>

definition counted :: "Shim \<Rightarrow> Node list \<Rightarrow> Shim \<Rightarrow> bool" where
  "counted s ns s' \<longleftrightarrow> shim_Name s' = shim_Name s \<and> Spec s' = Spec s \<and> om_DeletionTimestamp (shim_meta s') = om_DeletionTimestamp (shim_meta s)
     \<and> NodeCount (Status s') = int (length ns) \<and> NodeReadyCount (Status s') = int (ready_count s ns)"

lemma counted_trans: "counted s ns s1 \<Longrightarrow> counted s1 ns' s2 \<Longrightarrow> counted s ns' s2"
  by (simp add: counted_def ready_count_def)

lemma ensure_mem:
  assumes "find_by shim_Name (shim_Name s') (srv_shims c) = Inr s'" "om_DeletionTimestamp (shim_meta s') = None" "counted s ns s'"
  shows "\<exists>shs s2. snd (ensureFinalizerForShim mem_kube s' f c) = c\<lparr>srv_shims := shs\<rparr>
    \<and> find_by shim_Name (shim_Name s') shs = Inr s2 \<and> counted s ns s2"
proof (cases "k_ContainsFinalizer mem_kube s' f")
  case True
  then show ?thesis using assms by (intro exI [of _ "srv_shims c"] exI [of _ s']) (simp add: ensureFinalizerForShim_def)
next
  case False
  let ?s = "(k_AddFinalizer mem_kube s' f)\<lparr>shim_meta := bump (shim_meta (k_AddFinalizer mem_kube s' f))\<rparr>"
  have meta: "shim_Name ?s = shim_Name s'" "om_DeletionTimestamp (shim_meta ?s) = None" "counted s ns ?s"
    "om_ResourceVersion (shim_meta (k_AddFinalizer mem_kube s' f)) = om_ResourceVersion (shim_meta s')"
    "shim_Name (k_AddFinalizer mem_kube s' f) = shim_Name s'"
    using assms(2,3) by (simp_all add: mem_kube_def finalizers_def bump_def counted_def)
  have "k_UpdateShim mem_kube (k_AddFinalizer mem_kube s' f) c = (Inr ?s, c\<lparr>srv_shims := put_by shim_Name ?s (srv_shims c)\<rparr>)"
    using assms(1) meta(2,4,5) by (simp add: mem_UpdateShim_def Let_def mem_kube_def del: shim_meta_update_def)
  moreover have "find_by shim_Name (shim_Name s') (put_by shim_Name ?s (srv_shims c)) = Inr ?s"
    using find_by_put_same [of shim_Name ?s "srv_shims c" s'] assms(1) unfolding meta(1) by simp
  ultimately show ?thesis using False meta(3)
    by (intro exI [of _ "put_by shim_Name ?s (srv_shims c)"] exI [of _ ?s]) (simp add: ensureFinalizerForShim_def Let_def)
qed

lemma updateStatus_mem:
  assumes "find_by shim_Name (shim_Name s) (srv_shims c) = Inr s" "om_DeletionTimestamp (shim_meta s) = None \<or> om_Finalizers (shim_meta s) \<noteq> []"
  shows "\<exists>s'. updateStatus mem_kube s ns c = ((None, s'), c\<lparr>srv_shims := put_by shim_Name s' (srv_shims c)\<rparr>)
    \<and> find_by shim_Name (shim_Name s) (put_by shim_Name s' (srv_shims c)) = Inr s' \<and> counted s ns s'
    \<and> om_Finalizers (shim_meta s') = om_Finalizers (shim_meta s)"
proof -
  let ?s = "(with_counts s ns)\<lparr>shim_meta := bump (shim_meta s)\<rparr>"
  have up: "k_UpdateShim mem_kube (with_counts s ns) c = (Inr ?s, c\<lparr>srv_shims := put_by shim_Name ?s (srv_shims c)\<rparr>)"
    using assms by (auto simp: mem_kube_def mem_UpdateShim_def with_counts_def bump_def Let_def)
  have name: "shim_Name ?s = shim_Name s" by (simp add: bump_def)
  have found: "find_by shim_Name (shim_Name s) (put_by shim_Name ?s (srv_shims c)) = Inr ?s"
    using find_by_put_same [of shim_Name ?s "srv_shims c" s] assms(1) unfolding name by simp
  then have get: "k_GetShim mem_kube \<lparr>nn_Name = shim_Name ?s, nn_Namespace = om_Namespace (shim_meta ?s)\<rparr> (c\<lparr>srv_shims := put_by shim_Name ?s (srv_shims c)\<rparr>)
    = (Inr ?s, c\<lparr>srv_shims := put_by shim_Name ?s (srv_shims c)\<rparr>)"
    unfolding name by (simp add: mem_kube_def)
  have "updateStatus mem_kube s ns c = ((None, ?s), c\<lparr>srv_shims := put_by shim_Name ?s (srv_shims c)\<rparr>)"
    unfolding updateStatus_def Let_def up prod.case sum.case get by (rule refl)
  moreover have "counted s ns ?s" "om_Finalizers (shim_meta ?s) = om_Finalizers (shim_meta s)" by (simp_all add: counted_def with_counts_def bump_def)
  ultimately show ?thesis using found by (intro exI [of _ ?s] conjI)
qed

lemma handleDeployRuntimeClass_mem: "\<exists>rcs. handleDeployRuntimeClass mem_kube s c = (None, c\<lparr>srv_classes := rcs\<rparr>)"
  by (simp add: handleDeployRuntimeClass_def createRuntimeClassManifest_def mem_PatchRuntimeClass_def mem_kube_def Let_def) blast

lemma runtimeClassExists_mem: "\<exists>b e. runtimeClassExists mem_kube s c = ((b, e), c) \<and> (b \<longrightarrow> e = None)"
  by (auto simp: runtimeClassExists_def getRuntimeClass_def mem_kube_def split: sum.split)

lemma reconcile_install_mem:
  assumes "rs_Type (RolloutStrategy_of (Spec s)) \<noteq> RolloutStrategyTypeRolling" "\<forall>e \<in> set errs. e = None"
    "\<And>rcs. rollout mem_kube env s ns [] (c\<lparr>srv_classes := rcs\<rparr>) = (Ret errs, c\<lparr>srv_classes := rcs, srv_nodes := nds, srv_jobs := js\<rparr>)"
  shows "\<exists>rcs. reconcile_install mem_kube env s ns c = (Ret None, c\<lparr>srv_classes := rcs, srv_nodes := nds, srv_jobs := js\<rparr>)"
proof -
  have join: "errors_Join errs = None" using assms(2) by (simp add: errors_Join_None_iff)
  have rest: "(if ns \<noteq> [] then handleInstallShim mem_kube env s ns (c\<lparr>srv_classes := rcs\<rparr>) else (Ret None, c\<lparr>srv_classes := rcs\<rparr>))
      = (Ret None, c\<lparr>srv_classes := rcs, srv_nodes := nds, srv_jobs := js\<rparr>)" for rcs
    using assms(3) [of rcs] by (cases ns) (simp_all add: handleInstallShim_def recreateStrategyRollout_def assms(1) join del: rollout.simps(2))
  obtain b e where ex: "runtimeClassExists mem_kube s c = ((b, e), c)" "b \<longrightarrow> e = None" using runtimeClassExists_mem by blast
  obtain rcs where deploy: "handleDeployRuntimeClass mem_kube s c = (None, c\<lparr>srv_classes := rcs\<rparr>)" using handleDeployRuntimeClass_mem by blast
  show ?thesis
  proof (cases b)
    case True
    moreover have "c\<lparr>srv_classes := srv_classes c\<rparr> = c" by (cases c) simp
    ultimately show ?thesis using ex rest [of "srv_classes c"]
      by (intro exI [of _ "srv_classes c"]) (simp add: reconcile_install_def split: if_splits)
  next
    case False
    with ex rest [of rcs] deploy show ?thesis by (intro exI [of _ rcs]) (simp add: reconcile_install_def)
  qed
qed

text \<open>
  A run of the shim reconciler for a shim that is not being deleted, when its rollout returns: the shim
  is updated, the runtime class exists, and the nodes and jobs are what the rollout makes of them.
\<close>

lemma Reconcile_mem:
  assumes "find_by shim_Name (nn_Name req) (srv_shims c) = Inr s" "om_DeletionTimestamp (shim_meta s) = None"
    "rs_Type (RolloutStrategy_of (Spec s)) \<noteq> RolloutStrategyTypeRolling" "ns = filter (selects (entries (NodeSelector (Spec s)))) (srv_nodes c)"
    "\<And>s' shs rcs. shim_Name s' = shim_Name s \<Longrightarrow> Spec s' = Spec s
       \<Longrightarrow> rollout mem_kube env s' ns [] (c\<lparr>srv_shims := shs, srv_classes := rcs\<rparr>)
           = (Ret errs, c\<lparr>srv_shims := shs, srv_classes := rcs, srv_nodes := nds, srv_jobs := js\<rparr>)"
    "\<forall>e \<in> set errs. e = None"
  shows "\<exists>s2 shs rcs. Reconcile mem_kube env req c = (Ret None, c\<lparr>srv_shims := shs, srv_classes := rcs, srv_nodes := nds, srv_jobs := js\<rparr>)
    \<and> find_by shim_Name (nn_Name req) shs = Inr s2 \<and> counted s ns s2"
proof -
  have name: "nn_Name req = shim_Name s" using find_by_Inr [OF assms(1)] by simp
  have get: "k_GetShim mem_kube req c = (Inr s, c)" using assms(1) by (simp add: mem_kube_def)
  have list: "getNodeListFromShimsNodeSelector mem_kube s c = (Inr ns, c)"
    by (simp add: getNodeListFromShimsNodeSelector_def mem_kube_def assms(4))
  from updateStatus_mem [of s c ns] assms(1,2) name obtain s1 shs1 where up: "updateStatus mem_kube s ns c = ((None, s1), c\<lparr>srv_shims := shs1\<rparr>)"
    "find_by shim_Name (shim_Name s) shs1 = Inr s1" "counted s ns s1" by auto
  then have s1: "shim_Name s1 = shim_Name s" "Spec s1 = Spec s" "om_DeletionTimestamp (shim_meta s1) = None"
    using assms(2) by (simp_all add: counted_def)
  have "\<exists>rcs. reconcile_install mem_kube env s1 ns (c\<lparr>srv_shims := shs1\<rparr>)
      = (Ret None, c\<lparr>srv_shims := shs1, srv_classes := rcs, srv_nodes := nds, srv_jobs := js\<rparr>)"
    using assms(3,6) assms(5) [OF s1(1,2), where shs = shs1] s1(2) by (intro reconcile_install_mem) simp_all
  then obtain rcs where inst: "reconcile_install mem_kube env s1 ns (c\<lparr>srv_shims := shs1\<rparr>)
      = (Ret None, c\<lparr>srv_shims := shs1, srv_classes := rcs, srv_nodes := nds, srv_jobs := js\<rparr>)" ..
  have body: "reconcile_body mem_kube env s c = ((Ret None, s1), c\<lparr>srv_shims := shs1, srv_classes := rcs, srv_nodes := nds, srv_jobs := js\<rparr>)"
    by (simp add: reconcile_body_def list up(1) s1(3) inst)
  from ensure_mem [of s1 "c\<lparr>srv_shims := shs1, srv_classes := rcs, srv_nodes := nds, srv_jobs := js\<rparr>" s ns RCMOperatorFinalizer] up(2,3) s1
  obtain shs s2 where fin: "snd (ensureFinalizerForShim mem_kube s1 RCMOperatorFinalizer (c\<lparr>srv_shims := shs1, srv_classes := rcs, srv_nodes := nds, srv_jobs := js\<rparr>))
      = c\<lparr>srv_shims := shs1, srv_classes := rcs, srv_nodes := nds, srv_jobs := js, srv_shims := shs\<rparr>"
    "find_by shim_Name (shim_Name s) shs = Inr s2" "counted s ns s2" by auto
  have "Reconcile mem_kube env req c = (Ret None, c\<lparr>srv_shims := shs, srv_classes := rcs, srv_nodes := nds, srv_jobs := js\<rparr>)"
    by (simp add: Reconcile_def get body fin(1))
  with fin(2,3) name show ?thesis by auto
qed


lemma Reconcile_done:
  assumes "find_by shim_Name (nn_Name req) (srv_shims c) = Inr s" "om_DeletionTimestamp (shim_meta s) = None"
    "rs_Type (RolloutStrategy_of (Spec s)) \<noteq> RolloutStrategyTypeRolling" "ns = filter (selects (entries (NodeSelector (Spec s)))) (srv_nodes c)"
    "\<forall>nd \<in> set ns. \<not> needs_install s nd"
  shows "\<exists>s2 shs rcs. Reconcile mem_kube env req c = (Ret None, c\<lparr>srv_shims := shs, srv_classes := rcs\<rparr>)
    \<and> find_by shim_Name (nn_Name req) shs = Inr s2 \<and> counted s ns s2"
proof -
  have same: "c\<lparr>srv_shims := shs, srv_classes := rcs, srv_nodes := srv_nodes c, srv_jobs := srv_jobs c\<rparr> = c\<lparr>srv_shims := shs, srv_classes := rcs\<rparr>"
    for shs rcs by (cases c) simp
  have "rollout mem_kube env s' ns [] (c\<lparr>srv_shims := shs, srv_classes := rcs\<rparr>)
      = (Ret [], c\<lparr>srv_shims := shs, srv_classes := rcs, srv_nodes := srv_nodes c, srv_jobs := srv_jobs c\<rparr>)"
    if "shim_Name s' = shim_Name s" "Spec s' = Spec s" for s' shs rcs
    using rollout_done [of ns s'] assms(5) same_spec(1) [OF that] unfolding same by simp
  from Reconcile_mem [OF assms(1-4), where env = env, OF this] show ?thesis unfolding same by simp
qed

section \<open>A round for a shim\<close>

definition installable :: "Shim \<Rightarrow> server \<Rightarrow> Node \<Rightarrow> bool" where
  "installable shim c nd \<longleftrightarrow> needs_install shim nd \<and> sendable shim INSTALL c nd"

text \<open>The first run, for nodes that need the shim.\<close>

lemma first_run:
  assumes s: "find_by shim_Name (nn_Name req) (srv_shims c) = Inr s" "om_DeletionTimestamp (shim_meta s) = None"
      "rs_Type (RolloutStrategy_of (Spec s)) \<noteq> RolloutStrategyTypeRolling"
    and ns: "ns = filter (selects (entries (NodeSelector (Spec s)))) (srv_nodes c)"
    and sweep: "sweepable s INSTALL c ns" "\<forall>nd \<in> set ns. needs_install s nd"
  shows "\<exists>s1 shs rcs. Reconcile mem_kube env req c = (Ret None, sent env s INSTALL ns (c\<lparr>srv_shims := shs, srv_classes := rcs\<rparr>))
    \<and> find_by shim_Name (nn_Name req) shs = Inr s1 \<and> counted s ns s1"
proof -
  let ?nds = "srv_nodes (sent env s INSTALL ns c)" and ?js = "srv_jobs (sent env s INSTALL ns c)"
  have sent: "sent env s INSTALL ns (c\<lparr>srv_shims := shs, srv_classes := rcs\<rparr>)
      = c\<lparr>srv_shims := shs, srv_classes := rcs, srv_nodes := ?nds, srv_jobs := ?js\<rparr>" for shs rcs by (simp add: sent_def)
  have "rollout mem_kube env s' ns [] (c\<lparr>srv_shims := shs, srv_classes := rcs\<rparr>)
      = (Ret (map (\<lambda>_. None) ns), c\<lparr>srv_shims := shs, srv_classes := rcs, srv_nodes := ?nds, srv_jobs := ?js\<rparr>)"
    if same: "shim_Name s' = shim_Name s" "Spec s' = Spec s" for s' shs rcs
    using rollout_mem [of s' "c\<lparr>srv_shims := shs, srv_classes := rcs\<rparr>" ns env "[]"] sweep
    unfolding same_spec [OF same] sweepable_only sent by simp
  from Reconcile_mem [OF s ns, where env = env, OF this] show ?thesis unfolding sent by simp
qed

lemma install_round_mem:
  assumes s: "find_by shim_Name (nn_Name req) (srv_shims c) = Inr s" "om_DeletionTimestamp (shim_meta s) = None"
      "rs_Type (RolloutStrategy_of (Spec s)) \<noteq> RolloutStrategyTypeRolling"
    and sel: "sel = entries (NodeSelector (Spec s))" "shim_Name s \<notin> fst ` set sel"
    and nodes: "distinct (map node_Name (srv_nodes c))" "ns = filter (selects sel) (srv_nodes c)" "\<forall>nd \<in> set ns. installable s c nd"
    and names: "names = map (\<lambda>nd. job_name nd s INSTALL) ns" "distinct names"
    and g: "g = served_node INSTALL (shim_Name s)"
  shows "\<exists>s' shs rcs. job_round env req names c
      = c\<lparr>srv_shims := shs, srv_classes := rcs, srv_nodes := change node_Name (node_Name ` set ns) g (srv_nodes c),
          srv_jobs := done_jobs names (rev (map (sent_job env s INSTALL) ns) @ srv_jobs c)\<rparr>
    \<and> find_by shim_Name (nn_Name req) shs = Inr s' \<and> counted s (map g ns) s' \<and> filter (selects sel) (change node_Name (node_Name ` set ns) g (srv_nodes c)) = map g ns"
proof -
  let ?nds = "change node_Name (node_Name ` set ns) g (srv_nodes c)" and ?js = "done_jobs names (rev (map (sent_job env s INSTALL) ns) @ srv_jobs c)"
  have sub: "ns = filter (selects (entries (NodeSelector (Spec s)))) (srv_nodes c)" by (simp only: nodes(2) sel(1))
  have labels: "\<forall>nd \<in> set ns. om_Labels (node_meta nd) \<noteq> None" and needs: "\<forall>nd \<in> set ns. needs_install s nd"
    using nodes(3) by (simp_all add: installable_def sendable_def sends_def)
  have sweep: "sweepable s INSTALL c ns"
    using nodes names distinct_map_filter [OF nodes(1)] by (simp add: sweepable_def installable_def)
  from first_run [OF s sub sweep needs, of env] obtain s1 shs1 rcs1 where
    r1: "Reconcile mem_kube env req c = (Ret None, sent env s INSTALL ns (c\<lparr>srv_shims := shs1, srv_classes := rcs1\<rparr>))"
    and s1: "find_by shim_Name (nn_Name req) shs1 = Inr s1" "counted s ns s1" by (elim exE conjE)
  let ?c3 = "c\<lparr>srv_shims := shs1, srv_classes := rcs1, srv_nodes := ?nds, srv_jobs := ?js\<rparr>"
  have r3: "fold (\<lambda>n c. snd (job_Reconcile mem_kube \<lparr>nn_Name = n, nn_Namespace = nn_Namespace req\<rparr> c)) names
      (fold (\<lambda>n. set_conditions n [done_condition]) names (sent env s INSTALL ns (c\<lparr>srv_shims := shs1, srv_classes := rcs1\<rparr>))) = ?c3"
    by (subst sent_reported) (use sweep names(1) in \<open>simp_all add: sweepable_only g\<close>)
  have selected: "filter (selects sel) ?nds = map g ns"
    using change_filter [OF nodes(1), of "selects sel" g] selects_served [OF sel(2)] labels unfolding nodes(2) g by simp
  have "\<forall>nd \<in> set (map g ns). \<not> needs_install s1 nd"
    using labels s1(2) by (simp add: needs_install_def label_of_def served_node_get g counted_def op_verdict_def ProvisioningStatusProvisioned_def del: not_None_eq)
  moreover have "find_by shim_Name (nn_Name req) (srv_shims ?c3) = Inr s1" using s1(1) by simp
  moreover have "om_DeletionTimestamp (shim_meta s1) = None" "rs_Type (RolloutStrategy_of (Spec s1)) \<noteq> RolloutStrategyTypeRolling"
    "map g ns = filter (selects (entries (NodeSelector (Spec s1)))) (srv_nodes ?c3)"
    using s1(2) s(2,3) selected by (simp_all add: counted_def sel(1))
  ultimately obtain s2 shs2 rcs2 where r4: "Reconcile mem_kube env req ?c3 = (Ret None, ?c3\<lparr>srv_shims := shs2, srv_classes := rcs2\<rparr>)"
    "find_by shim_Name (nn_Name req) shs2 = Inr s2" "counted s1 (map g ns) s2"
    using Reconcile_done [of req ?c3 s1 "map g ns" env] by blast
  have "job_round env req names c = ?c3\<lparr>srv_shims := shs2, srv_classes := rcs2\<rparr>"
    unfolding job_round_def Let_def r1 snd_conv r3 r4(1) by (rule refl)
  then show ?thesis using r4(2) counted_trans [OF s1(2) r4(3)] selected
    by (intro exI [of _ s2] exI [of _ shs2] exI [of _ rcs2] conjI) simp_all
qed

text \<open>The jobs of the round have completed.\<close>

lemma round_jobs:
  assumes "distinct (map (\<lambda>nd. job_name nd s op) ns)" "op = INSTALL \<or> op = UNINSTALL"
  shows "\<forall>nd \<in> set ns. \<exists>j \<in> set (done_jobs (map (\<lambda>nd. job_name nd s op) ns) (rev (map (sent_job env s op) ns) @ js)).
    job_for j (shim_Name s) (node_Name nd) op \<and> verdict j = Some (op_verdict op)"
proof
  fix nd assume "nd \<in> set ns"
  let ?j = "(sent_job env s op nd)\<lparr>job_Conditions := [done_condition]\<rparr>"
  from find_by_Inr [OF done_job_found [OF assms(1) \<open>nd \<in> set ns\<close> refl]]
  have "?j \<in> set (done_jobs (map (\<lambda>nd. job_name nd s op) ns) (rev (map (sent_job env s op) ns) @ js))" by blast
  moreover have "job_for ?j (shim_Name s) (node_Name nd) op" by (simp add: job_for_def sent_job_simps)
  ultimately show "\<exists>j \<in> set (done_jobs (map (\<lambda>nd. job_name nd s op) ns) (rev (map (sent_job env s op) ns) @ js)).
    job_for j (shim_Name s) (node_Name nd) op \<and> verdict j = Some (op_verdict op)"
    using done_verdict [OF assms(2)] by blast
qed

section \<open>Convergence\<close>

text \<open>
  C14. A shim that is not being deleted reaches its nodes: when every node it selects has labels, needs the shim and
  has an artifact, no job for it exists or is refused, and the truncated job names differ, then after
  one undisturbed round (a run of the shim reconciler, the completion of exactly its install jobs, a run of the job reconciler for each
  of them, and a run of the shim reconciler) every selected node carries the label \<open>provisioned\<close> and has a completed install job, the
  other nodes are as before, the status of the shim counts all selected nodes as ready, and a further run of the shim
  reconciler succeeds and changes no node and no job. The first run succeeds, too. (A round is an execution of the cluster:
  \<open>rounds_steps\<close>.)
\<close>

theorem install_converges:
  assumes "find_by shim_Name (nn_Name req) (srv_shims c) = Inr s" "om_DeletionTimestamp (shim_meta s) = None"
    "rs_Type (RolloutStrategy_of (Spec s)) \<noteq> RolloutStrategyTypeRolling"
    "sel = entries (NodeSelector (Spec s))" "shim_Name s \<notin> fst ` set sel"
    "distinct (map node_Name (srv_nodes c))" "ns = filter (selects sel) (srv_nodes c)"
    "\<forall>nd \<in> set ns. installable s c nd" "distinct (map (\<lambda>nd. job_name nd s INSTALL) ns)"
    "c' = job_round env req (map (\<lambda>nd. job_name nd s INSTALL) ns) c"
  shows "fst (Reconcile mem_kube env req c) = Ret None
    \<and> (\<forall>nd \<in> set (srv_nodes c'). selects sel nd \<longrightarrow> label_of nd (shim_Name s) = ''provisioned'')
    \<and> map node_Name (srv_nodes c') = map node_Name (srv_nodes c)
    \<and> (\<forall>nd \<in> set (srv_nodes c). \<not> selects sel nd \<longrightarrow> nd \<in> set (srv_nodes c'))
    \<and> (\<forall>nd \<in> set ns. \<exists>j \<in> set (srv_jobs c'). job_for j (shim_Name s) (node_Name nd) INSTALL \<and> verdict j = Some (Some ''provisioned''))
    \<and> (\<exists>s' c2. find_by shim_Name (nn_Name req) (srv_shims c') = Inr s'
      \<and> NodeCount (Status s') = int (length ns) \<and> NodeReadyCount (Status s') = int (length ns)
      \<and> Reconcile mem_kube env req c' = (Ret None, c2) \<and> srv_nodes c2 = srv_nodes c' \<and> srv_jobs c2 = srv_jobs c')"
proof -
  let ?names = "map (\<lambda>nd. job_name nd s INSTALL) ns" and ?N = "node_Name ` set ns"
  let ?g = "served_node INSTALL (shim_Name s)"
  let ?nds = "change node_Name ?N ?g (srv_nodes c)"
  from install_round_mem [OF assms(1-8) refl assms(9) refl, of env] obtain s' shs rcs where
    c': "c' = c\<lparr>srv_shims := shs, srv_classes := rcs, srv_nodes := ?nds, srv_jobs := done_jobs ?names (rev (map (sent_job env s INSTALL) ns) @ srv_jobs c)\<rparr>"
    and s': "find_by shim_Name (nn_Name req) shs = Inr s'" "counted s (map ?g ns) s'"
    and selected: "filter (selects sel) ?nds = map ?g ns" unfolding assms(10) by (elim exE conjE)
  from assms(8) distinct_map_filter [OF assms(6)] assms(6,7,9) have sweep: "sweepable s INSTALL c ns" "\<forall>nd \<in> set ns. needs_install s nd"
    by (simp_all add: sweepable_def installable_def)
  have first: "fst (Reconcile mem_kube env req c) = Ret None"
    using first_run [OF assms(1-3) _ sweep, of env] assms(4,7) by auto
  have get: "map_get (om_Labels (node_meta (?g nd))) (shim_Name s) = Some ''provisioned''" if "nd \<in> set ns" for nd
    using assms(8) that by (simp add: installable_def sendable_def sends_def served_node_get op_verdict_def del: not_None_eq)
  have all: "label_of nd (shim_Name s) = ''provisioned''" if "nd \<in> set (map ?g ns)" for nd
    using that get by (auto simp: label_of_def)
  have ready: "ready_count s (map ?g ns) = length ns"
    using all by (simp add: ready_count_def ProvisioningStatusProvisioned_def)
  have "\<forall>nd \<in> set (map ?g ns). \<not> needs_install s' nd"
    using all s'(2) by (simp add: needs_install_def counted_def ProvisioningStatusProvisioned_def)
  moreover have "map ?g ns = filter (selects (entries (NodeSelector (Spec s')))) (srv_nodes c')"
    using selected s'(2) by (simp add: c' counted_def assms(4))
  moreover have found: "find_by shim_Name (nn_Name req) (srv_shims c') = Inr s'" using s'(1) by (simp add: c')
  moreover have "om_DeletionTimestamp (shim_meta s') = None" "rs_Type (RolloutStrategy_of (Spec s')) \<noteq> RolloutStrategyTypeRolling"
    using s'(2) assms(2,3) by (simp_all add: counted_def)
  ultimately obtain shs2 rcs2 where again: "Reconcile mem_kube env req c' = (Ret None, c'\<lparr>srv_shims := shs2, srv_classes := rcs2\<rparr>)"
    using Reconcile_done [of req c' s' "map ?g ns" env] by blast
  have others: "nd \<in> set ?nds" if "nd \<in> set (srv_nodes c)" "\<not> selects sel nd" for nd
  proof -
    have "node_Name nd \<notin> ?N" using that assms(6,7) by (auto simp: distinct_map dest: inj_onD)
    then show ?thesis using that(1) by (force simp: change_def)
  qed
  have jobs: "\<forall>nd \<in> set ns. \<exists>j \<in> set (srv_jobs c'). job_for j (shim_Name s) (node_Name nd) INSTALL \<and> verdict j = Some (op_verdict INSTALL)"
    using round_jobs [OF assms(9)] by (simp add: c')
  have count: "NodeCount (Status s') = int (length ns)" "NodeReadyCount (Status s') = int (length ns)"
    using s'(2) ready by (simp_all add: counted_def)
  have nodes: "\<forall>nd \<in> set (srv_nodes c'). selects sel nd \<longrightarrow> label_of nd (shim_Name s) = ''provisioned''"
    using all unfolding selected [symmetric] by (simp add: c')
  have same: "map node_Name (srv_nodes c') = map node_Name (srv_nodes c)" "\<forall>nd \<in> set (srv_nodes c). \<not> selects sel nd \<longrightarrow> nd \<in> set (srv_nodes c')"
    using others by (simp_all add: c' change_names)
  show ?thesis
    using first nodes same jobs found count again by (simp add: op_verdict_def)
qed

theorem install_converges_witness:
  "let c' = job_round no_env \<lparr>nn_Name = ''spin'', nn_Namespace = []\<rparr> [''n1-spin-install'', ''n2-spin-install''] (api world0) in
     (\<forall>nd \<in> set (srv_nodes c'). label_of nd ''spin'' = ''provisioned'') \<and> map node_Name (srv_nodes c') = [''n1'', ''n2'']
     \<and> (\<exists>s'. find_by shim_Name ''spin'' (srv_shims c') = Inr s' \<and> NodeReadyCount (Status s') = 2)"
proof -
  let ?s = "demo_Shim ''spin''" and ?req = "\<lparr>nn_Name = ''spin'', nn_Namespace = []\<rparr>" and ?nds = "srv_nodes (api world0)"
  have ns: "filter (selects []) ?nds = ?nds" by (simp add: selects_def)
  have names: "map (\<lambda>nd. job_name nd ?s INSTALL) ?nds = [''n1-spin-install'', ''n2-spin-install'']" by code_simp
  let ?c' = "job_round no_env ?req (map (\<lambda>nd. job_name nd ?s INSTALL) ?nds) (api world0)"
  have e: "fst (Reconcile mem_kube no_env ?req (api world0)) = Ret None
    \<and> (\<forall>nd \<in> set (srv_nodes ?c'). selects [] nd \<longrightarrow> label_of nd (shim_Name ?s) = ''provisioned'')
    \<and> map node_Name (srv_nodes ?c') = map node_Name ?nds
    \<and> (\<forall>nd \<in> set ?nds. \<not> selects [] nd \<longrightarrow> nd \<in> set (srv_nodes ?c'))
    \<and> (\<forall>nd \<in> set ?nds. \<exists>j \<in> set (srv_jobs ?c'). job_for j (shim_Name ?s) (node_Name nd) INSTALL \<and> verdict j = Some (Some ''provisioned''))
    \<and> (\<exists>s' c2. find_by shim_Name (nn_Name ?req) (srv_shims ?c') = Inr s'
      \<and> NodeCount (Status s') = int (length ?nds) \<and> NodeReadyCount (Status s') = int (length ?nds)
      \<and> Reconcile mem_kube no_env ?req ?c' = (Ret None, c2) \<and> srv_nodes c2 = srv_nodes ?c' \<and> srv_jobs c2 = srv_jobs ?c')"
  proof (rule install_converges)
    show "\<forall>nd \<in> set ?nds. installable ?s (api world0) nd"
      by (simp add: world0_def demo_Node_def demo_Shim_def installable_def sendable_def sends_def needs_install_def label_of_def map_get_def
        resolveArtifactForNode_def status_defs new_meta_def)
    show "distinct (map (\<lambda>nd. job_name nd ?s INSTALL) ?nds)" unfolding names by simp
  qed (simp_all add: world0_def demo_Node_def demo_Shim_def find_by_def ns selects_def RolloutStrategyTypeRolling_def new_meta_def)
  have "map node_Name ?nds = [''n1'', ''n2'']" "shim_Name ?s = ''spin''" "length ?nds = 2"
    by (simp_all add: world0_def demo_Node_def demo_Shim_def new_meta_def)
  with e [unfolded names] show ?thesis by (auto simp: Let_def selects_def)
qed

end
