(* ===== verification/Removal.thy ===== *)
theory Removal
  imports Convergence
begin

text \<open>
  Progress of a deletion: what undisturbed runs achieve for a shim that is being deleted. The shim reconciler
  sends the uninstall jobs and removes the finalizer, so that the shim is gone before the jobs have
  completed; they complete, and the job reconciler takes the label from the nodes.
\<close>

section \<open>The run that deletes\<close>

lemma filter_put_other: "shim_Name s' = n \<Longrightarrow> filter (\<lambda>x. shim_Name x \<noteq> n) (put_by shim_Name s' xs) = filter (\<lambda>x. shim_Name x \<noteq> n) xs"
  by (induction xs) (auto simp: put_by_def)

lemma find_by_filtered: "find_by f n (filter (\<lambda>x. f x \<noteq> n) xs) = Inl ApiNotFound"
  by (rule find_by_fresh) auto

text \<open>The last finalizer is removed: the server forgets the shim, and the deferred call cannot add it again.\<close>

lemma remove_finalizer_mem:
  assumes "find_by shim_Name (shim_Name s) (srv_shims c) = Inr s" "om_DeletionTimestamp (shim_meta s) \<noteq> None"
    "set (om_Finalizers (shim_meta s)) = {RCMOperatorFinalizer}"
  shows "\<exists>s2. removeFinalizerFromShim mem_kube s c = ((None, s2), c\<lparr>srv_shims := filter (\<lambda>x. shim_Name x \<noteq> shim_Name s) (srv_shims c)\<rparr>)
    \<and> shim_Name s2 = shim_Name s"
proof -
  let ?s1 = "k_RemoveFinalizer mem_kube s RCMOperatorFinalizer"
  let ?s2 = "?s1\<lparr>shim_meta := bump (shim_meta ?s1)\<rparr>"
  have s1: "?s1 = finalizers (removeAll RCMOperatorFinalizer) s" by (simp add: mem_kube_def)
  have none: "removeAll RCMOperatorFinalizer (om_Finalizers (shim_meta s)) = []"
    using assms(3) by (metis Diff_cancel set_empty set_removeAll)
  have "k_UpdateShim mem_kube ?s1 c = (Inr ?s2, c\<lparr>srv_shims := filter (\<lambda>x. shim_Name x \<noteq> shim_Name s) (srv_shims c)\<rparr>)"
    using assms(1,2) none unfolding s1 by (simp add: mem_kube_def mem_UpdateShim_def finalizers_def bump_def Let_def)
  then have "removeFinalizerFromShim mem_kube s c = ((None, ?s2), c\<lparr>srv_shims := filter (\<lambda>x. shim_Name x \<noteq> shim_Name s) (srv_shims c)\<rparr>)"
    using assms(3) by (simp add: removeFinalizerFromShim_def mem_kube.ContainsFinalizer_iff Let_def)
  moreover have "shim_Name ?s2 = shim_Name s" unfolding s1 by (simp add: finalizers_def bump_def)
  ultimately show ?thesis by blast
qed

lemma ensure_gone:
  assumes "find_by shim_Name (shim_Name s) (srv_shims c) = Inl ApiNotFound"
  shows "snd (ensureFinalizerForShim mem_kube s f c) = c"
proof -
  have "shim_Name (k_AddFinalizer mem_kube s f) = shim_Name s" by (simp add: mem_kube_def finalizers_def)
  then have "snd (k_UpdateShim mem_kube (k_AddFinalizer mem_kube s f) c) = c"
    using assms by (simp add: mem_UpdateShim_def mem_kube_def)
  then show ?thesis by (auto simp: ensureFinalizerForShim_def Let_def split: prod.split sum.split)
qed

lemma Reconcile_deletes:
  assumes s: "find_by shim_Name (nn_Name req) (srv_shims c) = Inr s" "om_DeletionTimestamp (shim_meta s) \<noteq> None"
      "set (om_Finalizers (shim_meta s)) = {RCMOperatorFinalizer}"
    and xs: "xs = filter (\<lambda>nd. selects (entries (NodeSelector (Spec s))) nd \<and> has_label nd (shim_Name s)) (srv_nodes c)"
    and sweep: "sweepable s UNINSTALL c xs"
  shows "Reconcile mem_kube env req c
    = (Ret None, (sent env s UNINSTALL xs c)\<lparr>srv_shims := filter (\<lambda>x. shim_Name x \<noteq> shim_Name s) (srv_shims c)\<rparr>)"
proof -
  let ?ns = "filter (selects (entries (NodeSelector (Spec s)))) (srv_nodes c)"
  have name: "nn_Name req = shim_Name s" using find_by_Inr [OF s(1)] by simp
  have fins: "om_Finalizers (shim_meta s) \<noteq> []" by (metis s(3) empty_set insert_not_empty)
  have get: "k_GetShim mem_kube req c = (Inr s, c)" using s(1) by (simp add: mem_kube_def)
  have list: "getNodeListFromShimsNodeSelector mem_kube s c = (Inr ?ns, c)"
    by (simp add: getNodeListFromShimsNodeSelector_def mem_kube_def)
  from updateStatus_mem [OF s(1) [unfolded name] disjI2 [OF fins], of ?ns] obtain s1 where up:
    "updateStatus mem_kube s ?ns c = ((None, s1), c\<lparr>srv_shims := put_by shim_Name s1 (srv_shims c)\<rparr>)"
    "find_by shim_Name (shim_Name s) (put_by shim_Name s1 (srv_shims c)) = Inr s1" "counted s ?ns s1"
    "om_Finalizers (shim_meta s1) = om_Finalizers (shim_meta s)" by (elim exE conjE)
  have s1: "shim_Name s1 = shim_Name s" "Spec s1 = Spec s" "om_DeletionTimestamp (shim_meta s1) \<noteq> None"
    using up(3) s(2) by (simp_all add: counted_def)
  let ?c1 = "c\<lparr>srv_shims := put_by shim_Name s1 (srv_shims c)\<rparr>"
  let ?c2 = "sent env s UNINSTALL xs ?c1"
  let ?c3 = "(sent env s UNINSTALL xs c)\<lparr>srv_shims := filter (\<lambda>x. shim_Name x \<noteq> shim_Name s) (srv_shims c)\<rparr>"
  have "filter (\<lambda>nd. has_label nd (shim_Name s1)) ?ns = xs" by (simp add: xs s1(1) conj_commute)
  then have del: "handleDeleteShim mem_kube env s1 ?ns ?c1 = (Ret None, ?c2)"
    using handleDeleteShim_mem [of s1 ?c1 xs env] sweep handleDeleteShim_filter [of mem_kube env s1 ?ns ?c1]
    by (simp add: same_spec [OF s1(1,2)] sweepable_only xs s1(1))
  have c3: "?c2\<lparr>srv_shims := filter (\<lambda>x. shim_Name x \<noteq> shim_Name s1) (srv_shims ?c2)\<rparr> = ?c3"
    by (simp add: sent_def s1(1) filter_put_other)
  from remove_finalizer_mem [of s1 ?c2] up(2,4) s1 s(3) obtain s2 where
    rm: "removeFinalizerFromShim mem_kube s1 ?c2 = ((None, s2), ?c3)" "shim_Name s2 = shim_Name s"
    unfolding c3 by (auto simp: sent_def)
  have body: "reconcile_body mem_kube env s c = ((Ret None, s2), ?c3)"
    using s1(3) by (simp add: reconcile_body_def list up(1) reconcile_delete_def del rm(1) mem_kube.IgnoreNotFound_None)
  have "snd (ensureFinalizerForShim mem_kube s2 RCMOperatorFinalizer ?c3) = ?c3"
    by (rule ensure_gone) (simp add: rm(2) find_by_filtered)
  then show ?thesis by (simp add: Reconcile_def get body)
qed

lemma Reconcile_gone: "find_by shim_Name (nn_Name req) (srv_shims c) = Inl ApiNotFound \<Longrightarrow> Reconcile mem_kube env req c = (Ret None, c)"
  using mem_kube.IgnoreNotFound_Some [of ApiNotFound] mem_kube.IsNotFound_NotFound by (simp add: Reconcile_def mem_kube_def)

section \<open>A round for a shim that is deleted\<close>

lemma delete_round_mem:
  assumes s: "find_by shim_Name (nn_Name req) (srv_shims c) = Inr s" "om_DeletionTimestamp (shim_meta s) \<noteq> None"
      "set (om_Finalizers (shim_meta s)) = {RCMOperatorFinalizer}"
    and ns: "ns = filter (\<lambda>nd. selects (entries (NodeSelector (Spec s))) nd \<and> has_label nd (shim_Name s)) (srv_nodes c)"
    and sweep: "sweepable s UNINSTALL c ns" and names: "names = map (\<lambda>nd. job_name nd s UNINSTALL) ns"
  shows "job_round env req names c = c\<lparr>srv_shims := filter (\<lambda>x. shim_Name x \<noteq> shim_Name s) (srv_shims c),
      srv_nodes := change node_Name (node_Name ` set ns) (served_node UNINSTALL (shim_Name s)) (srv_nodes c),
      srv_jobs := done_jobs names (rev (map (sent_job env s UNINSTALL) ns) @ srv_jobs c)\<rparr>" (is "_ = ?c3")
proof -
  let ?shs = "filter (\<lambda>x. shim_Name x \<noteq> shim_Name s) (srv_shims c)"
  have name: "nn_Name req = shim_Name s" using find_by_Inr [OF s(1)] by simp
  have first: "snd (Reconcile mem_kube env req c) = sent env s UNINSTALL ns (c\<lparr>srv_shims := ?shs\<rparr>)"
    unfolding Reconcile_deletes [OF s ns sweep] by (simp add: sent_def)
  have jobs: "fold (\<lambda>n c. snd (job_Reconcile mem_kube \<lparr>nn_Name = n, nn_Namespace = nn_Namespace req\<rparr> c)) names
      (fold (\<lambda>n. set_conditions n [done_condition]) names (sent env s UNINSTALL ns (c\<lparr>srv_shims := ?shs\<rparr>))) = ?c3"
    by (subst sent_reported) (use sweep names in \<open>simp_all add: sweepable_only\<close>)
  have "Reconcile mem_kube env req ?c3 = (Ret None, ?c3)"
    by (rule Reconcile_gone) (simp add: name find_by_filtered)
  then show ?thesis by (simp add: job_round_def Let_def first jobs)
qed

lemma has_label_labels: "has_label nd k \<Longrightarrow> om_Labels (node_meta nd) \<noteq> None"
  by (cases "om_Labels (node_meta nd)") (simp_all add: has_label_def)

lemma removed_labels:
  assumes "distinct (map node_Name nds)" "ns = filter (\<lambda>nd. selects sel nd \<and> has_label nd name) nds" "nd \<in> set nds"
    "nd' = (if node_Name nd \<in> node_Name ` set ns then served_node UNINSTALL name nd else nd)"
  shows "node_Name nd' = node_Name nd
    \<and> map_get (om_Labels (node_meta nd')) k = (if selects sel nd \<and> k = name then None else map_get (om_Labels (node_meta nd)) k)"
proof -
  have "node_Name nd \<in> node_Name ` set ns \<longleftrightarrow> nd \<in> set ns"
    using assms(1-3) by (auto simp: distinct_map dest: inj_onD)
  then show ?thesis using assms(2-4) served_node_get [OF has_label_labels, of nd name UNINSTALL name k]
    by (auto simp: op_verdict_def INSTALL_def UNINSTALL_def has_label_def)
qed

text \<open>
  C15. A shim that is being deleted and has only the operator's finalizer goes away: after one undisturbed round (a run of the
  shim reconciler, the completion of exactly its uninstall jobs, a run of the job reconciler for each of them, and a run of the shim
  reconciler) the shim is gone, an uninstall job has completed on every selected node that had the shim's label, no selected node
  has the label any more, and every other label of every node is as before; both runs of the shim reconciler succeed. There the
  reconcilers have nothing left to do for the shim: a node that is not selected (any more) keeps its label, and no job was sent to
  it. (A round is an execution of the cluster: \<open>rounds_steps\<close>.)
\<close>

theorem delete_converges:
  assumes "find_by shim_Name (nn_Name req) (srv_shims c) = Inr s" "om_DeletionTimestamp (shim_meta s) \<noteq> None"
    "set (om_Finalizers (shim_meta s)) = {RCMOperatorFinalizer}" "sel = entries (NodeSelector (Spec s))"
    "distinct (map node_Name (srv_nodes c))" "ns = filter (\<lambda>nd. selects sel nd \<and> has_label nd (shim_Name s)) (srv_nodes c)"
    "\<forall>nd \<in> set ns. job_name nd s UNINSTALL \<notin> job_Name ` set (srv_jobs c) \<and> job_name nd s UNINSTALL \<notin> set (srv_refused c)"
    "distinct (map (\<lambda>nd. job_name nd s UNINSTALL) ns)"
    "c' = job_round env req (map (\<lambda>nd. job_name nd s UNINSTALL) ns) c"
  shows "fst (Reconcile mem_kube env req c) = Ret None
    \<and> srv_shims c' = filter (\<lambda>x. shim_Name x \<noteq> shim_Name s) (srv_shims c)
    \<and> list_all2 (\<lambda>nd nd'. node_Name nd' = node_Name nd \<and> (\<forall>k. map_get (om_Labels (node_meta nd')) k
          = (if selects sel nd \<and> k = shim_Name s then None else map_get (om_Labels (node_meta nd)) k))) (srv_nodes c) (srv_nodes c')
    \<and> (\<forall>nd \<in> set ns. \<exists>j \<in> set (srv_jobs c'). job_for j (shim_Name s) (node_Name nd) UNINSTALL \<and> verdict j = Some None)
    \<and> (\<forall>j \<in> set (srv_jobs c'). job_Name j \<in> job_Name ` set (srv_jobs c) \<or> pod_NodeName (job_Pod j) \<in> node_Name ` set ns)
    \<and> Reconcile mem_kube env req c' = (Ret None, c')"
proof -
  let ?names = "map (\<lambda>nd. job_name nd s UNINSTALL) ns"
  have name: "nn_Name req = shim_Name s" using find_by_Inr [OF assms(1)] by simp
  have "om_Labels (node_meta nd) \<noteq> None" if "nd \<in> set ns" for nd using that assms(6) has_label_labels [of nd "shim_Name s"] by simp
  then have sweep: "sweepable s UNINSTALL c ns"
    using assms(5-8) distinct_map_filter [OF assms(5)] by (simp add: sweepable_def sendable_def sends_def)
  note ns = assms(6) [unfolded assms(4)]
  note round = assms(9) [unfolded delete_round_mem [OF assms(1-3) ns sweep refl]]
  have first: "fst (Reconcile mem_kube env req c) = Ret None" unfolding Reconcile_deletes [OF assms(1-3) ns sweep] by simp
  have finished: "\<forall>nd \<in> set ns. \<exists>j \<in> set (srv_jobs c'). job_for j (shim_Name s) (node_Name nd) UNINSTALL \<and> verdict j = Some None"
    using round_jobs [OF assms(8)] by (simp add: round op_verdict_def INSTALL_def UNINSTALL_def)
  have only: "\<forall>j \<in> set (srv_jobs c'). job_Name j \<in> job_Name ` set (srv_jobs c) \<or> pod_NodeName (job_Pod j) \<in> node_Name ` set ns"
    by (auto simp: round done_jobs_def sent_job_simps) (metis image_eqI)
  have labels: "list_all2 (\<lambda>nd nd'. node_Name nd' = node_Name nd \<and> (\<forall>k. map_get (om_Labels (node_meta nd')) k
          = (if selects sel nd \<and> k = shim_Name s then None else map_get (om_Labels (node_meta nd)) k))) (srv_nodes c) (srv_nodes c')"
    using removed_labels [OF assms(5,6)] by (simp add: round change_def list_all2_map2 list_all2_same)
  have "Reconcile mem_kube env req c' = (Ret None, c')"
    by (rule Reconcile_gone) (simp add: round name find_by_filtered)
  with first labels finished only show ?thesis by (simp add: round)
qed

definition leaving_Shim :: Shim where
  "leaving_Shim = (demo_Shim ''spin'')\<lparr>shim_meta := (shim_meta (demo_Shim ''spin''))\<lparr>om_DeletionTimestamp := Some 1\<rparr>,
     Spec := (Spec (demo_Shim ''spin''))\<lparr>NodeSelector := Some [(''pool'', ''wasm'')]\<rparr>\<rparr>"

definition leaving_world :: world where
  "leaving_world = world0\<lparr>api := (api world0)\<lparr>srv_shims := [leaving_Shim, demo_Shim ''other''],
     srv_nodes := [demo_Node ''n1'' [(''pool'', ''wasm''), (''spin'', ''provisioned'')], demo_Node ''n2'' [(''pool'', ''wasm'')],
       demo_Node ''n3'' [(''spin'', ''provisioned'')]]\<rparr>\<rparr>"

lemma leaving_simps:
  "srv_shims (api leaving_world) = [leaving_Shim, demo_Shim ''other'']" "srv_jobs (api leaving_world) = []" "srv_refused (api leaving_world) = []"
  "srv_nodes (api leaving_world) = [demo_Node ''n1'' [(''pool'', ''wasm''), (''spin'', ''provisioned'')], demo_Node ''n2'' [(''pool'', ''wasm'')],
       demo_Node ''n3'' [(''spin'', ''provisioned'')]]"
  "shim_Name leaving_Shim = ''spin''" "entries (NodeSelector (Spec leaving_Shim)) = [(''pool'', ''wasm'')]"
  by (simp_all add: leaving_world_def world0_def leaving_Shim_def demo_Shim_def new_meta_def)

theorem delete_converges_witness:
  "let c' = job_round no_env \<lparr>nn_Name = ''spin'', nn_Namespace = []\<rparr> [''n1-spin-uninstall''] (api leaving_world) in
     map shim_Name (srv_shims c') = [''other'']
     \<and> map (\<lambda>nd. map_get (om_Labels (node_meta nd)) ''spin'') (srv_nodes c') = [None, None, Some ''provisioned'']"
proof -
  let ?n1 = "demo_Node ''n1'' [(''pool'', ''wasm''), (''spin'', ''provisioned'')]" and ?sel = "[(''pool'', ''wasm'')]"
  have sel: "map (selects ?sel) (srv_nodes (api leaving_world)) = [True, True, False]" by code_simp
  have name: "job_name ?n1 leaving_Shim UNINSTALL = ''n1-spin-uninstall''" by code_simp
  have ns: "[?n1] = filter (\<lambda>nd. selects ?sel nd \<and> has_label nd (shim_Name leaving_Shim)) (srv_nodes (api leaving_world))"
    by (simp add: leaving_simps selects_def has_label_def map_get_Some demo_Node_def new_meta_def)
  let ?c' = "job_round no_env \<lparr>nn_Name = ''spin'', nn_Namespace = []\<rparr> [''n1-spin-uninstall''] (api leaving_world)"
  have shim: "find_by shim_Name ''spin'' (srv_shims (api leaving_world)) = Inr leaving_Shim" "om_DeletionTimestamp (shim_meta leaving_Shim) \<noteq> None"
    "set (om_Finalizers (shim_meta leaving_Shim)) = {RCMOperatorFinalizer}"
    by (simp_all add: leaving_simps find_by_def leaving_Shim_def demo_Shim_def new_meta_def)
  have w': "srv_shims ?c' = filter (\<lambda>x. shim_Name x \<noteq> shim_Name leaving_Shim) (srv_shims (api leaving_world))"
    "list_all2 (\<lambda>nd nd'. node_Name nd' = node_Name nd \<and> (\<forall>k. map_get (om_Labels (node_meta nd')) k
          = (if selects ?sel nd \<and> k = shim_Name leaving_Shim then None else map_get (om_Labels (node_meta nd)) k)))
       (srv_nodes (api leaving_world)) (srv_nodes ?c')"
    using delete_converges [OF _ shim(2,3) leaving_simps(6) [symmetric] _ ns _ _ refl, of "\<lparr>nn_Name = ''spin'', nn_Namespace = []\<rparr>" no_env] shim(1)
    by (simp_all add: leaving_simps(2-5) name)
  from w'(2) sel have "map (\<lambda>nd. map_get (om_Labels (node_meta nd)) ''spin'') (srv_nodes ?c') = [None, None, Some ''provisioned'']"
    by (auto simp: leaving_simps list_all2_Cons1 map_get_Some demo_Node_def new_meta_def)
  moreover have "map shim_Name (srv_shims ?c') = [''other'']" unfolding w'(1) by (simp add: leaving_simps demo_Shim_def new_meta_def)
  ultimately show ?thesis by (simp only: Let_def)
qed

end
