(* ===== verification/Late_Report.thy ===== *)
theory Late_Report
  imports Node_Jobs
begin

text \<open>
  What is left on a node when several finished jobs of a shim are reported one after the other: the report of a job does not look at
  the label that is there, so the last report counts, whichever of the jobs ran last. An execution of the cluster shows how a late
  report comes about: the label of a node says that a shim is installed there after it was removed.
\<close>

section \<open>The last report counts\<close>

definition reports :: "string \<Rightarrow> string list \<Rightarrow> server \<Rightarrow> server" where
  "reports ns jobs c = fold (\<lambda>n c. snd (job_Reconcile mem_kube \<lparr>nn_Name = n, nn_Namespace = ns\<rparr> c)) jobs c"

text \<open>A finished job for the shim on the node, and what it reports.\<close>

definition finished_job :: "server \<Rightarrow> string \<Rightarrow> string \<Rightarrow> string \<Rightarrow> string option \<Rightarrow> bool" where
  "finished_job c name node n v \<longleftrightarrow> (\<exists>j. find_by job_Name n (srv_jobs c) = Inr j \<and> verdict j = Some v
     \<and> map_get (om_Labels (job_meta j)) ''spinkube.dev/shimName'' = Some name \<and> pod_NodeName (job_Pod j) = node)"

lemma one_report:
  assumes "finished_job c name node n v" "find_by node_Name node (srv_nodes c) = Inr nd" "om_Labels (node_meta nd) \<noteq> None"
  shows "reports ns [n] c = c\<lparr>srv_nodes := put_by node_Name (relabel v name nd) (srv_nodes c)\<rparr>"
    "find_by node_Name node (srv_nodes (reports ns [n] c)) = Inr (relabel v name nd)"
proof -
  obtain j where j: "find_by job_Name n (srv_jobs c) = Inr j" "verdict j = Some v"
    "map_get (om_Labels (job_meta j)) ''spinkube.dev/shimName'' = Some name" "pod_NodeName (job_Pod j) = node"
    using assms(1) by (auto simp: finished_job_def)
  show run: "reports ns [n] c = c\<lparr>srv_nodes := put_by node_Name (relabel v name nd) (srv_nodes c)\<rparr>"
    using job_Reconcile_mem [OF j(1,3,2), of nd ns] assms(2,3) by (simp add: reports_def j(4) del: not_None_eq)
  show "find_by node_Name node (srv_nodes (reports ns [n] c)) = Inr (relabel v name nd)"
    using find_by_put_same [of node_Name "relabel v name nd" "srv_nodes c" nd] assms(2) find_by_Inr [OF assms(2)] by (simp add: run)
qed

lemma reports_append: "reports ns (xs @ ys) c = reports ns ys (reports ns xs c)"
  by (simp add: reports_def)

lemma reports_node:
  assumes "\<forall>n \<in> set jobs. finished_job c name node n (v n)" "find_by node_Name node (srv_nodes c) = Inr nd" "om_Labels (node_meta nd) \<noteq> None"
  shows "\<exists>nd'. reports ns jobs c = c\<lparr>srv_nodes := srv_nodes (reports ns jobs c)\<rparr>
    \<and> find_by node_Name node (srv_nodes (reports ns jobs c)) = Inr nd' \<and> om_Labels (node_meta nd') \<noteq> None
    \<and> (\<forall>k. map_get (om_Labels (node_meta nd')) k
          = (if k = name \<and> jobs \<noteq> [] then v (last jobs) else map_get (om_Labels (node_meta nd)) k))"
  using assms(1)
proof (induction jobs rule: rev_induct)
  case Nil
  then show ?case using assms(2,3) by (simp add: reports_def)
next
  case (snoc n jobs)
  let ?c = "reports ns jobs c"
  from snoc obtain nd1 where c1: "?c = c\<lparr>srv_nodes := srv_nodes ?c\<rparr>"
    and nd1: "find_by node_Name node (srv_nodes ?c) = Inr nd1" "om_Labels (node_meta nd1) \<noteq> None"
      "\<forall>k. map_get (om_Labels (node_meta nd1)) k = (if k = name \<and> jobs \<noteq> [] then v (last jobs) else map_get (om_Labels (node_meta nd)) k)"
    by auto
  have "srv_jobs ?c = srv_jobs c" by (subst c1) simp
  then have "finished_job ?c name node n (v n)" using snoc.prems by (simp add: finished_job_def)
  note step = one_report [OF this nd1(1,2), of ns]
  have "reports ns (jobs @ [n]) c = c\<lparr>srv_nodes := srv_nodes (reports ns (jobs @ [n]) c)\<rparr>"
    unfolding reports_append step(1) by (subst c1) simp
  moreover have "om_Labels (node_meta (relabel (v n) name nd1)) \<noteq> None" using nd1(2) by (simp del: not_None_eq)
  ultimately show ?case using step(2) nd1(3) relabel_get [OF nd1(2), of "v n" name] unfolding reports_append
    by (intro exI [of _ "relabel (v n) name nd1"] conjI) simp_all
qed

text \<open>
  C39. When finished jobs of a shim on a node are reported one after the other, each for the first time or once more (as after
  a restart of the operator or a new listing of the jobs), the node's label for the shim is in the end what the last of them reports,
  whichever label there was and whichever job ran last; no other label and no job changes. So if the last report is that of a
  completed install job, the node is labelled as provisioned, even if the shim was uninstalled since: then no rollout of a shim of that
  name sends a job to it, on any server, until something else changes the label.
\<close>

theorem last_report_counts:
  assumes "jobs \<noteq> []" "\<forall>n \<in> set jobs. finished_job c name node n (v n)"
    "find_by node_Name node (srv_nodes c) = Inr nd" "om_Labels (node_meta nd) \<noteq> None"
  shows "\<exists>nd'. find_by node_Name node (srv_nodes (reports ns jobs c)) = Inr nd' \<and> srv_jobs (reports ns jobs c) = srv_jobs c
    \<and> (\<forall>k. map_get (om_Labels (node_meta nd')) k = (if k = name then v (last jobs) else map_get (om_Labels (node_meta nd)) k))
    \<and> (v (last jobs) = Some ''provisioned''
        \<longrightarrow> (\<forall>K env shim errs cc. shim_Name shim = name \<longrightarrow> rollout K env shim [nd'] errs cc = (Ret errs, cc)))"
proof -
  from reports_node [OF assms(2-4), of ns] assms(1) obtain nd' where c': "reports ns jobs c = c\<lparr>srv_nodes := srv_nodes (reports ns jobs c)\<rparr>"
    and nd': "find_by node_Name node (srv_nodes (reports ns jobs c)) = Inr nd'"
      "\<forall>k. map_get (om_Labels (node_meta nd')) k = (if k = name then v (last jobs) else map_get (om_Labels (node_meta nd)) k)" by auto
  have jobs: "srv_jobs (reports ns jobs c) = srv_jobs c" by (subst c') simp
  have "rollout K env shim [nd'] errs cc = (Ret errs, cc)" if "v (last jobs) = Some ''provisioned''" "shim_Name shim = name"
    for K :: "'a kube" and env shim errs cc
    by (rule rollout_done) (use nd'(2) that in \<open>simp add: needs_install_def label_of_def ProvisioningStatusProvisioned_def\<close>)
  with nd' jobs show ?thesis by blast
qed

section \<open>A report that comes late\<close>

text \<open>
  A shim is installed on a node and deleted; its uninstall job completes and is reported. Then the finished
  install job is reported once more, before it is removed.
\<close>

definition spin_req :: NamespacedName where
  "spin_req = \<lparr>nn_Name = ''spin'', nn_Namespace = []\<rparr>"

definition finish_and_report :: "string \<Rightarrow> server \<Rightarrow> server" where
  "finish_and_report n c = snd (job_Reconcile mem_kube \<lparr>nn_Name = n, nn_Namespace = []\<rparr> (set_conditions n [done_condition] c))"

definition one_node :: world where
  "one_node = \<lparr>api = (api world0)\<lparr>srv_nodes := [demo_Node ''n1'' [(''arch'', ''amd64'')]]\<rparr>, completed = {}, runs = []\<rparr>"

definition deleting :: "server \<Rightarrow> server" where
  "deleting c = c\<lparr>srv_shims := map (\<lambda>s. s\<lparr>shim_meta := (shim_meta s)\<lparr>om_DeletionTimestamp := Some 1\<rparr>\<rparr>) (srv_shims c)\<rparr>"

definition late_api :: server where
  "late_api =
     (let c1 = finish_and_report ''n1-spin-install'' (snd (Reconcile mem_kube no_env spin_req (api one_node)));
          c2 = finish_and_report ''n1-spin-uninstall'' (snd (Reconcile mem_kube no_env spin_req (deleting c1)))
      in snd (job_Reconcile mem_kube \<lparr>nn_Name = ''n1-spin-install'', nn_Namespace = []\<rparr> c2))"

lemma reachable_by:
  "(\<exists>w. reachable env w \<and> api w = c) \<Longrightarrow> \<exists>w. reachable env w \<and> api w = snd (Reconcile mem_kube env req c)"
  "(\<exists>w. reachable env w \<and> api w = c) \<Longrightarrow> \<exists>w. reachable env w \<and> api w = snd (job_Reconcile mem_kube req c)"
  "(\<exists>w. reachable env w \<and> api w = c) \<Longrightarrow> \<exists>w. reachable env w \<and> api w = set_conditions n cs c"
  "(\<exists>w. reachable env w \<and> api w = c) \<Longrightarrow> \<exists>w. reachable env w \<and> api w = deleting c"
proof -
  have steps: "reachable env w'" if "reachable env w" "(cluster_step env)\<^sup>*\<^sup>* w w'" for w w'
    using that(2,1) by (induction rule: rtranclp_induct) (auto intro: reachable.step)
  assume "\<exists>w. reachable env w \<and> api w = c"
  then obtain w where w: "reachable env w" "api w = c" by blast
  from tracked_run [OF tracks_Reconcile [of env req], where env = env and w = w and r = "ShimRun req"]
  obtain w1 where "(cluster_step env)\<^sup>*\<^sup>* w w1" "api w1 = snd (Reconcile mem_kube env req (api w))" by auto
  with steps [OF w(1)] w(2) show "\<exists>w. reachable env w \<and> api w = snd (Reconcile mem_kube env req c)" by auto
  from tracked_run [OF tracks_job_Reconcile [of req], where env = env and w = w and r = "JobRun req"]
  obtain w2 where "(cluster_step env)\<^sup>*\<^sup>* w w2" "api w2 = snd (job_Reconcile mem_kube req (api w))" by auto
  with steps [OF w(1)] w(2) show "\<exists>w. reachable env w \<and> api w = snd (job_Reconcile mem_kube req c)" by auto
  show "\<exists>w. reachable env w \<and> api w = set_conditions n cs c"
    by (intro exI conjI, rule reachable.step [OF w(1)], rule cluster_step.job_status [OF refl]) (simp add: w(2))
  show "\<exists>w. reachable env w \<and> api w = deleting c"
    by (intro exI conjI, rule reachable.step [OF w(1)], rule cluster_step.user
        [where ss = "srv_shims (deleting c)" and rs = "srv_classes c" and ns = "srv_refused c"]) (simp add: w(2) deleting_def)
qed

lemma late_reachable: "\<exists>w. reachable no_env w \<and> api w = late_api"
proof -
  have "reachable no_env one_node" by (rule reachable.start) (simp add: initial_def one_node_def world0_def demo_Node_def new_meta_def)
  then have "\<exists>w. reachable no_env w \<and> api w = api one_node" by blast
  then show ?thesis unfolding late_api_def finish_and_report_def Let_def by (intro reachable_by)
qed

lemma late_facts:
  "srv_shims late_api = []" "map (\<lambda>nd. (node_Name nd, label_of nd ''spin'')) (srv_nodes late_api) = [(''n1'', ''provisioned'')]"
  "map (\<lambda>j. (job_Name j, verdict j)) (srv_jobs late_api) = [(''n1-spin-uninstall'', Some None), (''n1-spin-install'', Some (Some ''provisioned''))]"
  "fst (Reconcile mem_kube no_env spin_req (late_api\<lparr>srv_shims := [demo_Shim ''spin'']\<rparr>)) = Ret None"
  "srv_jobs (snd (Reconcile mem_kube no_env spin_req (late_api\<lparr>srv_shims := [demo_Shim ''spin'']\<rparr>))) = srv_jobs late_api"
  by code_simp+

section \<open>A witness\<close>

text \<open>Both jobs of that execution have completed; the order of their reports decides.\<close>

lemma late_jobs:
  "finished_job late_api ''spin'' ''n1'' ''n1-spin-install'' (Some ''provisioned'')"
  "finished_job late_api ''spin'' ''n1'' ''n1-spin-uninstall'' None"
proof -
  have "case find_by job_Name ''n1-spin-install'' (srv_jobs late_api) of Inl _ \<Rightarrow> False | Inr j \<Rightarrow> verdict j = Some (Some ''provisioned'')
      \<and> map_get (om_Labels (job_meta j)) ''spinkube.dev/shimName'' = Some ''spin'' \<and> pod_NodeName (job_Pod j) = ''n1''"
    "case find_by job_Name ''n1-spin-uninstall'' (srv_jobs late_api) of Inl _ \<Rightarrow> False | Inr j \<Rightarrow> verdict j = Some None
      \<and> map_get (om_Labels (job_meta j)) ''spinkube.dev/shimName'' = Some ''spin'' \<and> pod_NodeName (job_Pod j) = ''n1''"
    by code_simp+
  then show "finished_job late_api ''spin'' ''n1'' ''n1-spin-install'' (Some ''provisioned'')"
    "finished_job late_api ''spin'' ''n1'' ''n1-spin-uninstall'' None"
    unfolding finished_job_def by (simp_all split: sum.splits)
qed

theorem last_report_counts_witness:
  "\<exists>nd1 nd2. find_by node_Name ''n1'' (srv_nodes (reports [] [''n1-spin-uninstall'', ''n1-spin-install''] late_api)) = Inr nd1
     \<and> map_get (om_Labels (node_meta nd1)) ''spin'' = Some ''provisioned''
     \<and> find_by node_Name ''n1'' (srv_nodes (reports [] [''n1-spin-install'', ''n1-spin-uninstall''] late_api)) = Inr nd2
     \<and> map_get (om_Labels (node_meta nd2)) ''spin'' = None"
proof -
  let ?v = "\<lambda>n. if n = ''n1-spin-install'' then Some ''provisioned'' else None"
  have "case find_by node_Name ''n1'' (srv_nodes late_api) of Inl _ \<Rightarrow> False | Inr nd \<Rightarrow> om_Labels (node_meta nd) \<noteq> None" by code_simp
  then obtain nd where nd: "find_by node_Name ''n1'' (srv_nodes late_api) = Inr nd" "om_Labels (node_meta nd) \<noteq> None"
    by (auto split: sum.splits)
  from last_report_counts [OF _ _ nd, of "[''n1-spin-uninstall'', ''n1-spin-install'']" "''spin''" ?v "[]"] late_jobs
  obtain nd1 where 1: "find_by node_Name ''n1'' (srv_nodes (reports [] [''n1-spin-uninstall'', ''n1-spin-install''] late_api)) = Inr nd1"
    "map_get (om_Labels (node_meta nd1)) ''spin'' = Some ''provisioned''" by auto
  from last_report_counts [OF _ _ nd, of "[''n1-spin-install'', ''n1-spin-uninstall'']" "''spin''" ?v "[]"] late_jobs
  obtain nd2 where 2: "find_by node_Name ''n1'' (srv_nodes (reports [] [''n1-spin-install'', ''n1-spin-uninstall''] late_api)) = Inr nd2"
    "map_get (om_Labels (node_meta nd2)) ''spin'' = None" by auto
  from 1 2 show ?thesis by (intro exI conjI)
qed

end
