(* ===== verification/Retry.thy ===== *)
theory Retry
  imports Node_Jobs
begin

text \<open>
  What happens when a job is sent while the finished job of the same name exists: the patch is accepted and changes
  nothing that runs, but the node is labelled as if a job was under way.
\<close>

section \<open>Sending an existing job\<close>

lemma deploy_existing:
  assumes node: "find_by node_Name (node_Name node) (srv_nodes c) = Inr nd" "sends shim op nd"
    and old: "find_by job_Name (job_name nd shim op) (srv_jobs c) = Inr old" "job_Pod old = job_Pod (sent_job env shim op nd)"
      "job_name nd shim op \<notin> set (srv_refused c)"
  shows "deployJobOnNode mem_kube env shim node op c
    = (Ret None, c\<lparr>srv_nodes := put_by node_Name (relabel (Some (op_status op)) (shim_Name shim) nd) (srv_nodes c),
        srv_jobs := put_by job_Name ((sent_job env shim op nd)\<lparr>job_Conditions := job_Conditions old\<rparr>) (srv_jobs c)\<rparr>)"
  unfolding deploy_patches [OF node] using old
  by (simp add: patch_job_def mem_kube_def mem_PatchJob_def sent_job_simps)

lemma relabelled_found:
  assumes "find_by node_Name (node_Name node) (srv_nodes c) = Inr nd"
  shows "find_by node_Name (node_Name node) (put_by node_Name (relabel v name nd) (srv_nodes c)) = Inr (relabel v name nd)"
  using find_by_put_same [of node_Name "relabel v name nd" "srv_nodes c" nd] assms find_by_Inr [OF assms] by simp

text \<open>
  C38. A job that has finished is not run a second time, an install job that failed included: while it exists, sending it
  again is accepted without an error and all jobs keep their names and their status, but the node is labelled anew. After an
  install job it is labelled as pending, so that it is not among the nodes that need the shim any more (\<open>needs_install\<close>), although no
  job is under way. After an uninstall job it is labelled as being uninstalled, and is among the nodes that need the
  shim. (A label changed to failed starts a run of the shim reconciler,
  which sends the job again. An uninstall job has no owner, so it outlives the shim, and by default no time to live; it is met again
  when a shim of the same name is deleted.)
\<close>

theorem finished_job_not_repeated:
  assumes node: "find_by node_Name (node_Name node) (srv_nodes c) = Inr nd" "om_Labels (node_meta nd) \<noteq> None"
    and op: "op = INSTALL \<and> \<not> isl (resolveArtifactForNode shim nd) \<or> op = UNINSTALL"
    and old: "find_by job_Name (job_name nd shim op) (srv_jobs c) = Inr old" "job_Pod old = job_Pod (sent_job env shim op nd)"
      "job_name nd shim op \<notin> set (srv_refused c)" "distinct (map job_Name (srv_jobs c))"
  shows "\<exists>c' nd'. deployJobOnNode mem_kube env shim node op c = (Ret None, c')
    \<and> map (\<lambda>j. (job_Name j, job_Conditions j)) (srv_jobs c') = map (\<lambda>j. (job_Name j, job_Conditions j)) (srv_jobs c)
    \<and> find_by node_Name (node_Name node) (srv_nodes c') = Inr nd' \<and> label_of nd' (shim_Name shim) = op_status op
    \<and> (op = INSTALL \<longrightarrow> \<not> needs_install shim nd') \<and> (op = UNINSTALL \<longrightarrow> needs_install shim nd')"
proof -
  let ?job = "(sent_job env shim op nd)\<lparr>job_Conditions := job_Conditions old\<rparr>"
  let ?nd = "relabel (Some (op_status op)) (shim_Name shim) nd"
  have sends: "sends shim op nd" using node(2) op by (simp add: sends_def)
  have label: "label_of ?nd (shim_Name shim) = op_status op" using relabel_get [OF node(2)] by (simp add: label_of_def)
  have name: "job_Name ?job = job_name nd shim op" by (simp add: sent_job_simps)
  have "find_by job_Name (job_Name ?job) (srv_jobs c) = Inr old" unfolding name by (rule old(1))
  from put_by_status [OF this old(4), of job_Conditions] same_name_same [OF this old(4)]
  have "map (\<lambda>j. (job_Name j, job_Conditions j)) (put_by job_Name ?job (srv_jobs c)) = map (\<lambda>j. (job_Name j, job_Conditions j)) (srv_jobs c)"
    by (auto simp del: name)
  moreover have installed: "op = INSTALL \<longrightarrow> \<not> needs_install shim ?nd"
    by (simp only: needs_install_def label) (simp add: op_status_def ProvisioningStatusPending_def)
  moreover have removed: "op = UNINSTALL \<longrightarrow> needs_install shim ?nd"
    by (simp only: needs_install_def label) (simp add: op_status_def status_defs INSTALL_def UNINSTALL_def)
  moreover have "find_by node_Name (node_Name node) (put_by node_Name ?nd (srv_nodes c)) = Inr ?nd"
    by (rule relabelled_found [OF node(1)])
  ultimately show ?thesis
    by (intro exI conjI) (rule deploy_existing [OF node(1) sends old(1-3)], simp, simp, rule label, rule installed, rule removed)
qed

section \<open>A witness\<close>

text \<open>The install job of the node has failed, and the node is labelled so.\<close>

abbreviation failed_node :: Node where
  "failed_node \<equiv> demo_Node ''n1'' [(''spin'', ''failed''), (''arch'', ''amd64'')]"

definition failed_job :: Job where
  "failed_job = (sent_job no_env (demo_Shim ''spin'') INSTALL failed_node)\<lparr>job_Conditions := [\<lparr>jc_Type = ''Failed'', jc_Status = ''True''\<rparr>]\<rparr>"

definition failed_api :: server where
  "failed_api = (api world0)\<lparr>srv_nodes := [failed_node], srv_jobs := [failed_job]\<rparr>"

theorem finished_job_not_repeated_witness:
  "needs_install (demo_Shim ''spin'') failed_node
     \<and> (\<exists>c' nd'. deployJobOnNode mem_kube no_env (demo_Shim ''spin'') failed_node INSTALL failed_api = (Ret None, c')
       \<and> map job_Conditions (srv_jobs c') = [[\<lparr>jc_Type = ''Failed'', jc_Status = ''True''\<rparr>]]
       \<and> find_by node_Name ''n1'' (srv_nodes c') = Inr nd' \<and> label_of nd' ''spin'' = ''pending'' \<and> \<not> needs_install (demo_Shim ''spin'') nd')"
proof -
  let ?nd = failed_node and ?s = "demo_Shim ''spin''"
  have job: "job_Name failed_job = job_name ?nd ?s INSTALL" by (simp add: failed_job_def sent_job_simps)
  have "\<exists>c' nd'. deployJobOnNode mem_kube no_env ?s ?nd INSTALL failed_api = (Ret None, c')
    \<and> map (\<lambda>j. (job_Name j, job_Conditions j)) (srv_jobs c') = map (\<lambda>j. (job_Name j, job_Conditions j)) (srv_jobs failed_api)
    \<and> find_by node_Name (node_Name ?nd) (srv_nodes c') = Inr nd' \<and> label_of nd' (shim_Name ?s) = op_status INSTALL
    \<and> (INSTALL = INSTALL \<longrightarrow> \<not> needs_install ?s nd') \<and> (INSTALL = UNINSTALL \<longrightarrow> needs_install ?s nd')"
  proof (rule finished_job_not_repeated [where nd = ?nd and old = failed_job])
    show "INSTALL = INSTALL \<and> \<not> isl (resolveArtifactForNode ?s ?nd) \<or> INSTALL = UNINSTALL"
      by (simp add: resolveArtifactForNode_def demo_Shim_def)
    show "job_Pod failed_job = job_Pod (sent_job no_env ?s INSTALL ?nd)" by (simp add: failed_job_def)
  qed (simp_all add: failed_api_def world0_def find_by_def job [symmetric], simp add: demo_Node_def)
  then obtain c' nd' where run: "deployJobOnNode mem_kube no_env ?s ?nd INSTALL failed_api = (Ret None, c')"
    and eq: "map (\<lambda>j. (job_Name j, job_Conditions j)) (srv_jobs c') = map (\<lambda>j. (job_Name j, job_Conditions j)) (srv_jobs failed_api)"
    and nd: "find_by node_Name (node_Name ?nd) (srv_nodes c') = Inr nd'" "label_of nd' (shim_Name ?s) = op_status INSTALL"
      "INSTALL = INSTALL \<longrightarrow> \<not> needs_install ?s nd'" by (elim exE conjE)
  from arg_cong [where f = "map snd", OF eq] have "map job_Conditions (srv_jobs c') = map job_Conditions (srv_jobs failed_api)"
    by (simp add: o_def)
  also have "\<dots> = [[\<lparr>jc_Type = ''Failed'', jc_Status = ''True''\<rparr>]]" by (simp add: failed_api_def failed_job_def)
  finally have status: "map job_Conditions (srv_jobs c') = [[\<lparr>jc_Type = ''Failed'', jc_Status = ''True''\<rparr>]]" .
  have "needs_install ?s ?nd"
    by (simp add: needs_install_def label_of_def map_get_def demo_Node_def ProvisioningStatusProvisioned_def ProvisioningStatusPending_def)
  moreover have "find_by node_Name ''n1'' (srv_nodes c') = Inr nd'" "label_of nd' ''spin'' = ''pending''" "\<not> needs_install ?s nd'"
    using nd by (simp_all add: op_status_def)
  ultimately show ?thesis using run status by (intro conjI exI)
qed

end
