(* ===== verification/Call_Bounds.thy ===== *)
theory Call_Bounds
  imports Cluster
begin

text \<open>
  How many calls a run makes. \<open>metered\<close> is the contract of a client whose state can be measured so that a call
  costs at most one; in \<open>paid\<close> a listing of nodes also pays for four calls per node. Both are interpreted on the log of
  any client and on the replay, so that a run of either reconciler is bounded for every client, and ends in the cluster
  whatever it is answered.
\<close>

section \<open>Costs\<close>

definition spends :: "('c \<Rightarrow> int) \<Rightarrow> int \<Rightarrow> ('c \<Rightarrow> 'r \<times> 'c) \<Rightarrow> bool" where
  "spends m n f \<longleftrightarrow> (\<forall>c. m (snd (f c)) \<le> m c + n)"

lemma spendsD: "spends m n f \<Longrightarrow> f c = (r, c') \<Longrightarrow> m c' \<le> m c + n"
  by (metis snd_conv spends_def)

lemma spends_mono: "spends m k f \<Longrightarrow> k \<le> n \<Longrightarrow> spends m n f"
  unfolding spends_def by (meson add_left_mono order_trans)

lemma spends_ret: "0 \<le> n \<Longrightarrow> spends m n (\<lambda>c. (r, c))"
  by (simp add: spends_def)

lemma spends_bind:
  "spends m a f \<Longrightarrow> (\<And>r. spends m (n - a) (f2 r)) \<Longrightarrow> spends m n (\<lambda>c. case f c of (r, c') \<Rightarrow> f2 r c')"
  by (simp add: spends_def case_prod_beta) (smt (verit))

lemma spends_snd: "spends m n f \<Longrightarrow> spends m n (\<lambda>c. (r, snd (f c)))"
  by (simp add: spends_def)

lemma spends_def_of: "(\<And>c. f c = f' c) \<Longrightarrow> spends m n f' \<Longrightarrow> spends m n f"
  by (simp add: spends_def)

lemma spends_if: "spends m n f1 \<Longrightarrow> spends m n f2 \<Longrightarrow> spends m n (\<lambda>c. if b then f1 c else f2 c)"
  by (cases b) simp_all

lemma spends_case_sum:
  "(\<And>e. spends m n (f1 e)) \<Longrightarrow> (\<And>x. spends m n (f2 x)) \<Longrightarrow> spends m n (\<lambda>c. case r of Inl e \<Rightarrow> f1 e c | Inr x \<Rightarrow> f2 x c)"
  by (cases r) simp_all

lemma spends_case_outcome:
  "(\<And>e. spends m n (f1 e)) \<Longrightarrow> (\<And>x. spends m n (f2 x)) \<Longrightarrow> spends m n (\<lambda>c. case r of Panic e \<Rightarrow> f1 e c | Ret x \<Rightarrow> f2 x c)"
  by (cases r) simp_all

lemma spends_case_option:
  "spends m n f1 \<Longrightarrow> (\<And>x. spends m n (f2 x)) \<Longrightarrow> spends m n (\<lambda>c. case r of None \<Rightarrow> f1 c | Some x \<Rightarrow> f2 x c)"
  by (cases r) simp_all

lemma spends_case_prod:
  "(\<And>x y. spends m n (f x y)) \<Longrightarrow> spends m n (\<lambda>c. case p of (x, y) \<Rightarrow> f x y c)"
  by (cases p) simp

lemmas spends_intros = spends_if spends_case_sum spends_case_outcome spends_case_option spends_case_prod spends_ret

definition listed :: "error + Node list \<Rightarrow> int" where
  "listed r = (case r of Inl _ \<Rightarrow> 0 | Inr ns \<Rightarrow> int (length ns))"

section \<open>The contract and the operations\<close>

locale metered =
  fixes K :: "'c kube" and spent :: "'c \<Rightarrow> int"
  assumes pays_GetShim: "spends spent 1 (k_GetShim K n)"
    and pays_GetNode: "spends spent 1 (k_GetNode K n)"
    and pays_GetJob: "spends spent 1 (k_GetJob K n)"
    and pays_GetRuntimeClass: "spends spent 1 (k_GetRuntimeClass K n)"
    and pays_UpdateShim: "spends spent 1 (k_UpdateShim K s)"
    and pays_UpdateNode: "spends spent 1 (k_UpdateNode K nd)"
    and pays_PatchJob: "spends spent 1 (k_PatchJob K j data)"
    and pays_PatchRuntimeClass: "spends spent 1 (k_PatchRuntimeClass K rc data)"
begin

lemma cost_updateNodeLabels: "spends spent 1 (updateNodeLabels K nd shim status)"
  by (rule spends_def_of [OF updateNodeLabels_def], unfold Let_def)
     (intro spends_intros spends_bind [OF pays_UpdateNode]; simp)

lemma cost_patch_job: "spends spent 2 (patch_job K shim nd job)"
  by (rule spends_def_of [OF patch_job_def])
     (intro spends_intros spends_bind [OF pays_PatchJob] spends_bind [OF cost_updateNodeLabels]; simp)

lemma cost_label_and_patch: "spends spent 3 (label_and_patch K env shim nd status op artifact)"
  by (rule spends_def_of [OF label_and_patch_def])
     (intro spends_intros spends_bind [OF cost_updateNodeLabels] spends_mono [OF cost_patch_job]; simp)

lemma cost_deployJobOnNode: "spends spent 4 (deployJobOnNode K env shim nd op)"
  by (rule spends_def_of [OF deployJobOnNode_def], unfold Let_def)
     (intro spends_intros spends_bind [OF pays_GetNode] spends_mono [OF cost_label_and_patch]; simp)

lemma cost_rollout: "spends spent (4 * int (length nodes)) (rollout K env shim nodes errs)"
proof (induction nodes arbitrary: errs)
  case (Cons node nodes)
  show ?case
    by (rule spends_def_of [OF rollout.simps(2)])
       (intro spends_intros spends_bind [OF cost_deployJobOnNode] spends_mono [OF Cons]; simp)
qed (intro spends_def_of [OF rollout.simps(1)] spends_ret, simp)

lemma cost_handleDeleteShim: "spends spent (4 * int (length nodes)) (handleDeleteShim K env shim nodes)"
proof (induction nodes)
  case (Cons node nodes)
  show ?case
    by (rule spends_def_of [OF handleDeleteShim.simps(2)])
       (intro spends_intros spends_bind [OF cost_deployJobOnNode] spends_mono [OF Cons]; simp)
qed (intro spends_def_of [OF handleDeleteShim.simps(1)] spends_ret, simp)

lemma cost_handleInstallShim: "spends spent (4 * int (length nodes)) (handleInstallShim K env shim nodes)"
proof -
  have "spends spent (4 * int (length nodes)) (recreateStrategyRollout K env shim nodes)"
    by (rule spends_def_of [OF recreateStrategyRollout_def]) (intro spends_bind [OF cost_rollout] spends_intros; simp)
  then show ?thesis
    by (intro spends_def_of [OF handleInstallShim_def]) (unfold Let_def, intro spends_intros; simp)
qed

lemma cost_handleDeployRuntimeClass: "spends spent 1 (handleDeployRuntimeClass K shim)"
  by (rule spends_def_of [OF handleDeployRuntimeClass_def])
     (intro spends_intros spends_bind [OF pays_PatchRuntimeClass]; simp)

lemma cost_runtimeClassExists: "spends spent 1 (runtimeClassExists K shim)"
proof -
  have "spends spent 1 (getRuntimeClass K shim)"
    by (rule spends_def_of [OF getRuntimeClass_def]) (intro spends_bind [OF pays_GetRuntimeClass] spends_intros; simp)
  then show ?thesis
    by (intro spends_def_of [OF runtimeClassExists_def]) (intro spends_if spends_bind [where a = 1] spends_intros; simp)
qed

lemma cost_updateStatus: "spends spent 2 (updateStatus K shim nodes)"
  by (rule spends_def_of [OF updateStatus_def], unfold Let_def)
     (intro spends_bind [OF pays_UpdateShim] spends_bind [OF pays_GetShim] spends_intros; simp)

lemma cost_removeFinalizerFromShim: "spends spent 1 (removeFinalizerFromShim K shim)"
  by (rule spends_def_of [OF removeFinalizerFromShim_def], unfold Let_def)
     (intro spends_intros spends_bind [OF pays_UpdateShim]; simp)

lemma cost_ensureFinalizerForShim: "spends spent 1 (ensureFinalizerForShim K shim f)"
  by (rule spends_def_of [OF ensureFinalizerForShim_def], unfold Let_def)
     (intro spends_intros spends_bind [OF pays_UpdateShim]; simp)

lemma cost_reconcile_delete: "spends spent (4 * int (length nodes) + 1) (reconcile_delete K env shim nodes)"
  by (rule spends_def_of [OF reconcile_delete_def])
     (intro spends_bind [OF cost_handleDeleteShim] spends_bind [OF cost_removeFinalizerFromShim] spends_intros; simp)

lemma cost_reconcile_install: "spends spent (4 * int (length nodes) + 2) (reconcile_install K env shim nodes)"
  by (rule spends_def_of [OF reconcile_install_def])
     (intro spends_bind [OF cost_runtimeClassExists] spends_case_prod spends_bind [where a = 1] spends_intros
        spends_mono [OF cost_handleDeployRuntimeClass] spends_mono [OF cost_handleInstallShim]; simp)

lemma cost_report: "spends spent 1 (report K job nd s)"
proof -
  have update: "spends spent 1 (\<lambda>c. ignoring (job_updateNodeLabels K nd s status c))" for status
    unfolding ignoring_def job_updateNodeLabels_def
    by (intro spends_bind [where a = 1] spends_bind [OF pays_UpdateNode] spends_intros; simp)
  have delete: "spends spent 1 (deleteNodeLabel K nd s)"
    by (rule spends_def_of [OF deleteNodeLabel_def]) (intro spends_bind [OF pays_UpdateNode] spends_intros; simp)
  show ?thesis
    by (rule spends_def_of [OF report_def], unfold Let_def) (intro spends_if spends_snd update delete spends_ret; simp)
qed

lemma cost_job_Reconcile: "spends spent 3 (job_Reconcile K req)"
proof -
  have node: "spends spent 1 (getNode K n)" for n
    by (rule spends_def_of [OF getNode_def]) (intro spends_bind [OF pays_GetNode] spends_intros; simp)
  show ?thesis
    by (rule spends_def_of [OF job_Reconcile_def])
       (intro spends_bind [OF pays_GetJob] spends_bind [OF node] spends_mono [OF cost_report] spends_intros; simp)
qed

end

text \<open>A listing pays for the deployments on the nodes that are listed.\<close>

locale paid = metered +
  assumes pays_ListNodes: "spent (snd (k_ListNodes K sel c)) \<le> spent c + 1 - 4 * listed (fst (k_ListNodes K sel c))"
begin

lemma cost_getNodeList:
  "spent (snd (getNodeListFromShimsNodeSelector K shim c)) \<le> spent c + 1 - 4 * listed (fst (getNodeListFromShimsNodeSelector K shim c))"
  using pays_ListNodes [of "entries (NodeSelector (Spec shim))" c]
  by (auto simp: getNodeListFromShimsNodeSelector_def listed_def split: prod.split sum.split)

lemma cost_reconcile_body: "spends spent 5 (reconcile_body K env shim)"
  unfolding spends_def
proof
  fix c
  obtain r c1 where get: "getNodeListFromShimsNodeSelector K shim c = (r, c1)" by fastforce
  have c1: "spent c1 \<le> spent c + 1 - 4 * listed r" using cost_getNodeList [of shim c] by (simp add: get)
  show "spent (snd (reconcile_body K env shim c)) \<le> spent c + 5"
  proof (cases r)
    case (Inl e)
    with c1 show ?thesis by (simp add: reconcile_body_def get listed_def)
  next
    case (Inr nodes)
    let ?rest = "\<lambda>c. case updateStatus K shim nodes c of
             ((Some err, shim1), c2) \<Rightarrow> ((Ret (Some err), shim1), c2)
           | ((None, shim1), c2) \<Rightarrow>
               if om_DeletionTimestamp (shim_meta shim1) \<noteq> None then reconcile_delete K env shim1 nodes c2
               else (case reconcile_install K env shim1 nodes c2 of (r, c3) \<Rightarrow> ((r, shim1), c3))"
    have "spends spent (4 * int (length nodes) + 4) ?rest"
      by (intro spends_bind [OF cost_updateStatus] spends_intros spends_mono [OF cost_reconcile_delete] spends_bind [OF cost_reconcile_install]; simp)
    then have "spent (snd (?rest c1)) \<le> spent c1 + (4 * int (length nodes) + 4)" unfolding spends_def by blast
    with c1 Inr show ?thesis by (simp add: reconcile_body_def get listed_def)
  qed
qed

lemma cost_Reconcile: "spends spent 7 (Reconcile K env req)"
  by (rule spends_def_of [OF Reconcile_def])
     (intro spends_bind [OF pays_GetShim] spends_bind [OF cost_reconcile_body] spends_snd spends_mono [OF cost_ensureFinalizerForShim] spends_intros; simp)

end

section \<open>The log of a client\<close>

fun event_nodes :: "Kube_Client.call \<Rightarrow> nat" where
  "event_nodes (ListedNodes sel (Some ns)) = length ns"
| "event_nodes _ = 0"

definition nodes_listed :: "Kube_Client.call list \<Rightarrow> nat" where
  "nodes_listed l = sum_list (map event_nodes l)"

definition log_cost :: "'c \<times> Kube_Client.call list \<Rightarrow> int" where
  "log_cost cl = int (length (snd cl)) - 4 * int (nodes_listed (snd cl))"

definition log_length :: "'c \<times> Kube_Client.call list \<Rightarrow> int" where
  "log_length cl = int (length (snd cl))"

lemmas log_defs = spends_def logging_sel log_res_def log_sum_def log_opt_def log_cost_def log_length_def nodes_listed_def

interpretation counted_log: metered "logging K" log_length for K
  by unfold_locales (auto simp: log_defs split: prod.split)

interpretation logged: paid "logging K" log_cost for K
proof (unfold_locales, goal_cases)
  case (9 sel c)
  then show ?case by (cases c) (auto simp: log_defs listed_def split: prod.split sum.split)
qed (auto simp: log_defs split: prod.split)

section \<open>The replay of a run\<close>

fun answer_nodes :: "answer \<Rightarrow> nat" where
  "answer_nodes (AnsNodes (Inr ns)) = length ns"
| "answer_nodes _ = 0"

definition nodes_answered :: "answer list \<Rightarrow> nat" where
  "nodes_answered as = sum_list (map answer_nodes as)"

text \<open>The answers that were used, and one for the call that has no answer yet.\<close>

definition replay_cost :: "replay \<Rightarrow> int" where
  "replay_cost st = 4 * int (nodes_answered (answers st)) - int (length (answers st))
     + (if asked st \<noteq> None then 1 + int (length (answers st)) else 0)"

definition replay_length :: "replay \<Rightarrow> int" where
  "replay_length st = (if asked st \<noteq> None then 1 else - int (length (answers st)))"

lemma ask_cost: "spends replay_cost 1 (ask call sel err)" "spends replay_length 1 (ask call sel err)"
  by (auto simp: spends_def ask_def replay_cost_def replay_length_def nodes_answered_def split: list.split)

interpretation counted_replay: metered replay_kube replay_length
  by unfold_locales (simp_all add: replay_kube_def ask_cost)

interpretation replayed: paid replay_kube replay_cost
proof (unfold_locales, goal_cases)
  case (9 sel c)
  have "sel_nodes a = Some r \<Longrightarrow> listed r = int (answer_nodes a)" for a r
    by (cases a rule: sel_nodes.cases) (auto simp: listed_def split: sum.split)
  then show ?case
    by (auto simp: replay_kube_def ask_def replay_cost_def nodes_answered_def listed_def split: list.split option.split)
qed (simp_all add: replay_kube_def ask_cost)

section \<open>Bounds\<close>

text \<open>
  C32. A run of a reconciler makes a bounded number of calls, whatever the API server answers and even if it panics: the shim
  reconciler at most seven, and four for each node of the list it got; the job reconciler at most three.
\<close>

theorem Reconcile_calls:
  "(let log = snd (snd (Reconcile (logging K) env req (c, []))) in length log \<le> 7 + 4 * nodes_listed log)
    \<and> length (snd (snd (job_Reconcile (logging K) key (c, [])))) \<le> 3"
  using logged.cost_Reconcile [of K env req, unfolded spends_def, THEN spec, of "(c, [])"]
    counted_log.cost_job_Reconcile [of K key, unfolded spends_def, THEN spec, of "(c, [])"]
  by (simp add: log_cost_def log_length_def nodes_listed_def Let_def)

text \<open>The number of calls a run can make in the cluster, from the answers it has got.\<close>

definition call_bound :: "run \<Rightarrow> answer list \<Rightarrow> nat" where
  "call_bound r as = (case r of ShimRun req \<Rightarrow> 7 + 4 * nodes_answered as | JobRun req \<Rightarrow> 3)"

text \<open>
  In the cluster a run comes to its end: however its calls are interleaved with those of other runs and whatever it is
  answered, a run that still has a call to make has got fewer answers than the bound.
\<close>

lemma runs_end:
  assumes "next_call env r as = Some call"
  shows "length as < call_bound r as"
proof (cases r)
  case (ShimRun req)
  let ?st = "\<lparr>answers = as, asked = None\<rparr>"
  from assms ShimRun have "1 \<le> replay_cost (snd (Reconcile replay_kube env req ?st))" by (simp add: replay_cost_def)
  moreover have "replay_cost (snd (Reconcile replay_kube env req ?st)) \<le> replay_cost ?st + 7"
    using replayed.cost_Reconcile [of env req] by (simp only: spends_def)
  ultimately show ?thesis by (simp add: ShimRun call_bound_def replay_cost_def)
next
  case (JobRun req)
  let ?st = "\<lparr>answers = as, asked = None\<rparr>"
  from assms JobRun have "replay_length (snd (job_Reconcile replay_kube req ?st)) = 1" by (simp add: replay_length_def)
  moreover have "replay_length (snd (job_Reconcile replay_kube req ?st)) \<le> replay_length ?st + 3"
    using counted_replay.cost_job_Reconcile [of req] by (simp only: spends_def)
  ultimately show ?thesis by (simp add: JobRun call_bound_def replay_length_def)
qed

definition part_way :: "run \<times> answer list" where
  "part_way = hd (snd (fold (advance no_env) (replicate 8 0) (api world0, [(ShimRun \<lparr>nn_Name = ''spin'', nn_Namespace = []\<rparr>, [])])))"

lemma runs_end_example:
  "length (snd part_way) = 8 \<and> call_bound (fst part_way) (snd part_way) = 15 \<and> length (snd part_way) < call_bound (fst part_way) (snd part_way)"
proof -
  have "next_call no_env (fst part_way) (snd part_way) \<noteq> None" "length (snd part_way) = 8" "call_bound (fst part_way) (snd part_way) = 15"
    by code_simp+
  then show ?thesis using runs_end [of no_env "fst part_way" "snd part_way"] by auto
qed

end
