(* ===== verification/Job_Names.thy ===== *)
theory Job_Names
  imports Job_Manifest
begin

text \<open>
  The names of jobs as the API server sees them. The name of a job is a DNS subdomain (RFC 1123) and also the value of a
  label, so it has at most 63 characters; the names of nodes and shims are DNS subdomains too, but longer ones.
\<close>

section \<open>DNS subdomains\<close>

definition alnum :: "char \<Rightarrow> bool" where
  "alnum c \<longleftrightarrow> byte_in 97 122 c \<or> is_digit c"

text \<open>The automaton of \<open>[a-z0-9]([-a-z0-9]*[a-z0-9])?(\.[a-z0-9]([-a-z0-9]*[a-z0-9])?)*\<close>.\<close>

datatype dns_state = At_Start | After_Alnum | After_Dash

definition dns_step :: "dns_state \<Rightarrow> char \<Rightarrow> dns_state option" where
  "dns_step q c =
     (if alnum c then Some After_Alnum
      else if c = CHR ''-'' \<and> q \<noteq> At_Start then Some After_Dash
      else if c = CHR ''.'' \<and> q = After_Alnum then Some At_Start
      else None)"

fun dns_run :: "dns_state \<Rightarrow> string \<Rightarrow> dns_state option" where
  "dns_run q [] = Some q"
| "dns_run q (c # s) = (case dns_step q c of None \<Rightarrow> None | Some q' \<Rightarrow> dns_run q' s)"

definition dns_subdomain :: "string \<Rightarrow> bool" where
  "dns_subdomain s \<longleftrightarrow> dns_run At_Start s = Some After_Alnum"

definition valid_job_name :: "string \<Rightarrow> bool" where
  "valid_job_name s \<longleftrightarrow> length s \<le> 63 \<and> dns_subdomain s"

lemma dns_run_append: "dns_run q (s @ t) = (case dns_run q s of None \<Rightarrow> None | Some q' \<Rightarrow> dns_run q' t)"
  by (induction s arbitrary: q) (simp_all split: option.split)

lemma dns_run_last:
  assumes "dns_run q s \<noteq> None" "s \<noteq> []"
  shows "dns_run q s = Some After_Alnum \<longleftrightarrow> alnum (last s)"
proof -
  obtain t c where s: "s = t @ [c]" using assms(2) by (cases s rule: rev_cases) auto
  obtain q' where "dns_run q t = Some q'" using assms(1) unfolding s dns_run_append by (auto split: option.splits)
  then show ?thesis by (auto simp: s dns_run_append dns_step_def split: option.splits)
qed

lemma dns_subdomain_anywhere: "dns_subdomain s \<Longrightarrow> dns_run q s = Some After_Alnum"
  by (cases s) (auto simp: dns_subdomain_def dns_step_def split: option.splits if_splits)

lemma dns_run_take: "dns_run q s \<noteq> None \<Longrightarrow> dns_run q (take k s) \<noteq> None"
  using dns_run_append [of q "take k s" "drop k s"] by (auto split: option.splits)

section \<open>The names of the jobs\<close>

lemma whole_name:
  assumes "dns_subdomain (node_Name node)" "dns_subdomain (shim_Name shim)" "op = INSTALL \<or> op = UNINSTALL"
  shows "dns_subdomain (node_Name node @ ''-'' @ shim_Name shim @ ''-'' @ op)"
proof -
  have dash: "dns_run After_Alnum ''-'' = Some After_Dash" by code_simp
  have "dns_subdomain op" using assms(3) by (elim disjE) (simp only:, code_simp)+
  note run = dns_subdomain_anywhere [OF assms(1)] dns_subdomain_anywhere [OF assms(2)] dns_subdomain_anywhere [OF this]
  show ?thesis unfolding dns_subdomain_def dns_run_append run dash option.case by (rule refl)
qed

lemma job_name_valid:
  assumes "dns_subdomain (node_Name node)" "dns_subdomain (shim_Name shim)" "op = INSTALL \<or> op = UNINSTALL"
  shows "valid_job_name (job_name node shim op) \<longleftrightarrow> alnum (last (job_name node shim op))"
proof -
  have "dns_run At_Start (job_name node shim op) \<noteq> None"
    unfolding job_name_def using whole_name [OF assms] by (intro dns_run_take) (simp add: dns_subdomain_def)
  moreover have "job_name node shim op \<noteq> []" by (simp add: job_name_def K8sNameMaxLength_def)
  ultimately show ?thesis using dns_run_last job_name_le by (simp add: valid_job_name_def dns_subdomain_def)
qed

text \<open>
  C40. The names of the jobs, for a node and a shim whose names are DNS subdomains. A name that is not cut is valid; a name
  that is cut at 63 characters is valid exactly if it does not end in a dash or a dot there. The install
  and the uninstall job have the same name exactly when the two names and the two dashes fill the 63
  characters.
\<close>

theorem job_name_spec:
  assumes "dns_subdomain (node_Name node)" "dns_subdomain (shim_Name shim)" "op = INSTALL \<or> op = UNINSTALL"
  shows "(valid_job_name (job_name node shim op) \<longleftrightarrow> last (job_name node shim op) \<notin> {CHR ''-'', CHR ''.''})
    \<and> (length (node_Name node) + length (shim_Name shim) + length op + 2 \<le> 63 \<longrightarrow> valid_job_name (job_name node shim op))
    \<and> (job_name node shim INSTALL = job_name node shim UNINSTALL
         \<longleftrightarrow> length (node_Name node) + length (shim_Name shim) + 2 \<ge> 63)"
proof -
  have uncut: "valid_job_name (job_name node shim op)"
    if "length (node_Name node) + length (shim_Name shim) + length op + 2 \<le> 63"
  proof -
    have "job_name node shim op = node_Name node @ ''-'' @ shim_Name shim @ ''-'' @ op"
      using that by (simp add: job_name_def K8sNameMaxLength_def)
    then show ?thesis using whole_name [OF assms] that by (simp add: valid_job_name_def)
  qed
  have chars: "dns_run q s \<noteq> None \<Longrightarrow> c \<in> set s \<Longrightarrow> alnum c \<or> c \<in> {CHR ''-'', CHR ''.''}" for q s c
    by (induction s arbitrary: q) (auto simp: dns_step_def split: option.splits if_splits)
  have sep: "\<not> alnum (CHR ''-'')" "\<not> alnum (CHR ''.'')" by code_simp+
  have run: "dns_run At_Start (job_name node shim op) \<noteq> None"
    unfolding job_name_def using whole_name [OF assms] by (intro dns_run_take) (simp add: dns_subdomain_def)
  have "job_name node shim op \<noteq> []" by (simp add: job_name_def K8sNameMaxLength_def)
  from chars [OF run last_in_set [OF this]] sep
  have "alnum (last (job_name node shim op)) \<longleftrightarrow> last (job_name node shim op) \<notin> {CHR ''-'', CHR ''.''}" by auto
  with job_name_valid [OF assms] uncut job_name_collision [of node shim] show ?thesis by blast
qed

theorem job_name_spec_witness:
  "\<not> valid_job_name (job_name (demo_Node (replicate 50 (CHR ''a'')) []) (demo_Shim (replicate 11 (CHR ''b''))) INSTALL)
     \<and> valid_job_name (job_name (demo_Node ''node.example.com'' []) (demo_Shim ''spin-v2'') INSTALL)"
proof -
  let ?n = "demo_Node (replicate 50 (CHR ''a'')) []" and ?s = "demo_Shim (replicate 11 (CHR ''b''))"
  have dns: "dns_subdomain (node_Name ?n)" "dns_subdomain (shim_Name ?s)" by code_simp+
  have "last (job_name ?n ?s INSTALL) = CHR ''-''" by code_simp
  with job_name_spec [OF dns disjI1 [OF refl], THEN conjunct1] have "\<not> valid_job_name (job_name ?n ?s INSTALL)" by simp
  moreover have "dns_subdomain (node_Name (demo_Node ''node.example.com'' []))" "dns_subdomain (shim_Name (demo_Shim ''spin-v2''))"
    by code_simp+
  from job_name_spec [OF this disjI1 [OF refl], THEN conjunct2, THEN conjunct1] have "valid_job_name (job_name (demo_Node ''node.example.com'' []) (demo_Shim ''spin-v2'') INSTALL)"
    by (simp add: INSTALL_def)
  ultimately show ?thesis by blast
qed

end
