(* ===== verification/Host_History.thy ===== *)
theory Host_History
  imports Node_Installer
begin

text \<open>
  What a host holds after any sequence of runs of the node installer. The abstract state of a host is which
  shims are recorded, with their binaries, and the text of containerd's configuration; a successful run of
  \<open>RunInstall\<close> for one asset or of \<open>RunUninstall\<close> implements an operation on it.
\<close>

section \<open>The abstract host\<close>

text \<open>An operation has the options in the order in which the run visited them.\<close>

datatype host_cmd =
    Put string "(string \<times> string) list"
  | Drop string "(string \<times> string) list"

type_synonym host_view = "(string \<rightharpoonup> path) \<times> bytes"

fun effect :: "path \<Rightarrow> host_cmd \<Rightarrow> host_view \<Rightarrow> host_view" where
  "effect rcm (Put n order) (m, d) = (m(RuntimeName n \<mapsto> bin_path rcm n), add_text order (bin_path rcm n) d)"
| "effect rcm (Drop k order) (m, d) = (case m k of None \<Rightarrow> (m, d) | Some p \<Rightarrow> (m(k := None), remove_text order p d))"

definition shows_host :: "'w afero \<Rightarrow> path \<Rightarrow> path \<Rightarrow> 'w \<Rightarrow> host_view \<Rightarrow> bool" where
  "shows_host host rcm conf w v \<longleftrightarrow> host_ok host rcm w \<and> (\<lambda>k. map_option Path (recorded host rcm w k)) = fst v
     \<and> conf_text host conf w = Some (snd v)"

section \<open>Histories\<close>

definition two_files :: "'w afero \<Rightarrow> path \<Rightarrow> path \<Rightarrow> 'w \<Rightarrow> (error + bytes) \<times> (error + bytes)" where
  "two_files host rcm conf w = (fs_ReadFile host (lock_path rcm) w, fs_ReadFile host conf w)"

lemma two_files_eq: "two_files host rcm conf = (\<lambda>w. (fs_ReadFile host (lock_path rcm) w, fs_ReadFile host conf w))"
  by (simp add: two_files_def fun_eq_iff)

text \<open>
  Successful runs, in the order in which they happen, with commands and restarts that leave the lock file and the configuration
  alone; between two of them anything may happen that leaves the two files alone, so also a new set of assets.
\<close>

inductive history :: "'w afero \<Rightarrow> 'w afero \<Rightarrow> path \<Rightarrow> path \<Rightarrow> host_cmd list \<Rightarrow> 'w \<Rightarrow> 'w \<Rightarrow> bool"
  for host root rcm conf where
  begins: "history host root rcm conf [] w w"
| installs: "\<lbrakk>history host root rcm conf cmds w w1; RCM_Path config = rcm; Runtime_ConfigPath config = conf;
     installer_fs host root assets; asset_files root (RCM_AssetPath config) w1 = Inr ([f], assets); shim_file rcm (fi_Name f);
     \<forall>cmd. preserves (two_files host rcm conf) (os_Exec os cmd); preserves (two_files host rcm conf) restart;
     RunInstall os iter config root host restart w1 = (Ret None, w2)\<rbrakk>
    \<Longrightarrow> history host root rcm conf (cmds @ [Put (fi_Name f) (iter (bin_path rcm (fi_Name f)))]) w w2"
| uninstalls: "\<lbrakk>history host root rcm conf cmds w w1; RCM_Path config = rcm; Runtime_ConfigPath config = conf;
     preserves (two_files host rcm conf) restart; RunUninstall order config root host restart w1 = (Ret None, w2)\<rbrakk>
    \<Longrightarrow> history host root rcm conf (cmds @ [Drop (Runtime_Name config) order]) w w2"
| others: "\<lbrakk>history host root rcm conf cmds w w1; two_files host rcm conf w2 = two_files host rcm conf w1\<rbrakk>
    \<Longrightarrow> history host root rcm conf cmds w w2"

text \<open>Whether a shim is there, from what was done last about it.\<close>

fun present :: "host_cmd list \<Rightarrow> string \<Rightarrow> bool \<Rightarrow> bool" where
  "present [] k b = b"
| "present (Put n order # cmds) k b = present cmds k (RuntimeName n = k \<or> b)"
| "present (Drop n order # cmds) k b = present cmds k (n \<noteq> k \<and> b)"

lemma present_fold: "fst (fold (effect rcm) cmds v) k \<noteq> None \<longleftrightarrow> present cmds k (fst v k \<noteq> None)"
proof (induction cmds arbitrary: v)
  case (Cons cmd cmds)
  have "fst (effect rcm cmd v) k \<noteq> None \<longleftrightarrow> present [cmd] k (fst v k \<noteq> None)"
    by (cases cmd; cases v) (auto split: option.split)
  moreover have "present (cmd # cmds) k b = present cmds k (present [cmd] k b)" for b by (cases cmd) simp_all
  ultimately show ?case using Cons [of "effect rcm cmd v"] by simp
qed simp

lemma history_shows:
  assumes fs: "afero_fs host" "conf_outside rcm conf"
    and v: "shows_host host rcm conf w v" and "history host root rcm conf cmds w w'"
  shows "shows_host host rcm conf w' (fold (effect rcm) cmds v)"
  using assms(4,3)
proof (induction rule: history.induct)
  case (installs cmds w w1 config assets f os restart iter w2)
  obtain m d where md: "fold (effect rcm) cmds v = (m, d)" by fastforce
  with installs have w1: "host_ok host rcm w1" "(\<lambda>k. map_option Path (recorded host rcm w1 k)) = m" "conf_text host conf w1 = Some d"
    by (simp_all add: shows_host_def)
  from RunInstall_one [OF installs.hyps(4) fs(2) installs.hyps(2,3,5,6) w1(1,3) two_files_eq installs.hyps(7-9) refl]
  obtain x where "Path x = bin_path rcm (fi_Name f)" "recorded host rcm w2 = (recorded host rcm w1)(RuntimeName (fi_Name f) \<mapsto> x)"
    "host_ok host rcm w2" "conf_text host conf w2 = Some (add_text (iter (bin_path rcm (fi_Name f))) (bin_path rcm (fi_Name f)) d)"
    by (elim exE conjE)
  with w1(2) show ?case by (simp add: shows_host_def md fun_eq_iff)
next
  case (uninstalls cmds w w1 config restart order w2)
  obtain m d where md: "fold (effect rcm) cmds v = (m, d)" by fastforce
  with uninstalls have w1: "host_ok host rcm w1" "(\<lambda>k. map_option Path (recorded host rcm w1 k)) = m" "conf_text host conf w1 = Some d"
    by (simp_all add: shows_host_def)
  let ?k = "Runtime_Name config"
  from RunUninstall_one [OF fs uninstalls.hyps(2,3) refl w1(1) two_files_eq uninstalls.hyps(4,5)]
  obtain x where x: "recorded host rcm w1 ?k = Some x" "recorded host rcm w2 = (recorded host rcm w1)(?k := None)" "host_ok host rcm w2"
    "conf_text host conf w2 = Some (remove_text order (Path x) d)" using w1(3) by auto
  then have "m ?k = Some (Path x)" using w1(2) by auto
  with x w1(2) show ?case by (simp add: shows_host_def md fun_eq_iff)
next
  case (others cmds w w1 w2)
  then show ?case using same_files [OF two_files_eq, of host rcm conf w2 w1] by (simp add: shows_host_def)
qed simp

lemma shows_recorded: "shows_host host rcm conf w v \<Longrightarrow> fst v k \<noteq> None \<longleftrightarrow> recorded host rcm w k \<noteq> None"
proof -
  assume "shows_host host rcm conf w v"
  then have "(\<lambda>k. map_option Path (recorded host rcm w k)) = fst v" by (simp add: shows_host_def)
  from fun_cong [OF this, of k] show ?thesis by (metis option.map_disc_iff)
qed

lemma history_present:
  assumes "afero_fs host" "conf_outside rcm conf" "shows_host host rcm conf w v" "history host root rcm conf cmds w w'"
  shows "recorded host rcm w' k \<noteq> None \<longleftrightarrow> present cmds k (recorded host rcm w k \<noteq> None)"
  using present_fold [of rcm cmds v k] by (simp only: shows_recorded [OF history_shows [OF assms]] shows_recorded [OF assms(3)])

text \<open>
  C9. Any sequence of successful runs of the node installer on a host refines the sequence of their abstract operations:
  the lock file and the configuration hold what the operations make of them, one after the other. So a
  shim is recorded exactly if the last run about it installed it, or if there was none and it had been recorded
  before. (A run installs one asset, as the job's downloader leaves it, from a directory that the host's file system
  does not write to.)
\<close>

theorem host_history:
  assumes "afero_fs host" "conf_outside rcm conf"
    "shows_host host rcm conf w v" "history host root rcm conf cmds w w'"
  shows "shows_host host rcm conf w' (fold (effect rcm) cmds v)
    \<and> (\<forall>k. recorded host rcm w' k \<noteq> None \<longleftrightarrow> present cmds k (recorded host rcm w k \<noteq> None))"
  using history_shows [OF assms] history_present [OF assms] by blast

text \<open>
  A history after which a shim is recorded that the configuration does not mention: its name is part of the
  name of another runtime, so nothing was added for it, and then the other one was removed.
\<close>

lemma history_loses_runtime:
  "let (m, d) = fold (effect ''/opt/rcm'') [Put ''containerd-shim-spin-v2'' [], Put ''containerd-shim-spin'' [], Drop ''spin-v2'' []]
       (Map.empty, ''version = 2'')
   in m ''spin'' = Some ''/opt/rcm/bin/containerd-shim-spin'' \<and> m ''spin-v2'' = None \<and> d = ''version = 2''"
  by code_simp

theorem host_history_witness:
  "\<exists>w'. history (on_snd mem_fs) (on_fst mem_fs) ''/opt/rcm'' ''/etc/containerd/config.toml''
       [Put ''containerd-shim-spin-v2'' [], Drop ''spin-v2'' []] node_world w'
     \<and> recorded (on_snd mem_fs) ''/opt/rcm'' w' ''spin-v2'' = None
     \<and> conf_text (on_snd mem_fs) ''/etc/containerd/config.toml'' w' = Some ''version = 2''"
proof -
  let ?host = "on_snd mem_fs" and ?root = "on_fst mem_fs" and ?c = "''/etc/containerd/config.toml''"
  let ?h = "history ?host ?root ''/opt/rcm'' ?c"
  let ?cmds = "[Put ''containerd-shim-spin-v2'' [], Drop ''spin-v2'' []]"
  obtain m x where inst: "RunInstall quiet_os (\<lambda>_. []) node_config ?root ?host (\<lambda>w. (None, w)) node_world = (Ret None, (fst node_world, m))"
    and m: "host_ready ''/opt/rcm'' ''containerd-shim-spin-v2'' m" "\<not> mem_isdir ?c m" "mem_get ?c m = Some (add_text [] spin_bin ''version = 2'')"
    "host_ok ?host ''/opt/rcm'' (fst node_world, m)" "Path x = spin_bin"
    "recorded ?host ''/opt/rcm'' (fst node_world, m) ''spin-v2'' = Some x"
    using node_RunInstall [of "\<lambda>_. []" None] by (auto simp: wrap_err_def)
  from node_RunUninstall [OF m] obtain w2 where
    un: "RunUninstall [] node_uninstall ?root ?host (\<lambda>w. (None, w)) (fst node_world, m) = (Ret None, w2)" by blast
  have sf: "fi_Name spin_file = ''containerd-shim-spin-v2''" by (simp add: spin_file_def)
  have quiet: "\<forall>cmd. preserves P (os_Exec quiet_os cmd)" "preserves P (\<lambda>w. (None, w))"
    for P :: "mem \<times> mem \<Rightarrow> _" by (simp_all add: preserves_def quiet_os_def)
  have one: "?h ([] @ [Put (fi_Name spin_file) ((\<lambda>_. []) (bin_path ''/opt/rcm'' (fi_Name spin_file)))]) node_world (fst node_world, m)"
    by (rule history.installs [OF history.begins node_config_simps(1,2) installer_mem.installer_fs_axioms node_assets _ quiet inst]) (use demo_shim_file sf in simp)
  have hist: "?h ?cmds node_world w2"
    using history.uninstalls [OF one node_uninstall_simps(1,2) quiet(2) un] by (simp add: sf node_uninstall_simps)
  have v: "shows_host ?host ''/opt/rcm'' ?c node_world (Map.empty, ''version = 2'')"
    using node_world_ok by (simp add: shows_host_def conf_text_def on_snd_def mem_fs_def mem_ReadFile_def)
  note shown = host_history [OF host_mem.afero_fs_axioms node_conf_outside v hist]
  have "recorded ?host ''/opt/rcm'' w2 ''spin-v2'' \<noteq> None \<longleftrightarrow> present ?cmds ''spin-v2'' (recorded ?host ''/opt/rcm'' node_world ''spin-v2'' \<noteq> None)"
    using shown by blast
  moreover have "\<not> present ?cmds ''spin-v2'' b" for b by simp
  moreover have "snd (fold (effect ''/opt/rcm'') ?cmds (Map.empty, ''version = 2'')) = ''version = 2''" by code_simp
  moreover from shown have "conf_text ?host ?c w2 = Some (snd (fold (effect ''/opt/rcm'') ?cmds (Map.empty, ''version = 2'')))"
    by (simp only: shows_host_def)
  ultimately show ?thesis using hist by (intro exI [of _ w2]) simp
qed

end
