(* ===== verification/Job_History.thy ===== *)
theory Job_History
  imports Host_History Node_Command
begin

text \<open>
  The pods of the controller's jobs on one host, one after the other: what the lock file says after them. The program of a pod is
  \<open>Execute\<close> with the arguments of the job; its successful runs are a history in the sense of \<open>Host_History\<close>.
\<close>

section \<open>What a pod finds\<close>

text \<open>The binary of a shim.\<close>

definition binary_of :: "string \<Rightarrow> string" where
  "binary_of s = ''containerd-shim-'' @ s"

lemma RuntimeName_binary [simp]: "RuntimeName (binary_of s) = s"
  unfolding binary_of_def by (rule RuntimeName_asset)

text \<open>The downloader of an install job has left the binary of the shim.\<close>

definition delivered :: "'w afero \<Rightarrow> string \<Rightarrow> 'w \<Rightarrow> bool" where
  "delivered root s w \<longleftrightarrow> (\<exists>f. asset_files root ''/assets'' w = Inr ([f], ''/assets'') \<and> fi_Name f = binary_of s
     \<and> shim_file ''/opt/rcm'' (fi_Name f))"

text \<open>The distribution is detected, with the same configuration file every time, and needs no setup; commands and restarts write neither file.\<close>

definition known_distro :: "'w host_os \<Rightarrow> (path \<times> 'w Settings) list \<Rightarrow> 'w afero \<Rightarrow> path \<Rightarrow> 'w \<Rightarrow> bool" where
  "known_distro os locs host conf w \<longleftrightarrow> (\<exists>distro. DetectDistro locs auto_config host w = Inr distro \<and> ConfigPath distro = conf
     \<and> Setup distro \<lparr>HostFs = host, env_ConfigPath = ConfigPath distro\<rparr> w = (None, w)
     \<and> preserves (two_files host ''/opt/rcm'' conf) (Restart os (Restarter_of distro)))
     \<and> (\<forall>cmd. preserves (two_files host ''/opt/rcm'' conf) (os_Exec os cmd))"

inductive pods :: "'w afero \<Rightarrow> ('w afero \<Rightarrow> path \<Rightarrow> 'w afero) \<Rightarrow> path \<Rightarrow> (string \<times> string) list \<Rightarrow> 'w \<Rightarrow> 'w \<Rightarrow> bool"
  for root base conf where
  no_pod: "pods root base conf [] w w"
| pod: "\<lbrakk>pods root base conf ps w w1; op = INSTALL \<and> delivered root s w1 \<or> op = UNINSTALL;
     known_distro os locs (base root ''/mnt/node-root'') conf w1;
     cobra_laws cobra; v_ReadInConfig v \<in> {None, Some ConfigFileNotFoundError}; v_IsSet v = (\<lambda>_. False);
     Execute cobra v (run_command os locs iter order root base) (job_args op s) w1 = (Ret 0, w2)\<rbrakk>
    \<Longrightarrow> pods root base conf (ps @ [(op, s)]) w w2"
| between: "\<lbrakk>pods root base conf ps w w1;
     two_files (base root ''/mnt/node-root'') ''/opt/rcm'' conf w2 = two_files (base root ''/mnt/node-root'') ''/opt/rcm'' conf w1\<rbrakk>
    \<Longrightarrow> pods root base conf ps w w2"

section \<open>Their history\<close>

fun pod_cmd :: "string \<times> string \<Rightarrow> host_cmd \<Rightarrow> bool" where
  "pod_cmd (op, s) (Put n order) \<longleftrightarrow> op = INSTALL \<and> n = binary_of s"
| "pod_cmd (op, s) (Drop k order) \<longleftrightarrow> op = UNINSTALL \<and> k = s"

lemma distro_path: "Runtime_ConfigPath c = [] \<Longrightarrow> DetectDistro locs c host w = DetectDistro locs auto_config host w"
  by (rule DetectDistro_path) (simp add: auto_path)

lemma install_pod:
  assumes hist: "history host root ''/opt/rcm'' conf cmds w w1" and host: "host = base root ''/mnt/node-root''"
    and fs: "installer_fs host root ''/assets''"
    and found: "delivered root s w1" "known_distro os locs host conf w1"
    and lib: "cobra_laws cobra" "v_ReadInConfig v \<in> {None, Some ConfigFileNotFoundError}" "v_IsSet v = (\<lambda>_. False)"
    and run: "Execute cobra v (run_command os locs iter order root base) (job_args INSTALL s) w1 = (Ret 0, w2)"
  shows "\<exists>cmd. pod_cmd (INSTALL, s) cmd \<and> history host root ''/opt/rcm'' conf (cmds @ [cmd]) w w2"
proof -
  obtain f where f: "asset_files root ''/assets'' w1 = Inr ([f], ''/assets'')" "fi_Name f = binary_of s" "shim_file ''/opt/rcm'' (fi_Name f)"
    using found(1) by (auto simp: delivered_def)
  obtain distro where distro: "DetectDistro locs auto_config host w1 = Inr distro" "ConfigPath distro = conf"
    "Setup distro \<lparr>HostFs = host, env_ConfigPath = ConfigPath distro\<rparr> w1 = (None, w1)"
    and quiet: "\<forall>cmd. preserves (two_files host ''/opt/rcm'' conf) (os_Exec os cmd)"
      "preserves (two_files host ''/opt/rcm'' conf) (Restart os (Restarter_of distro))"
    using found(2) by (auto simp: known_distro_def)
  obtain c where c: "Execute cobra v (run_command os locs iter order root base) (job_args INSTALL s) w1
      = run_command os locs iter order root base InstallCommand c w1" "Host_RootPath c = ''/mnt/node-root''"
    "RCM_Path c = ''/opt/rcm''" "Runtime_ConfigPath c = []" "RCM_AssetPath c = ''/assets''"
    by (rule args_command [OF lib(1) _ lib(2,3), of INSTALL InstallCommand]) simp_all
  have "installCmd os locs iter root base c w1 = (Ret 0, w2)" using run c(1) by (simp add: run_command_def)
  from installCmd_success [OF this] distro(1,3) c(2,4) host obtain options where
    run1: "RunInstall os iter (c\<lparr>Runtime_ConfigPath := ConfigPath distro, Runtime_Options := options\<rparr>) root host (Restart os (Restarter_of distro)) w1 = (Ret None, w2)"
    by (auto simp: distro_path)
  have "history host root ''/opt/rcm'' conf (cmds @ [Put (fi_Name f) (iter (bin_path ''/opt/rcm'' (fi_Name f)))]) w w2"
    by (rule history.installs [OF hist _ _ fs _ f(3) quiet run1]) (simp_all add: c distro(2) f(1))
  then show ?thesis by (intro exI conjI) (use f(2) in simp_all)
qed

lemma uninstall_pod:
  assumes hist: "history host root ''/opt/rcm'' conf cmds w w1" and host: "host = base root ''/mnt/node-root''"
    and found: "known_distro os locs host conf w1"
    and lib: "cobra_laws cobra" "v_ReadInConfig v \<in> {None, Some ConfigFileNotFoundError}" "v_IsSet v = (\<lambda>_. False)"
    and run: "Execute cobra v (run_command os locs iter order root base) (job_args UNINSTALL s) w1 = (Ret 0, w2)"
  shows "\<exists>cmd. pod_cmd (UNINSTALL, s) cmd \<and> history host root ''/opt/rcm'' conf (cmds @ [cmd]) w w2"
proof -
  obtain distro where distro: "DetectDistro locs auto_config host w1 = Inr distro" "ConfigPath distro = conf"
    and quiet: "preserves (two_files host ''/opt/rcm'' conf) (Restart os (Restarter_of distro))"
    using found by (auto simp: known_distro_def)
  obtain c where c: "Execute cobra v (run_command os locs iter order root base) (job_args UNINSTALL s) w1
      = run_command os locs iter order root base UninstallCommand c w1" "Host_RootPath c = ''/mnt/node-root''"
    "Runtime_Name c = s" "RCM_Path c = ''/opt/rcm''" "Runtime_ConfigPath c = []"
    by (rule args_command [OF lib(1) _ lib(2,3), of UNINSTALL UninstallCommand]) simp_all
  have "uninstallCmd os locs order root base c w1 = (Ret 0, w2)" using run c(1) by (simp add: run_command_def)
  from uninstallCmd_success [OF this] distro(1) c(2,5) host obtain options where
    run1: "RunUninstall order (c\<lparr>Runtime_ConfigPath := ConfigPath distro, Runtime_Options := options\<rparr>) root host (Restart os (Restarter_of distro)) w1 = (Ret None, w2)"
    by (auto simp: distro_path)
  have "history host root ''/opt/rcm'' conf
      (cmds @ [Drop (Runtime_Name (c\<lparr>Runtime_ConfigPath := ConfigPath distro, Runtime_Options := options\<rparr>)) order]) w w2"
    by (rule history.uninstalls [OF hist _ _ quiet run1]) (simp_all add: c distro(2))
  then show ?thesis by (intro exI conjI) (use c(3) in simp_all)
qed

lemma pods_history:
  assumes "installer_fs (base root ''/mnt/node-root'') root ''/assets''"
  shows "pods root base conf ps w w' \<Longrightarrow> \<exists>cmds. list_all2 pod_cmd ps cmds \<and> history (base root ''/mnt/node-root'') root ''/opt/rcm'' conf cmds w w'"
proof (induction rule: pods.induct)
  case (no_pod w)
  show ?case by (rule exI [of _ "[]"]) (simp add: history.begins)
next
  case (pod ps w w1 op s os locs cobra v iter order w2)
  from pod.IH obtain cmds where cmds: "list_all2 pod_cmd ps cmds" "history (base root ''/mnt/node-root'') root ''/opt/rcm'' conf cmds w w1" by (elim exE conjE)
  have "\<exists>cmd. pod_cmd (op, s) cmd \<and> history (base root ''/mnt/node-root'') root ''/opt/rcm'' conf (cmds @ [cmd]) w w2"
    using pod.hyps(2)
  proof
    assume op: "op = INSTALL \<and> delivered root s w1"
    then show ?thesis using install_pod [where base = base and s = s and iter = iter and order = order and ?w2.0 = w2, OF cmds(2) refl assms _ pod.hyps(3-6)] pod.hyps(7) by simp
  next
    assume "op = UNINSTALL"
    then show ?thesis using uninstall_pod [where base = base and s = s and iter = iter and order = order and ?w2.0 = w2, OF cmds(2) refl pod.hyps(3-6)] pod.hyps(7) by simp
  qed
  then obtain cmd where cmd: "pod_cmd (op, s) cmd" "history (base root ''/mnt/node-root'') root ''/opt/rcm'' conf (cmds @ [cmd]) w w2" by (elim exE conjE)
  from cmds(1) cmd(1) have "list_all2 pod_cmd (ps @ [(op, s)]) (cmds @ [cmd])" by (simp add: list_all2_appendI)
  with cmd(2) show ?case by (intro exI conjI)
next
  case (between ps w w1 w2)
  from between.IH obtain cmds where "list_all2 pod_cmd ps cmds" "history (base root ''/mnt/node-root'') root ''/opt/rcm'' conf cmds w w1"
    by (elim exE conjE)
  with history.others [OF this(2) between.hyps(2)] show ?case by (intro exI conjI)
qed

lemma present_pods:
  "list_all2 pod_cmd ps cmds \<Longrightarrow> present cmds s b = (case find (\<lambda>p. snd p = s) (rev ps) of None \<Rightarrow> b | Some p \<Rightarrow> fst p = INSTALL)"
proof (induction arbitrary: b rule: list_all2_induct)
  case (Cons p ps cmd cmds)
  have found: "find P (xs @ [x]) = (case find P xs of None \<Rightarrow> if P x then Some x else None | Some y \<Rightarrow> Some y)" for P xs and x :: "string \<times> string"
    by (induction xs) simp_all
  show ?case using Cons
    by (cases p; cases cmd) (auto simp: found INSTALL_def UNINSTALL_def split: option.split)
qed simp

text \<open>
  C13. After any number of pods of the controller's jobs that ran on a host and exited with status 0, in any order and for any
  shims, the lock file records a shim exactly if the last pod about it was that of an install job, or if there was none and
  it was recorded before. Every pod has an environment and map orders of its own. (The downloader has left the shim's binary in
  \<open>/assets\<close>, to which nothing is written through the mounted host, no environment variable or configuration
  file overrides a flag, the distribution needs no setup, and commands and restarts write neither of the two files.)
\<close>

theorem jobs_on_host:
  assumes "installer_fs (base root ''/mnt/node-root'') root ''/assets''" "conf_outside ''/opt/rcm'' conf"
    "host_ok (base root ''/mnt/node-root'') ''/opt/rcm'' w" "conf_text (base root ''/mnt/node-root'') conf w = Some d"
    "pods root base conf ps w w'"
  shows "recorded (base root ''/mnt/node-root'') ''/opt/rcm'' w' s \<noteq> None
    \<longleftrightarrow> (case find (\<lambda>p. snd p = s) (rev ps) of
           None \<Rightarrow> recorded (base root ''/mnt/node-root'') ''/opt/rcm'' w s \<noteq> None
         | Some p \<Rightarrow> fst p = INSTALL)"
proof -
  let ?host = "base root ''/mnt/node-root''"
  from pods_history [OF assms(1,5)] obtain cmds where cmds: "list_all2 pod_cmd ps cmds" "history ?host root ''/opt/rcm'' conf cmds w w'" by (elim exE conjE)
  have "shows_host ?host ''/opt/rcm'' conf w (\<lambda>k. map_option Path (recorded ?host ''/opt/rcm'' w k), d)"
    using assms(3,4) by (simp add: shows_host_def)
  from history_present [OF installer_fs.axioms(1) [OF assms(1)] assms(2) this cmds(2), of s] present_pods [OF cmds(1), of s "recorded ?host ''/opt/rcm'' w s \<noteq> None"]
  show ?thesis by simp
qed

lemma demo_known:
  assumes "DetectDistro containerdConfigLocations auto_config (on_snd mem_fs) w = Inr (Default :: (mem \<times> mem) Settings)"
  shows "known_distro (container_os signal_os ctr) containerdConfigLocations (base_path demo_root ''/mnt/node-root'') ''/etc/containerd/config.toml'' w"
proof -
  let ?os = "container_os signal_os ctr :: (mem \<times> mem) host_os"
  have "preserves P (Restart ?os (Restarter_of (Default :: (mem \<times> mem) Settings)))" for P :: "mem \<times> mem \<Rightarrow> _"
    unfolding Default_simps signal_restart by (simp add: preserves_def)
  moreover have "\<forall>cmd. preserves P (os_Exec ?os cmd)" for P :: "mem \<times> mem \<Rightarrow> _"
    by (simp add: preserves_def signal_os_def quiet_os_def)
  ultimately show ?thesis using assms Default_simps unfolding known_distro_def demo_host by (intro conjI exI [of _ Default])
qed

theorem jobs_on_host_witness:
  "\<exists>w1 w2. pods demo_root base_path ''/etc/containerd/config.toml'' [(INSTALL, ''spin-v2'')] node_world w1
     \<and> recorded (base_path demo_root ''/mnt/node-root'') ''/opt/rcm'' w1 ''spin-v2'' \<noteq> None
     \<and> pods demo_root base_path ''/etc/containerd/config.toml'' [(INSTALL, ''spin-v2''), (UNINSTALL, ''spin-v2'')] node_world w2
     \<and> recorded (base_path demo_root ''/mnt/node-root'') ''/opt/rcm'' w2 ''spin-v2'' = None"
proof -
  let ?host = "on_snd mem_fs" and ?c = "''/etc/containerd/config.toml''"
  let ?pods = "pods demo_root base_path ?c"
  obtain ci where ci: "demo_ctr INSTALL ci" by (rule demo_jobs [OF disjI1 [OF refl]])
  obtain cu where cu: "demo_ctr UNINSTALL cu" by (rule demo_jobs [OF disjI2 [OF refl]])
  obtain m x where run1: "demo_prog ci node_world = (Ret 0, (fst node_world, m))"
    and m: "host_ready ''/opt/rcm'' ''containerd-shim-spin-v2'' m" "\<not> mem_isdir ?c m"
    "mem_get ?c m = Some (add_text [] spin_bin ''version = 2'')" "host_ok ?host ''/opt/rcm'' (fst node_world, m)" "Path x = spin_bin"
    "recorded ?host ''/opt/rcm'' (fst node_world, m) ''spin-v2'' = Some x" "same_elsewhere m" by (rule demo_install [OF ci])
  obtain w2 where run2: "demo_prog cu (fst node_world, m) = (Ret 0, w2)" by (rule demo_uninstall [OF cu m])
  have args: "ctr_Args ci = job_args INSTALL ''spin-v2''" "ctr_Args cu = job_args UNINSTALL ''spin-v2''"
    using ci cu by (simp_all add: demo_ctr_def)
  have sf: "fi_Name spin_file = binary_of ''spin-v2''" by (simp add: spin_file_def binary_of_def)
  have del: "delivered demo_root ''spin-v2'' node_world"
    unfolding delivered_def using demo_files sf demo_shim_file by (intro exI [of _ spin_file]) (simp add: spin_file_def)
  have "?pods ([] @ [(INSTALL, ''spin-v2'')]) node_world (fst node_world, m)"
    by (rule pods.pod [where v = demo_viper, OF pods.no_pod _ demo_known [OF node_detected [OF some_order]] simple_cobra.cobra_laws_axioms _ _
          run1 [unfolded demo_prog_def args]]) (use del in simp_all)
  then have one: "?pods [(INSTALL, ''spin-v2'')] node_world (fst node_world, m)" by simp
  have "?pods ([(INSTALL, ''spin-v2'')] @ [(UNINSTALL, ''spin-v2'')]) node_world w2"
    by (rule pods.pod [where v = demo_viper, OF one _ demo_known [OF mem_detected [OF m(3,7) some_order]] simple_cobra.cobra_laws_axioms _ _
          run2 [unfolded demo_prog_def args]]) simp_all
  then have two: "?pods [(INSTALL, ''spin-v2''), (UNINSTALL, ''spin-v2'')] node_world w2" by simp
  have d: "conf_text ?host ?c node_world = Some ''version = 2''"
    using node_world_ok(5) by (simp add: conf_text_def on_snd_def mem_fs_def mem_ReadFile_def)
  note says = jobs_on_host [where base = base_path, OF demo_installer node_conf_outside, unfolded demo_host, OF node_world_ok(1) d]
  from says [OF one, of "''spin-v2''"] have 1: "recorded ?host ''/opt/rcm'' (fst node_world, m) ''spin-v2'' \<noteq> None" by simp
  from says [OF two, of "''spin-v2''"] have 2: "recorded ?host ''/opt/rcm'' w2 ''spin-v2'' = None" by (simp add: INSTALL_def UNINSTALL_def)
  show ?thesis unfolding demo_host by (rule exI, rule exI, rule conjI [OF one conjI [OF 1 conjI [OF two 2]]])
qed

end
