(* ===== verification/Fixture_Fs.thy ===== *)
theory Fixture_Fs
  imports Shim_Install
begin

text \<open>
  The helper of the tests, \<open>tests/node-installer/fs.go\<close>: a directory of fixtures is copied into a file system
  in memory. What \<open>afero.Walk\<close> visits, in its order, is a parameter.
\<close>

section \<open>The model\<close>

record fs_visit =
  vi_Path :: path
  vi_Info :: file_info
  vi_Err :: "error option"

definition FixtureFs_visit :: "'w afero \<Rightarrow> 'w afero \<Rightarrow> fs_visit \<Rightarrow> 'w \<Rightarrow> error option \<times> 'w" where
  "FixtureFs_visit baseFs fs v w =
     (case vi_Err v of
        Some err \<Rightarrow> (Some err, w)
      | None \<Rightarrow>
          if fi_IsDir (vi_Info v) then fs_MkdirAll fs (vi_Path v) 493 w
          else (case fs_OpenFile baseFs (vi_Path v) [O_RDONLY] 0 w of
                  (Some err, w1) \<Rightarrow> (Some err, w1)
                | (None, w1) \<Rightarrow>
                    (case fs_Create fs (vi_Path v) w1 of
                       (Some err, w2) \<Rightarrow> (Some err, w2)
                     | (None, w2) \<Rightarrow>
                         (case fs_Blocks baseFs (vi_Path v) w2 of (bs, readErr) \<Rightarrow>
                          case io_Copy fs (vi_Path v) bs readErr [] w2 of
                            (err, _, w3) \<Rightarrow> (err, w3)))))"

text \<open>The walk stops at the first error, which makes the helper panic.\<close>

fun FixtureFs :: "'w afero \<Rightarrow> 'w afero \<Rightarrow> fs_visit list \<Rightarrow> 'w \<Rightarrow> unit outcome \<times> 'w" where
  "FixtureFs baseFs fs [] w = (Ret (), w)"
| "FixtureFs baseFs fs (v # vs) w =
     (case FixtureFs_visit baseFs fs v w of
        (Some err, w1) \<Rightarrow> (Panic ''failed to walk the fixtures'', w1)
      | (None, w1) \<Rightarrow> FixtureFs baseFs fs vs w1)"

section \<open>The copy\<close>

lemma under_slash: "under ''/'' q"
proof -
  have "segs ''/'' = []" by code_simp
  then show ?thesis by (simp only: under_def) simp
qed

text \<open>The fixtures are in a file system of their own, so no path of it changes.\<close>

locale fixture_fs = installer_fs fs baseFs "''/''"
  for fs baseFs :: "'w afero" +
  assumes sep_Create: "fs_Create fs p w = (r, w') \<Longrightarrow> fs_Blocks baseFs q w' = fs_Blocks baseFs q w"
begin

lemma sep_Copy: "io_Copy fs p bs re h w = (e, h', w') \<Longrightarrow> fs_Blocks baseFs q w' = fs_Blocks baseFs q w"
  using shim_host.sep_io_Copy [of fs baseFs "''/''"] shim_host_iff [of fs baseFs "''/''"] installer_fs_axioms under_slash by blast

lemma visit_frame:
  assumes "FixtureFs_visit baseFs fs v w = (e, w')"
  shows "fs_Blocks baseFs q w' = fs_Blocks baseFs q w"
    "\<not> under q (vi_Path v) \<Longrightarrow> fs_ReadFile fs q w' = fs_ReadFile fs q w"
proof -
  have "fs_Blocks baseFs q w' = fs_Blocks baseFs q w \<and> (\<not> under q (vi_Path v) \<longrightarrow> fs_ReadFile fs q w' = fs_ReadFile fs q w)"
  proof (cases "vi_Err v = None \<and> \<not> fi_IsDir (vi_Info v)")
    case True
    obtain r1 w1 where op: "fs_OpenFile baseFs (vi_Path v) [O_RDONLY] 0 w = (r1, w1)" by fastforce
    obtain r2 w2 where cr: "fs_Create fs (vi_Path v) w = (r2, w2)" by fastforce
    obtain bs re where bl: "fs_Blocks baseFs (vi_Path v) w2 = (bs, re)" by fastforce
    obtain e3 h w3 where cp: "io_Copy fs (vi_Path v) bs re [] w2 = (e3, h, w3)" by (metis surj_pair)
    have w1: "w1 = w" by (rule root_OpenRead [OF op])
    have "w' = w \<or> w' = w2 \<or> w' = w3"
      using assms True op cr bl cp unfolding w1 by (auto simp: FixtureFs_visit_def split: option.splits)
    then show ?thesis
      using sep_Create [OF cr] sep_Copy [OF cp] frame_Create [OF cr, of q] io_Copy_frame [OF cp, of q] by auto
  next
    case False
    then have "w' = w \<or> fs_MkdirAll fs (vi_Path v) 493 w = (e, w')"
      using assms by (auto simp: FixtureFs_visit_def split: option.splits if_splits)
    then show ?thesis using sep_MkdirAll [OF _ under_slash] frame_MkdirAll by blast
  qed
  then show "fs_Blocks baseFs q w' = fs_Blocks baseFs q w" "\<not> under q (vi_Path v) \<Longrightarrow> fs_ReadFile fs q w' = fs_ReadFile fs q w"
    by simp_all
qed

lemma visit_copies:
  assumes "FixtureFs_visit baseFs fs v w = (None, w')" "\<not> fi_IsDir (vi_Info v)"
  shows "\<exists>bs. fs_Blocks baseFs (vi_Path v) w = (bs, None) \<and> fs_ReadFile fs (vi_Path v) w' = Inr (concat bs)"
proof -
  obtain w2 bs re h where w2: "fs_Create fs (vi_Path v) w = (None, w2)" "fs_Blocks baseFs (vi_Path v) w2 = (bs, re)"
    "io_Copy fs (vi_Path v) bs re [] w2 = (None, h, w')"
    using assms by (auto simp: FixtureFs_visit_def split: option.splits if_splits prod.splits dest: root_OpenRead)
  from io_Copy_ok [OF w2(3) read_Create [OF w2(1)]] w2(2) sep_Create [OF w2(1)] show ?thesis by auto
qed

text \<open>
  A helper that returns has copied every file: no path of a file leads to a path that is visited later.
\<close>

lemma FixtureFs_copies:
  "FixtureFs baseFs fs vs w = (Ret (), w') \<Longrightarrow> sorted_wrt (\<lambda>v v'. fi_IsDir (vi_Info v) \<or> \<not> under (vi_Path v) (vi_Path v')) vs
    \<Longrightarrow> \<forall>v \<in> set vs. fi_IsDir (vi_Info v)
         \<or> (\<exists>bs. fs_Blocks baseFs (vi_Path v) w = (bs, None) \<and> fs_ReadFile fs (vi_Path v) w' = Inr (concat bs))"
proof (induction vs arbitrary: w)
  case (Cons v vs)
  obtain w1 where v: "FixtureFs_visit baseFs fs v w = (None, w1)" and rest: "FixtureFs baseFs fs vs w1 = (Ret (), w')"
    using Cons.prems(1) by (auto split: prod.splits option.splits)
  have keep: "fs_ReadFile fs p u' = fs_ReadFile fs p u"
    if "FixtureFs baseFs fs xs u = (Ret (), u')" "\<forall>x \<in> set xs. \<not> under p (vi_Path x)" for p xs u u'
    using that
  proof (induction xs arbitrary: u)
    case (Cons x xs)
    from Cons.prems(1) obtain u1 where "FixtureFs_visit baseFs fs x u = (None, u1)" "FixtureFs baseFs fs xs u1 = (Ret (), u')"
      by (auto split: prod.splits option.splits)
    with Cons.IH [of u1] Cons.prems(2) visit_frame(2) [of x u None u1 p] show ?case by simp
  qed simp
  have head: "fi_IsDir (vi_Info v) \<or> (\<exists>bs. fs_Blocks baseFs (vi_Path v) w = (bs, None) \<and> fs_ReadFile fs (vi_Path v) w' = Inr (concat bs))"
  proof (cases "fi_IsDir (vi_Info v)")
    case False
    then have "\<forall>x \<in> set vs. \<not> under (vi_Path v) (vi_Path x)" using Cons.prems(2) by simp
    from keep [OF rest this] visit_copies [OF v False] show ?thesis by simp
  qed simp
  from Cons.IH [OF rest] Cons.prems(2) head visit_frame(1) [OF v] show ?case by simp
qed simp

end

interpretation fixture_mem: fixture_fs "on_snd mem_fs" "on_fst mem_fs :: (mem \<times> mem) afero"
  by unfold_locales (auto simp: on_snd_def on_fst_def apsnd_Pair_iff)

end
