(* ===== verification/Spec2Isabelle.thy ===== *)
theory Spec2Isabelle
  imports Fleet Shim_Reconcile Manager Deep_Copy Removal Late_Report Retry Call_Bounds Job_Names Job_History Fixture_Fs
begin

text \<open>
  The runtime class manager is a Kubernetes operator that installs containerd shims on nodes. It has two
  halves. The operator (\<open>internal/controller\<close>, types in \<open>api/v1alpha1\<close>) reconciles \<open>Shim\<close> resources: it
  lists the nodes of a shim, labels them, sends one install or uninstall job per node, creates the runtime
  class, and a second reconciler turns the outcome of a job into a label of the node. The node installer
  (\<open>cmd/node-installer\<close> over \<open>internal/shim\<close>, \<open>internal/state\<close>, \<open>internal/containerd\<close> and
  \<open>internal/preset\<close>) is the program these jobs run: it copies the shim's binary to the host, records it
  in a lock file, edits containerd's configuration and restarts containerd. The halves meet in the job: its
  arguments, its environment (\<open>HOST_ROOT\<close>, \<open>RUNTIME_OPTIONS\<close>), its label and its annotations.

  \<^bold>\<open>Prelude and Go library.\<close> \<open>RCM_Prelude\<close>: bytes, errors as values with wrapping (\<open>error\<close>), calls that
  may panic (\<open>outcome\<close>), Go maps that may be nil (\<open>gomap\<close>), lemmas on lists and maps. \<open>Go_Strings\<close>,
  \<open>Go_Path\<close>, \<open>Go_Json\<close>, \<open>Go_Sha256\<close>: what the source uses of Go's \<open>strings\<close>, \<open>unicode/utf8\<close>, \<open>path\<close>,
  \<open>encoding/json\<close>, \<open>encoding/hex\<close> and \<open>crypto/sha256\<close> (on 32-bit words), with the round trip of the JSON
  encoding. The JSON parser runs on fuel, twice the length of the input and two more;
  \<open>parse_fuel_enough\<close> shows that more fuel never changes the result, and nesting is bounded by
  \<open>max_depth\<close> (10000) as in Go.

  \<^bold>\<open>Node installer.\<close> \<open>Afero\<close>: the file-system interface as a record of functions over a world \<open>'w\<close>, the laws
  the source relies on as locales (\<open>afero_fs\<close>: one file system; \<open>installer_fs\<close>: what is written to the host does not change what
  is read below the directory of the assets), a file system in memory as their interpretation, and \<open>NewBasePathFs\<close> on a root file
  system that has the host mounted at a directory (\<open>base_path\<close>, \<open>mount_fs\<close>), as a pod has it: writes to the host are writes to the
  root file system there, and the laws hold for assets outside the mount point (\<open>mounted_installer\<close>). \<open>Lock_State\<close>: \<open>internal/state\<close>, the lock file down to its bytes. \<open>Shim_Install\<close>:
  \<open>internal/shim\<close>, Install and Uninstall. \<open>Containerd_Config\<close>: \<open>configure.go\<close>, the text of a runtime and its
  insertion and removal, against pure functions on texts. \<open>Containerd_Restart\<close>: \<open>restart_unix.go\<close>, \<open>restart_windows.go\<close> and
  \<open>install_dbus.go\<close> over an operating system that runs commands, as a record again, with a log of the
  commands and signals. \<open>Preset\<close>: \<open>preset.go\<close>, \<open>config.go\<close>, \<open>detect.go\<close>; the map of known paths is
  visited in an arbitrary order, which is a parameter. \<open>Node_Installer\<close>: \<open>install.go\<close>, \<open>uninstall.go\<close> and
  the binding of flags of \<open>root.go\<close>. \<open>Node_Command\<close>: the flags of the commands, \<open>Execute\<close>, and what the container of a
  job runs, with the environment of the container (\<open>container_os\<close>). \<open>Host_History\<close>: any sequence of successful runs on a host, against operations on an abstract host (the recorded
  binaries and the text of the configuration). \<open>Job_History\<close>: the pods of the controller's jobs as such a
  sequence. A function \<open>f(args) error\<close> of the source that touches the world is
  \<open>f args w = (error option, w')\<close> here.

  \<^bold>\<open>Operator.\<close> \<open>Shim_Types\<close>: \<open>shim_types.go\<close> and the fields of the Kubernetes objects that are used.
  \<open>Kube_Client\<close>: the API client as a record of functions over a cluster state \<open>'c\<close> in which every call may
  fail and may find the cluster changed; its laws (\<open>kube_helpers\<close>); \<open>logging\<close>, which adds to any client
  the log of its calls; an API server in memory with optimistic locking, finalizers, immutable pod
  templates and refused jobs. \<open>Job_Manifest\<close>: the choice of the artifact and the manifests. \<open>Job_Names\<close>: which names of jobs are
  valid.
  \<open>Shim_Controller\<close>: every operation of \<open>shim_controller.go\<close> up to \<open>Reconcile\<close> with its deferred call and
  \<open>findShimsToReconcile\<close>. \<open>Shim_Reconcile\<close>: the logs of whole runs. \<open>Job_Controller\<close>: \<open>job_controller.go\<close>.
  \<open>Kube_Invariant\<close>: what a client and an invariant have to promise so that both reconcilers keep the
  invariant (\<open>kube_inv\<close>). \<open>Kube_Replay\<close>: the next call of a run, from the answers it has got so far.
  \<open>Cluster\<close>: any number of runs of both reconcilers, the jobs and the users as a step relation in which a
  run makes one call per step; it is there for the invariants, while what is reached is stated of explicit rounds
  (\<open>job_round\<close>). \<open>Cluster_Runs\<close>: these steps are the code's. \<open>Call_Bounds\<close>: how many calls a run
  makes; the contract \<open>metered\<close> and its extension \<open>paid\<close> bound the cost of every operation, and are interpreted on the log of any
  client and on the replay. \<open>Node_Jobs\<close>: what jobs for one node after the other, their reports and a round of both
  reconcilers make of the server in memory; \<open>Convergence\<close> and \<open>Removal\<close>: the state after a round for a shim that is
  installed and for one that is deleted; \<open>Late_Report\<close>: the last of several reports counts, also if it comes too late; \<open>Retry\<close>: a
  job that is sent again after it has finished. \<open>Manager\<close>: \<open>cmd/rcm/main.go\<close> with Go's \<open>flag\<close> package, the \<open>SetupWithManager\<close> of both
  reconcilers, the registration of the API group, and which events wake a reconciler. \<open>Fleet\<close>: the cluster together with the hosts of its nodes and the pods that run
  the node installer on them, each run with the arguments and the environment of its container and with its own orders of the maps
  (\<open>installer_prog\<close>). This theory: how the options of a
  shim reach the node installer.

  \<^bold>\<open>Deep copies.\<close> \<open>Go_Heap\<close>: pointers, slices and maps as addresses of cells of a heap, and the contract of a
  deep copy (\<open>deep_copier\<close>), with a lemma for each way in which a struct is built from its parts. \<open>Deep_Copy\<close>: every
  function of \<open>zz_generated.deepcopy.go\<close>; the copies of the structs of the API machinery are parameters. The
  controllers work on values without references: that they may is what the deep copies give.

  \<^bold>\<open>What the theorems show.\<close> Round trips: write and read of the lock file, install and uninstall of a
  binary, of a section of the configuration, and of a whole run; the options from the shim to the node.
  Functional behaviour of the operations with their error branches: what a successful run has done and what
  it leaves alone (no command and no restart when nothing has changed). Refinement of the text edits by
  pure functions. The controllers' theorems hold for every client with the laws of \<open>kube_helpers\<close>, so for
  every behaviour of the API server and of other actors between two calls: jobs are sent only where
  the labels ask for them, the finalizer goes only after for every labelled node an uninstall job was accepted (or the attempt
  ended in NotFound without a job, which the code ignores), a run
  that returns no error has served all nodes in this sense. For the cluster: a node is labelled as provisioned only if
  an install job has completed there, however the calls of the runs interleave; and a run that is not
  interrupted does what the code as a whole does (equivalence of the replay with the definitions), so that an undisturbed
  round brings a shim to all the nodes it selects, or takes a deleted one from the nodes that it selects and that have its label. A run ends: the calls it makes are bounded, for every
  client and however runs interleave. From the operator to the host: the arguments of a job run the command of
  the job for its shim, a node is labelled as provisioned only if \<open>RunInstall\<close> has succeeded on its host, and the
  uninstall job undoes what the install job did to the configuration and the lock file (both runs visiting the options in the same
  order); after any number of jobs on a
  host the last one about a shim decides whether it is recorded there. The
  operator's start: the manager runs only after everything was set up, and a changed label wakes all shims. A deep copy
  has the value of the original and shares no cell with it. Theorems also pin down where the code fails: nil maps that
  panic, a restart that is not retried, a job that finished or failed and is not run again, names that are cut where no name may end, a finalizer
  that is added again, a late report that overrides a newer one, a section that stays because the options were visited in another
  order, a deletion that does not reach nodes which are not selected
  any more.

  \<^bold>\<open>Bounds of the model.\<close> The calls of \<open>Cluster\<close> go to the server in memory; one call is one step. A new status of a
  job, its removal, and changes by users and by the machinery around the nodes are arbitrary, except that
  nobody else sets a label to \<open>provisioned\<close> or writes a job's labels. Server-side apply is
  modelled as: create, or replace what is specified and keep the status, or refuse a change of the pod
  template. The conditions of a shim's status, which the reconcilers never write (they are copied in \<open>Deep_Copy\<close>), and
  fields of Kubernetes objects that the source never touches are left out. A deletion time stamp is either absent or present.

  \<^bold>\<open>Not modelled.\<close> Logging. The libraries cobra, viper, zap, controller-runtime and client-go, and the
  implementations of afero: they are parameters, with the documented behaviour that the source relies on as the laws of
  locales (\<open>cobra_laws\<close>, \<open>kube_helpers\<close>, \<open>machinery_laws\<close>, those of \<open>Afero\<close>).
  \<open>images/downloader/download_shim.sh\<close> is a shell script; the helper of the tests that fills a file system in memory is in \<open>Fixture_Fs\<close>.
  What is left of the Go files is imports, comments and the declarations of a helper for pointers, of package variables and of
  the two empty command groups. Progress is shown for runs that nobody interrupts: under arbitrary interleaving the code does not promise
  it, since a conflict on a node's label is logged and dropped (finding on \<open>job_controller.go\<close>).
\<close>

section \<open>The runtime options from the shim to the node\<close>

lemma decode_options_strings:
  assumes "distinct (map fst kvs)" "\<forall>k \<in> set (map fst kvs). k \<notin> set (map fst m)"
  shows "decode_options m (map (\<lambda>(k, v). (k, JStr v)) kvs) = Inr (m @ kvs)"
  using assms
proof (induction kvs arbitrary: m)
  case (Cons kv kvs)
  obtain k v where kv: "kv = (k, v)" by fastforce
  have "AList.update k v m = m @ [(k, v)]" using Cons.prems(2) kv by (induction m) auto
  moreover have "decode_options (m @ [(k, v)]) (map (\<lambda>(k, v). (k, JStr v)) kvs) = Inr ((m @ [(k, v)]) @ kvs)"
    using Cons.prems kv by (intro Cons.IH) auto
  ultimately show ?case using kv by simp
qed simp

lemma marshal_options_valid:
  assumes "distinct (map fst kvs)" "\<forall>(k, v) \<in> set kvs. valid_utf8 k \<and> valid_utf8 v"
  shows "unmarshal_options (marshal_options kvs) = Inr (sorted_map (Some kvs))" "marshal_options kvs \<noteq> []"
proof -
  let ?ms = "map (\<lambda>(k, v). (k, JStr v)) (sort_key fst kvs)"
  have enc: "encodable (JObj ?ms)" using assms(2) by (auto simp: list_all_iff)
  have "depth (JObj ?ms) \<le> max_depth"
  proof -
    have "fold max (map (\<lambda>(k, v). depth v) (map (\<lambda>(k, v). (k, JStr v)) xs)) 0 = 0" for xs :: "(string \<times> string) list"
      by (induction xs) auto
    then show ?thesis by (simp add: max_depth_def)
  qed
  then have parse: "json_parse (marshal_options kvs) = Some (JObj ?ms)"
    unfolding marshal_options_def by (intro json_roundtrip blank_compact enc)
  have "map_wf (sorted_map (Some kvs))" using assms(1) by (intro map_wf_sorted) (simp add: map_wf_def)
  then have "distinct (map fst (sort_key fst kvs))" by (simp add: map_wf_def sorted_map_def)
  with parse show "unmarshal_options (marshal_options kvs) = Inr (sorted_map (Some kvs))"
    using decode_options_strings [of "sort_key fst kvs" "[]"] by (simp add: unmarshal_options_def sorted_map_def)
  have "json_parse [] = None" by code_simp
  with parse show "marshal_options kvs \<noteq> []" by auto
qed

text \<open>
  C24. The containerd options of a shim reach the node unchanged: when the node installer runs with
  the environment of the container of a job that the shim controller created, reading the runtime
  options yields the options of the shim's specification, through the bytes of the JSON text in the
  variable \<open>RUNTIME_OPTIONS\<close>.
\<close>

theorem runtime_options_delivered:
  assumes "kube_helpers K" "createJobManifest K env shim node op artifact = Inr job" "ctr \<in> set (pod_Containers (job_Pod job))"
    "map_wf (ContainerdRuntimeOptions (Spec shim))"
    "\<forall>(k, v) \<in> set (entries (ContainerdRuntimeOptions (Spec shim))). valid_utf8 k \<and> valid_utf8 v"
    "os_Getenv os ''RUNTIME_OPTIONS'' = env_of ctr ''RUNTIME_OPTIONS''"
  shows "\<exists>m. RuntimeOptions os = Inr m \<and> (\<forall>k. map_get m k = map_get (ContainerdRuntimeOptions (Spec shim)) k)"
proof -
  have ctr: "ctr_Env ctr = \<lparr>ev_Name = ''HOST_ROOT'', ev_Value = ''/mnt/node-root''\<rparr> # (case ContainerdRuntimeOptions (Spec shim) of
       None \<Rightarrow> [] | Some kvs \<Rightarrow> [\<lparr>ev_Name = ''RUNTIME_OPTIONS'', ev_Value = marshal_options kvs\<rparr>])"
    using createJobManifest_cases [OF assms(1,2)] assms(3) by (auto simp: provisioner_def)
  show ?thesis
  proof (cases "ContainerdRuntimeOptions (Spec shim)")
    case None
    with ctr assms(6) have "os_Getenv os ''RUNTIME_OPTIONS'' = []" by (simp add: env_of_def)
    with None show ?thesis by (simp add: RuntimeOptions_def map_get_Some)
  next
    case (Some kvs)
    with ctr assms(6) have "os_Getenv os ''RUNTIME_OPTIONS'' = marshal_options kvs" by (simp add: env_of_def)
    moreover have "distinct (map fst kvs)" "\<forall>(k, v) \<in> set kvs. valid_utf8 k \<and> valid_utf8 v"
      using assms(4,5) Some by (simp_all add: map_wf_def)
    ultimately have "RuntimeOptions os = Inr (sorted_map (Some kvs))"
      using marshal_options_valid [of kvs] by (simp add: RuntimeOptions_def)
    with map_get_sorted [OF assms(4)] Some show ?thesis by simp
  qed
qed

definition demo_options :: "(string \<times> string) list" where
  "demo_options = [(''SystemdCgroup'', ''true''), (''BinaryName'', ''crun'')]"

definition options_Shim :: Shim where
  "options_Shim = (demo_Shim ''spin'')\<lparr>Spec := (Spec (demo_Shim ''spin''))\<lparr>ContainerdRuntimeOptions := Some demo_options\<rparr>\<rparr>"

theorem runtime_options_delivered_witness:
  "\<exists>(os :: unit host_os) m. RuntimeOptions os = Inr m \<and> map_get m ''SystemdCgroup'' = Some ''true'' \<and> map_get m ''BinaryName'' = Some ''crun''"
proof -
  obtain job where job: "createJobManifest mem_kube (\<lambda>_. []) options_Shim (demo_Node ''n1'' []) UNINSTALL no_artifact = Inr job"
    by (simp add: createJobManifest_def Let_def INSTALL_def UNINSTALL_def)
  from createJobManifest_cases [OF mem_kube.kube_helpers_axioms job]
  obtain ctr where ctr: "ctr \<in> set (pod_Containers (job_Pod job))" by force
  define os :: "unit host_os" where "os = quiet_os\<lparr>os_Getenv := env_of ctr\<rparr>"
  have opts: "ContainerdRuntimeOptions (Spec options_Shim) = Some demo_options" by (simp add: options_Shim_def)
  have "map_wf (Some demo_options)" by (simp add: map_wf_def demo_options_def)
  moreover have "\<forall>(k, v) \<in> set (entries (Some demo_options)). valid_utf8 k \<and> valid_utf8 v"
    by (auto simp: demo_options_def intro!: ascii_valid_utf8) (simp_all add: byte_in_def)
  moreover have "os_Getenv os ''RUNTIME_OPTIONS'' = env_of ctr ''RUNTIME_OPTIONS''" by (simp add: os_def)
  ultimately obtain m where "RuntimeOptions os = Inr m" "\<forall>k. map_get m k = map_get (Some demo_options) k"
    using runtime_options_delivered [OF mem_kube.kube_helpers_axioms job ctr, of os] opts by auto
  moreover have "map_get (Some demo_options) ''SystemdCgroup'' = Some ''true''" "map_get (Some demo_options) ''BinaryName'' = Some ''crun''"
    by (simp_all add: demo_options_def map_get_Some)
  ultimately show ?thesis by (intro exI [of _ os] exI [of _ m]) simp
qed

end
